(* ===== verification/CJ_Prelude.thy ===== *)
theory CJ_Prelude
  imports Main "HOL-Library.Word" "HOL-Library.Product_Lexorder"
begin

text \<open>
  Shared vocabulary of the development: the types that stand for Python and PostgreSQL
  values (UUIDs, timestamps, JSON documents), the exceptions of the program as one
  datatype, SQL tables as lists of rows with the three operations the repositories use
  (a selection, a conditional update, a row count), and Python's string operations.
  The generic lemmas on tables carry most repository and transaction proofs.
\<close>

section \<open>Values\<close>

text \<open>
  A UUID is a 128-bit word. PostgreSQL compares \<^verbatim>\<open>uuid\<close> columns byte by byte, which is
  the unsigned order of the word. A time-zone aware UTC \<^verbatim>\<open>datetime\<close> is its number of
  microseconds since the epoch.
\<close>

type_synonym uuid = "128 word"
type_synonym datetime = int

definition timedelta_seconds :: "int \<Rightarrow> int" where
  "timedelta_seconds n = n * 1000000"

text \<open>
  \<^verbatim>\<open>int(t.timestamp())\<close>: seconds since the epoch, truncated towards zero.
\<close>

definition int_timestamp :: "datetime \<Rightarrow> int" where
  "int_timestamp t = (if 0 \<le> t then t div 1000000 else - ((- t) div 1000000))"

datatype json =
    JNull
  | JBool bool
  | JInt int
  | JStr string
  | JArr "json list"
  | JObj "(string \<times> json) list"

type_synonym json_object = "(string \<times> json) list"

section \<open>Exceptions\<close>

text \<open>
  A constraint of the database that an insert violates, by the constraint's name in
  \<^verbatim>\<open>alembic/versions/0001_initial_schema.py\<close>.
\<close>

datatype violation =
    UniqueViolation string
  | CheckViolation string
  | ForeignKeyViolation string

datatype exn =
    DuplicateEmailError
  | DuplicateJobIdempotencyKeyError
  | IdempotencyConflictError
  | JobNotCancellableError
  | ResourceNotFoundError string
  | AuthenticationError string
  | InactiveUserError
  | AuthorizationError string
  | InvalidRequestError string
  | InvalidCursorError
  | RateLimitExceededError int int int
  | JobStateTransitionError string
  | JobExecutionError string
  | JobCancellationRequestedError string
  | MissingJobHandlerError string
  | IntegrityError violation
  | DataError
  | DatabaseError
  | ValidationError json_object
  | PublishError string
  | RuntimeError string
  | ValueError string
  | KeyError string
  | TypeError string
  | AttributeError string
  | OverflowError string
  | HTTPException int string

text \<open>
  \<^verbatim>\<open>str(exc)\<close>. The text of exceptions the program does not word itself is given by \<open>other\<close>.
\<close>

fun str_exn :: "(exn \<Rightarrow> string) \<Rightarrow> exn \<Rightarrow> string" where
  "str_exn other (JobExecutionError m) = m"
| "str_exn other (JobCancellationRequestedError m) = m"
| "str_exn other (MissingJobHandlerError m) = m"
| "str_exn other (ValueError m) = m"
| "str_exn other (TypeError m) = m"
| "str_exn other (RuntimeError m) = m"
| "str_exn other (PublishError m) = m"
| "str_exn other (KeyError k) = CHR 0x27 # k @ [CHR 0x27]"
| "str_exn other x = other x"

text \<open>
  Sequencing of computations that may raise, and a comprehension whose body may raise: it stops
  at the first exception.
\<close>

fun bind_result :: "'e + 'a \<Rightarrow> ('a \<Rightarrow> 'e + 'b) \<Rightarrow> 'e + 'b" where
  "bind_result (Inl x) f = Inl x"
| "bind_result (Inr v) f = f v"

fun map_results :: "('a \<Rightarrow> 'e + 'b) \<Rightarrow> 'a list \<Rightarrow> 'e + 'b list" where
  "map_results f [] = Inr []"
| "map_results f (x # xs) = bind_result (f x) (\<lambda>y. bind_result (map_results f xs) (\<lambda>ys. Inr (y # ys)))"

lemma map_results_Inr: "(\<And>x. x \<in> set xs \<Longrightarrow> f x = Inr (g x)) \<Longrightarrow> map_results f xs = Inr (map g xs)"
  by (induction xs) auto

lemma bind_result_Inr_iff: "bind_result r f = Inr v \<longleftrightarrow> (\<exists>u. r = Inr u \<and> f u = Inr v)"
  by (cases r) auto

text \<open>\<^verbatim>\<open>d[key]\<close> on a dictionary.\<close>

definition dict_item :: "string \<Rightarrow> json_object \<Rightarrow> exn + json" where
  "dict_item k kvs = (case map_of kvs k of None \<Rightarrow> Inl (KeyError k) | Some v \<Rightarrow> Inr v)"

text \<open>A conversion of the standard library that raises \<^verbatim>\<open>ValueError\<close> on what it cannot read.\<close>

definition or_value_error :: "('b \<Rightarrow> 'a option) \<Rightarrow> 'b \<Rightarrow> exn + 'a" where
  "or_value_error f j = (case f j of None \<Rightarrow> Inl (ValueError ''invalid text'') | Some v \<Rightarrow> Inr v)"

section \<open>Tables\<close>

text \<open>
  A table is the list of its rows. \<open>select_where\<close> keeps the rows a WHERE clause admits,
  \<open>scalar_where\<close> is SQLAlchemy's \<^verbatim>\<open>session.scalar(select(...))\<close>: the first row, if any.
  \<open>update_where\<close> and \<open>rowcount\<close> are an UPDATE statement and the number of rows it matched.
\<close>

definition select_where :: "('r \<Rightarrow> bool) \<Rightarrow> 'r list \<Rightarrow> 'r list" where
  "select_where p rs = filter p rs"

definition scalar_where :: "('r \<Rightarrow> bool) \<Rightarrow> 'r list \<Rightarrow> 'r option" where
  "scalar_where p rs = find p rs"

definition update_where :: "('r \<Rightarrow> bool) \<Rightarrow> ('r \<Rightarrow> 'r) \<Rightarrow> 'r list \<Rightarrow> 'r list" where
  "update_where p f rs = map (\<lambda>r. if p r then f r else r) rs"

definition rowcount :: "('r \<Rightarrow> bool) \<Rightarrow> 'r list \<Rightarrow> nat" where
  "rowcount p rs = length (filter p rs)"

named_theorems table_defs "definitions of the table operations"
declare select_where_def [table_defs] scalar_where_def [table_defs]
  update_where_def [table_defs] rowcount_def [table_defs]

lemma update_where_Nil [simp]: "update_where p f [] = []"
  by (simp add: update_where_def)

lemma update_where_Cons [simp]:
  "update_where p f (r # rs) = (if p r then f r else r) # update_where p f rs"
  by (simp add: update_where_def)

lemma length_update_where [simp]: "length (update_where p f rs) = length rs"
  by (simp add: update_where_def)

lemma map_update_where:
  "(\<And>r. r \<in> set rs \<Longrightarrow> p r \<Longrightarrow> g (f r) = g r) \<Longrightarrow> map g (update_where p f rs) = map g rs"
  by (simp add: update_where_def)

lemma set_update_where:
  "set (update_where p f rs) = {r \<in> set rs. \<not> p r} \<union> f ` {r \<in> set rs. p r}"
  by (induction rs) auto

lemma in_update_whereE:
  assumes "r' \<in> set (update_where p f rs)"
  obtains r where "r \<in> set rs" and "r' = (if p r then f r else r)"
  using assms by (auto simp: update_where_def)

lemma update_where_idle: "(\<And>r. r \<in> set rs \<Longrightarrow> \<not> p r) \<Longrightarrow> update_where p f rs = rs"
  by (simp add: update_where_def map_idI)

lemma update_where_pred_cong:
  "(\<And>r. r \<in> set rs \<Longrightarrow> p r \<longleftrightarrow> q r) \<Longrightarrow> update_where p f rs = update_where q f rs"
  by (simp add: update_where_def)

lemma scalar_where_SomeD: "scalar_where p rs = Some r \<Longrightarrow> r \<in> set rs \<and> p r"
  by (auto simp: scalar_where_def find_Some_iff)

lemma scalar_where_None_iff: "scalar_where p rs = None \<longleftrightarrow> (\<forall>r \<in> set rs. \<not> p r)"
  by (auto simp: scalar_where_def find_None_iff)

text \<open>With a unique key, a selection by that key finds exactly the row that has it.\<close>

lemma key_unique:
  "distinct (map k rs) \<Longrightarrow> r \<in> set rs \<Longrightarrow> r' \<in> set rs \<Longrightarrow> k r = k r' \<Longrightarrow> r = r'"
  by (induction rs) (auto simp: image_iff)

lemma scalar_where_key:
  assumes "distinct (map k rs)"
  shows "scalar_where (\<lambda>r. k r = i) rs = Some r \<longleftrightarrow> r \<in> set rs \<and> k r = i"
proof
  assume "r \<in> set rs \<and> k r = i"
  then show "scalar_where (\<lambda>r. k r = i) rs = Some r"
    using assms key_unique scalar_where_SomeD scalar_where_None_iff
    by (metis (mono_tags, lifting) option.exhaust)
qed (auto dest: scalar_where_SomeD)

lemma scalar_where_key_and:
  assumes "distinct (map k rs)" "r \<in> set rs" "k r = i"
  shows "scalar_where (\<lambda>x. k x = i \<and> q x) rs = (if q r then Some r else None)"
proof (cases "q r")
  case True
  then have "scalar_where (\<lambda>x. k x = i \<and> q x) rs \<noteq> None"
    using assms by (auto simp: scalar_where_None_iff)
  then obtain x where x: "scalar_where (\<lambda>x. k x = i \<and> q x) rs = Some x" by auto
  then have "x = r" using assms key_unique [of k rs x r] scalar_where_SomeD by fastforce
  with x True show ?thesis by simp
next
  case False
  then have "\<forall>x \<in> set rs. \<not> (k x = i \<and> q x)" using assms key_unique [of k rs r] by metis
  with False show ?thesis by (simp add: scalar_where_None_iff)
qed

lemma scalar_where_update:
  assumes "\<And>r. q (if p r then f r else r) \<longleftrightarrow> q r"
  shows "scalar_where q (update_where p f rs) =
    map_option (\<lambda>r. if p r then f r else r) (scalar_where q rs)"
  using assms by (induction rs) (auto simp: scalar_where_def)

lemma scalar_where_append:
  "scalar_where q (rs @ rs') =
    (case scalar_where q rs of None \<Rightarrow> scalar_where q rs' | Some r \<Rightarrow> Some r)"
  by (induction rs) (auto simp: scalar_where_def)

text \<open>
  An UPDATE whose WHERE clause fixes a unique key changes at most one row, and reports
  one changed row exactly when some row satisfies the clause.
\<close>

lemma rowcount_key_le:
  assumes "distinct (map k rs)" and "\<And>r. p r \<Longrightarrow> k r = i"
  shows "rowcount p rs \<le> 1"
  using assms
proof (induction rs)
  case (Cons r rs)
  show ?case
  proof (cases "p r")
    case True
    with Cons.prems have "\<forall>r' \<in> set rs. \<not> p r'" by (auto simp: image_iff)
    then show ?thesis by (simp add: rowcount_def)
  next
    case False
    with Cons show ?thesis by (simp add: rowcount_def)
  qed
qed (simp add: rowcount_def)

lemma rowcount_key_iff:
  assumes "distinct (map k rs)" and "\<And>r. p r \<Longrightarrow> k r = i"
  shows "rowcount p rs = 1 \<longleftrightarrow> (\<exists>r \<in> set rs. p r)"
proof
  assume "\<exists>r \<in> set rs. p r"
  then have "rowcount p rs \<noteq> 0" by (auto simp: rowcount_def filter_empty_conv)
  moreover have "rowcount p rs \<le> 1" using assms by (rule rowcount_key_le)
  ultimately show "rowcount p rs = 1" by simp
qed (auto simp: rowcount_def dest!: filter_eq_ConsD simp: length_Suc_conv)

text \<open>How an update of one row moves a count over the table.\<close>

lemma count_update_one:
  assumes "distinct (map k rs)" and "r \<in> set rs" and "p r" and "\<And>r'. p r' \<Longrightarrow> k r' = k r"
  shows "rowcount q (update_where p f rs) + of_bool (q r) = rowcount q rs + of_bool (q (f r))"
  using assms
proof (induction rs)
  case (Cons x rs)
  show ?case
  proof (cases "x = r")
    case True
    with Cons.prems(1) have "k r \<notin> k ` set rs" by auto
    with Cons.prems(4) have "\<forall>r' \<in> set rs. \<not> p r'" by (metis image_eqI)
    then have "update_where p f rs = rs" by (intro update_where_idle) auto
    with True Cons.prems(3) show ?thesis by (simp add: rowcount_def)
  next
    case False
    with Cons.prems(2) have r: "r \<in> set rs" by auto
    with Cons.prems(1) have "k x \<noteq> k r" by auto
    with Cons.prems(4) have "\<not> p x" by metis
    moreover have "rowcount q (update_where p f rs) + of_bool (q r) = rowcount q rs + of_bool (q (f r))"
      using Cons.prems(1) r by (intro Cons.IH Cons.prems(3,4)) auto
    ultimately show ?thesis by (simp add: rowcount_def)
  qed
qed simp

lemma count_update_mono:
  assumes "\<And>r. r \<in> set rs \<Longrightarrow> p r \<Longrightarrow> q (f r) \<Longrightarrow> q r"
  shows "rowcount q (update_where p f rs) \<le> rowcount q rs"
  using assms by (induction rs) (auto simp: rowcount_def le_SucI)

lemma distinct_constant:
  assumes "distinct (map f xs)" and "\<And>x y. x \<in> set xs \<Longrightarrow> y \<in> set xs \<Longrightarrow> f x = f y"
  shows "length xs \<le> 1"
proof (rule ccontr)
  assume "\<not> length xs \<le> 1"
  then obtain x y ys where xs: "xs = x # y # ys" by (cases xs; cases "tl xs") auto
  then have "f x = f y" by (intro assms(2)) simp_all
  with assms(1) xs show False by simp
qed

section \<open>Python strings\<close>

text \<open>
  A Python string is a \<open>string\<close>: the code points below 256 (Latin-1), on which the
  operations below agree with \<^verbatim>\<open>str.lower\<close>, \<^verbatim>\<open>str.strip\<close>, \<^verbatim>\<open>in\<close> and slicing.
\<close>

definition is_space :: "char \<Rightarrow> bool" where
  "is_space c = (let n = of_char c :: nat in
     (9 \<le> n \<and> n \<le> 13) \<or> (28 \<le> n \<and> n \<le> 32) \<or> n = 133 \<or> n = 160)"

definition lower_char :: "char \<Rightarrow> char" where
  "lower_char c = (let n = of_char c :: nat in
     if (65 \<le> n \<and> n \<le> 90) \<or> (192 \<le> n \<and> n \<le> 222 \<and> n \<noteq> 215) then char_of (n + 32) else c)"

definition py_lower :: "string \<Rightarrow> string" where
  "py_lower s = map lower_char s"

definition py_strip :: "string \<Rightarrow> string" where
  "py_strip s = rev (dropWhile is_space (rev (dropWhile is_space s)))"

fun py_contains :: "string \<Rightarrow> string \<Rightarrow> bool" where
  "py_contains sub [] = (sub = [])"
| "py_contains sub (c # cs) = (take (length sub) (c # cs) = sub \<or> py_contains sub cs)"

lemma py_contains_append: "py_contains sub (xs @ sub @ ys)"
proof (induction xs)
  case Nil
  show ?case
  proof (cases "sub @ ys")
    case (Cons a list)
    then have "take (length sub) (a # list) = sub" by (metis append_eq_conv_conj)
    with Cons show ?thesis by simp
  qed auto
qed auto

definition digit_char :: "nat \<Rightarrow> char" where
  "digit_char d = char_of (48 + d)"

fun str_nat :: "nat \<Rightarrow> string" where
  "str_nat n = (if n < 10 then [digit_char n] else str_nat (n div 10) @ [digit_char (n mod 10)])"

declare str_nat.simps [simp del]

definition str_int :: "int \<Rightarrow> string" where
  "str_int n = (if n < 0 then ''-'' @ str_nat (nat (- n)) else str_nat (nat n))"

text \<open>\<^verbatim>\<open>error if len(error) <= n else error[: n - 3] + "..."\<close>\<close>

definition truncate_to :: "nat \<Rightarrow> string \<Rightarrow> string" where
  "truncate_to n s = (if length s \<le> n then s else take (n - 3) s @ ''...'')"

lemma length_truncate_to: "3 \<le> n \<Longrightarrow> length (truncate_to n s) \<le> n"
  by (auto simp: truncate_to_def)

end
