(* ===== verification/Domain_Model.thy ===== *)
theory Domain_Model
  imports CJ_Prelude
begin

text \<open>
  The domain layer, \<^verbatim>\<open>src/app/domain\<close>: the string enumerations, the dispatch event and the
  job state policy. The policy is the specification that the status changes made by the
  repositories are measured against in \<open>Job_Lifecycle\<close> and \<open>System_Model\<close>.
\<close>

section \<open>Enumerations (\<^verbatim>\<open>src/app/domain/enums.py\<close>)\<close>

datatype UserRole = USER | ADMIN

datatype JobStatus = PENDING | QUEUED | RUNNING | COMPLETED | FAILED | CANCELLED

datatype JobType = SLEEP | SUCCESS | FAILURE

datatype JobEventType = DISPATCH

fun UserRole_value :: "UserRole \<Rightarrow> string" where
  "UserRole_value USER = ''user''"
| "UserRole_value ADMIN = ''admin''"

fun JobStatus_value :: "JobStatus \<Rightarrow> string" where
  "JobStatus_value PENDING = ''pending''"
| "JobStatus_value QUEUED = ''queued''"
| "JobStatus_value RUNNING = ''running''"
| "JobStatus_value COMPLETED = ''completed''"
| "JobStatus_value FAILED = ''failed''"
| "JobStatus_value CANCELLED = ''cancelled''"

fun JobType_value :: "JobType \<Rightarrow> string" where
  "JobType_value SLEEP = ''sleep''"
| "JobType_value SUCCESS = ''success''"
| "JobType_value FAILURE = ''failure''"

fun JobEventType_value :: "JobEventType \<Rightarrow> string" where
  "JobEventType_value DISPATCH = ''job.dispatch''"

text \<open>
  The members as finite types, so that a statement over all statuses is decided by
  evaluation.
\<close>

instantiation JobStatus :: enum
begin

definition enum_JobStatus :: "JobStatus list" where
  "enum_JobStatus = [PENDING, QUEUED, RUNNING, COMPLETED, FAILED, CANCELLED]"

definition enum_all_JobStatus :: "(JobStatus \<Rightarrow> bool) \<Rightarrow> bool" where
  "enum_all_JobStatus P = list_all P [PENDING, QUEUED, RUNNING, COMPLETED, FAILED, CANCELLED]"

definition enum_ex_JobStatus :: "(JobStatus \<Rightarrow> bool) \<Rightarrow> bool" where
  "enum_ex_JobStatus P = list_ex P [PENDING, QUEUED, RUNNING, COMPLETED, FAILED, CANCELLED]"

instance
proof
  show univ: "(UNIV :: JobStatus set) = set Enum.enum"
    by (auto simp: enum_JobStatus_def intro: JobStatus.exhaust)
  show "distinct (Enum.enum :: JobStatus list)"
    by (simp add: enum_JobStatus_def)
  show "Enum.enum_all P \<longleftrightarrow> Ball (UNIV :: JobStatus set) P" for P
    unfolding univ by (simp add: enum_JobStatus_def enum_all_JobStatus_def)
  show "Enum.enum_ex P \<longleftrightarrow> Bex (UNIV :: JobStatus set) P" for P
    unfolding univ by (simp add: enum_JobStatus_def enum_ex_JobStatus_def)
qed

end

text \<open>
  \<^verbatim>\<open>JobStatus(value)\<close>, \<^verbatim>\<open>JobType(value)\<close> and \<^verbatim>\<open>UserRole(value)\<close>: the member with that value, or
  a \<^verbatim>\<open>ValueError\<close>.
\<close>

definition JobStatus_of_value :: "string \<Rightarrow> exn + JobStatus" where
  "JobStatus_of_value v =
     (case find (\<lambda>s. JobStatus_value s = v) [PENDING, QUEUED, RUNNING, COMPLETED, FAILED, CANCELLED] of
        Some s \<Rightarrow> Inr s
      | None \<Rightarrow> Inl (ValueError (CHR 0x27 # v @ CHR 0x27 # '' is not a valid JobStatus'')))"

definition JobType_of_value :: "string \<Rightarrow> exn + JobType" where
  "JobType_of_value v =
     (case find (\<lambda>t. JobType_value t = v) [SLEEP, SUCCESS, FAILURE] of
        Some t \<Rightarrow> Inr t
      | None \<Rightarrow> Inl (ValueError (CHR 0x27 # v @ CHR 0x27 # '' is not a valid JobType'')))"

definition UserRole_of_value :: "string \<Rightarrow> exn + UserRole" where
  "UserRole_of_value v =
     (case find (\<lambda>r. UserRole_value r = v) [USER, ADMIN] of
        Some r \<Rightarrow> Inr r
      | None \<Rightarrow> Inl (ValueError (CHR 0x27 # v @ CHR 0x27 # '' is not a valid UserRole'')))"

lemma JobStatus_of_value_inverse [simp]: "JobStatus_of_value (JobStatus_value s) = Inr s"
  by (cases s) (simp_all add: JobStatus_of_value_def)

lemma JobType_of_value_inverse [simp]: "JobType_of_value (JobType_value t) = Inr t"
  by (cases t) (simp_all add: JobType_of_value_def)

lemma UserRole_of_value_inverse [simp]: "UserRole_of_value (UserRole_value r) = Inr r"
  by (cases r) (simp_all add: UserRole_of_value_def)

lemma JobType_of_value_Inr: "JobType_of_value v = Inr t \<Longrightarrow> JobType_value t = v"
  by (auto simp: JobType_of_value_def split: option.splits if_splits)

section \<open>The job state policy (\<^verbatim>\<open>src/app/domain/job_state.py\<close>)\<close>

fun allowed_transitions :: "JobStatus \<Rightarrow> JobStatus set" where
  "allowed_transitions PENDING = {QUEUED, CANCELLED}"
| "allowed_transitions QUEUED = {RUNNING, CANCELLED}"
| "allowed_transitions RUNNING = {COMPLETED, QUEUED, FAILED, CANCELLED}"
| "allowed_transitions COMPLETED = {}"
| "allowed_transitions FAILED = {}"
| "allowed_transitions CANCELLED = {}"

definition can_transition :: "JobStatus \<Rightarrow> JobStatus \<Rightarrow> bool" where
  "can_transition current target \<longleftrightarrow> target \<in> allowed_transitions current"

definition ensure_transition :: "JobStatus \<Rightarrow> JobStatus \<Rightarrow> exn + unit" where
  "ensure_transition current target =
     (if can_transition current target then Inr ()
      else Inl (JobStateTransitionError
        (''Cannot transition job from '' @ [CHR 0x27] @ JobStatus_value current @ [CHR 0x27] @
         '' to '' @ [CHR 0x27] @ JobStatus_value target @ [CHR 0x27])))"

definition next_states :: "JobStatus \<Rightarrow> JobStatus set" where
  "next_states current = allowed_transitions current"

text \<open>The test the SSE route makes (\<^verbatim>\<open>_is_terminal_status\<close> in \<^verbatim>\<open>src/app/api/routes/jobs.py\<close>).\<close>

definition is_terminal_status :: "JobStatus \<Rightarrow> bool" where
  "is_terminal_status s \<longleftrightarrow> s \<in> {COMPLETED, FAILED, CANCELLED}"

lemma is_terminal_status_simps [simp]:
  "is_terminal_status COMPLETED" "is_terminal_status FAILED" "is_terminal_status CANCELLED"
  "\<not> is_terminal_status PENDING" "\<not> is_terminal_status QUEUED" "\<not> is_terminal_status RUNNING"
  by (simp_all add: is_terminal_status_def)

lemma is_terminal_iff_no_next: "is_terminal_status s \<longleftrightarrow> next_states s = {}"
  by (cases s) (simp_all add: next_states_def)

lemma can_transition_simps [simp]:
  "can_transition PENDING t \<longleftrightarrow> t = QUEUED \<or> t = CANCELLED"
  "can_transition QUEUED t \<longleftrightarrow> t = RUNNING \<or> t = CANCELLED"
  "can_transition RUNNING t \<longleftrightarrow> t = COMPLETED \<or> t = QUEUED \<or> t = FAILED \<or> t = CANCELLED"
  "\<not> can_transition COMPLETED t" "\<not> can_transition FAILED t" "\<not> can_transition CANCELLED t"
  by (auto simp: can_transition_def)

text \<open>
  A job that starts \<^verbatim>\<open>pending\<close> and follows the policy reaches a terminal status along
  \<open>can_transition\<close> from every status, and no status leads back to \<^verbatim>\<open>pending\<close>.
\<close>

lemma never_back_to_pending: "\<not> can_transition s PENDING"
  by (cases s) simp_all

lemma terminal_reachable: "\<exists>t. is_terminal_status t \<and> can_transition\<^sup>*\<^sup>* s t"
proof (cases "is_terminal_status s")
  case False
  then have "can_transition s CANCELLED" by (cases s) simp_all
  then show ?thesis by (intro exI [of _ CANCELLED]) (simp add: r_into_rtranclp)
qed auto

end
