(* ===== verification/Schema.thy ===== *)
theory Schema
  imports Domain_Model
begin

text \<open>
  The persistent state, \<^verbatim>\<open>src/app/models\<close> with the constraints of
  \<^verbatim>\<open>alembic/versions/0001_initial_schema.py\<close>: one record per table row, the database as the
  record of its four tables, the constraint check an insert into \<^verbatim>\<open>jobs\<close> or \<^verbatim>\<open>users\<close>
  undergoes, the DTOs of \<^verbatim>\<open>src/app/application/dto.py\<close> with the conversions from rows, and
  the settings the services read. A column that a CHECK constraint (or its only writer)
  restricts to the values of an enumeration has that enumeration as its type.
\<close>

section \<open>Rows\<close>

record user =
  user_id :: uuid
  user_email :: string
  user_password_hash :: string
  user_role :: UserRole
  user_is_active :: bool
  user_created_at :: datetime
  user_updated_at :: datetime

record job =
  job_id :: uuid
  job_owner_id :: uuid
  job_type :: JobType
  job_payload :: json_object
  job_status :: JobStatus
  job_idempotency_key :: string
  job_request_hash :: string
  job_attempt_count :: int
  job_max_retries :: int
  job_cancel_requested_at :: "datetime option"
  job_worker_id :: "string option"
  job_execution_token :: "uuid option"
  job_lease_expires_at :: "datetime option"
  job_started_at :: "datetime option"
  job_finished_at :: "datetime option"
  job_last_error :: "string option"
  job_created_at :: datetime
  job_updated_at :: datetime

record job_log =
  log_id :: int
  log_job_id :: uuid
  log_attempt_number :: "int option"
  log_level :: string
  log_message :: string
  log_created_at :: datetime

record outbox_event =
  ev_id :: uuid
  ev_aggregate_id :: uuid
  ev_event_type :: string
  ev_payload :: json_object
  ev_available_at :: datetime
  ev_publish_attempts :: int
  ev_published_at :: "datetime option"
  ev_last_error :: "string option"
  ev_created_at :: datetime
  ev_updated_at :: datetime

record database =
  db_users :: "user list"
  db_jobs :: "job list"
  db_job_logs :: "job_log list"
  db_outbox_events :: "outbox_event list"

definition empty_database :: database where
  "empty_database = \<lparr>db_users = [], db_jobs = [], db_job_logs = [], db_outbox_events = []\<rparr>"

section \<open>Constraints\<close>

text \<open>
  An integer that its column cannot hold never reaches the constraints: the driver or the server
  rejects the statement with a \<^verbatim>\<open>DataError\<close>, which is no \<^verbatim>\<open>IntegrityError\<close>. (The texts of a new job always
  fit: the API admits keys of at most 128 characters, the hash has 64, type and status are
  values of enumerations; see \<open>job_row_fits\<close> in \<open>Migration\<close>.)
\<close>

definition in_smallint :: "int \<Rightarrow> bool" where
  "in_smallint n \<longleftrightarrow> - (2 ^ 15) \<le> n \<and> n < 2 ^ 15"

definition jobs_data_error :: "job \<Rightarrow> bool" where
  "jobs_data_error r \<longleftrightarrow> \<not> in_smallint (job_attempt_count r) \<or> \<not> in_smallint (job_max_retries r)"

text \<open>
  PostgreSQL evaluates the CHECK constraints of a new row first, in the order of their
  names, then inserts into the unique indexes, then runs the foreign key trigger. The
  first constraint violated is the one reported.
\<close>

definition jobs_insert_violation :: "job \<Rightarrow> database \<Rightarrow> violation option" where
  "jobs_insert_violation r db =
     (if job_attempt_count r < 0 then Some (CheckViolation ''ck_jobs_jobs_attempt_count_non_negative'')
      else if job_max_retries r \<noteq> 3 then Some (CheckViolation ''ck_jobs_jobs_max_retries_fixed'')
      else if \<exists>r' \<in> set (db_jobs db). job_id r' = job_id r then Some (UniqueViolation ''pk_jobs'')
      else if \<exists>r' \<in> set (db_jobs db). job_owner_id r' = job_owner_id r \<and>
                job_idempotency_key r' = job_idempotency_key r
           then Some (UniqueViolation ''uq_jobs_owner_id_idempotency_key'')
      else if \<not> (\<exists>u \<in> set (db_users db). user_id u = job_owner_id r)
           then Some (ForeignKeyViolation ''fk_jobs_owner_id_users'')
      else None)"

definition users_insert_violation :: "user \<Rightarrow> database \<Rightarrow> violation option" where
  "users_insert_violation r db =
     (if \<exists>r' \<in> set (db_users db). user_id r' = user_id r then Some (UniqueViolation ''pk_users'')
      else if \<exists>r' \<in> set (db_users db). user_email r' = user_email r
           then Some (UniqueViolation ''uq_users_email'')
      else None)"

text \<open>
  The exception the database driver attaches to SQLAlchemy's \<^verbatim>\<open>IntegrityError\<close> as
  \<^verbatim>\<open>exc.orig\<close>: the attributes the repositories read from it, an absent one as \<open>None\<close>. How the
  driver fills them is a parameter \<open>driver\<close> of the operations that inspect it.
\<close>

record orig_error =
  oe_constraint_name :: "string option"
  oe_sqlstate :: "string option"
  oe_pgcode :: "string option"
  oe_text :: string

type_synonym driver = "violation \<Rightarrow> orig_error"

text \<open>\<^verbatim>\<open>a or b\<close> on optional strings: an empty string is false.\<close>

definition str_or :: "string option \<Rightarrow> string option \<Rightarrow> string option" where
  "str_or a b = (case a of Some s \<Rightarrow> if s = [] then b else a | None \<Rightarrow> b)"

text \<open>
  What PostgreSQL documents of a unique violation, whichever driver reports it: its
  SQLSTATE is 23505, and the constraint is named, either in the attribute or in the text.
\<close>

definition driver_reports_unique :: "driver \<Rightarrow> bool" where
  "driver_reports_unique d \<longleftrightarrow>
     (\<forall>c. str_or (oe_sqlstate (d (UniqueViolation c))) (oe_pgcode (d (UniqueViolation c))) = Some ''23505'' \<and>
          (oe_constraint_name (d (UniqueViolation c)) = Some c \<or>
           oe_constraint_name (d (UniqueViolation c)) = None \<and>
             (\<exists>pre post. py_lower (oe_text (d (UniqueViolation c))) = pre @ c @ post)))"

section \<open>Data transfer objects (\<^verbatim>\<open>src/app/application/dto.py\<close>)\<close>

record user_public_dto =
  upd_id :: uuid
  upd_email :: string
  upd_role :: UserRole
  upd_is_active :: bool
  upd_created_at :: datetime
  upd_updated_at :: datetime

record current_user_dto =
  cu_id :: uuid
  cu_email :: string
  cu_role :: UserRole
  cu_is_active :: bool

record job_public_dto =
  pub_id :: uuid
  pub_owner_id :: uuid
  pub_type :: JobType
  pub_payload :: json_object
  pub_status :: JobStatus
  pub_idempotency_key :: string
  pub_created_at :: datetime
  pub_updated_at :: datetime
  pub_cancel_requested_at :: "datetime option"
  pub_attempt_count :: int

record job_create_result_dto =
  jcr_job :: job_public_dto
  jcr_created :: bool

record rate_limit_reservation =
  rl_key :: string
  rl_limit :: int
  rl_used :: int
  rl_remaining :: int
  rl_retry_after_seconds :: int
  rl_reset_epoch :: int

record stored_job_dto =
  sj_id :: uuid
  sj_owner_id :: uuid
  sj_type :: JobType
  sj_payload :: json_object
  sj_status :: JobStatus
  sj_idempotency_key :: string
  sj_request_hash :: string
  sj_created_at :: datetime
  sj_updated_at :: datetime
  sj_cancel_requested_at :: "datetime option"
  sj_attempt_count :: int

record job_log_entry_dto =
  jl_id :: int
  jl_job_id :: uuid
  jl_attempt_number :: "int option"
  jl_level :: string
  jl_message :: string
  jl_created_at :: datetime

record job_execution_dto =
  je_id :: uuid
  je_owner_id :: uuid
  je_type :: JobType
  je_payload :: json_object
  je_status :: JobStatus
  je_attempt_count :: int
  je_max_retries :: int
  je_worker_id :: "string option"
  je_execution_token :: "uuid option"
  je_lease_expires_at :: "datetime option"
  je_started_at :: "datetime option"
  je_finished_at :: "datetime option"
  je_cancel_requested_at :: "datetime option"
  je_last_error :: "string option"

record job_list_page_dto =
  page_items :: "job_public_dto list"
  page_next_cursor :: "string option"

definition to_stored_job_dto :: "job \<Rightarrow> stored_job_dto" where
  "to_stored_job_dto r = \<lparr>
     sj_id = job_id r, sj_owner_id = job_owner_id r, sj_type = job_type r,
     sj_payload = job_payload r, sj_status = job_status r,
     sj_idempotency_key = job_idempotency_key r, sj_request_hash = job_request_hash r,
     sj_created_at = job_created_at r, sj_updated_at = job_updated_at r,
     sj_cancel_requested_at = job_cancel_requested_at r, sj_attempt_count = job_attempt_count r\<rparr>"

definition to_job_execution_dto :: "job \<Rightarrow> job_execution_dto" where
  "to_job_execution_dto r = \<lparr>
     je_id = job_id r, je_owner_id = job_owner_id r, je_type = job_type r,
     je_payload = job_payload r, je_status = job_status r,
     je_attempt_count = job_attempt_count r, je_max_retries = job_max_retries r,
     je_worker_id = job_worker_id r, je_execution_token = job_execution_token r,
     je_lease_expires_at = job_lease_expires_at r, je_started_at = job_started_at r,
     je_finished_at = job_finished_at r, je_cancel_requested_at = job_cancel_requested_at r,
     je_last_error = job_last_error r\<rparr>"

definition to_job_public_dto :: "stored_job_dto \<Rightarrow> job_public_dto" where
  "to_job_public_dto j = \<lparr>
     pub_id = sj_id j, pub_owner_id = sj_owner_id j, pub_type = sj_type j,
     pub_payload = sj_payload j, pub_status = sj_status j,
     pub_idempotency_key = sj_idempotency_key j, pub_created_at = sj_created_at j,
     pub_updated_at = sj_updated_at j, pub_cancel_requested_at = sj_cancel_requested_at j,
     pub_attempt_count = sj_attempt_count j\<rparr>"

named_theorems dto_defs "conversions from rows to data transfer objects"
declare to_stored_job_dto_def [dto_defs] to_job_execution_dto_def [dto_defs]
  to_job_public_dto_def [dto_defs]

lemma to_stored_job_dto_sel [simp]:
  "sj_id (to_stored_job_dto r) = job_id r"
  "sj_owner_id (to_stored_job_dto r) = job_owner_id r"
  "sj_status (to_stored_job_dto r) = job_status r"
  "sj_request_hash (to_stored_job_dto r) = job_request_hash r"
  "sj_idempotency_key (to_stored_job_dto r) = job_idempotency_key r"
  "sj_created_at (to_stored_job_dto r) = job_created_at r"
  "sj_attempt_count (to_stored_job_dto r) = job_attempt_count r"
  by (simp_all add: to_stored_job_dto_def)

lemma to_job_execution_dto_sel [simp]:
  "je_id (to_job_execution_dto r) = job_id r"
  "je_owner_id (to_job_execution_dto r) = job_owner_id r"
  "je_type (to_job_execution_dto r) = job_type r"
  "je_payload (to_job_execution_dto r) = job_payload r"
  "je_status (to_job_execution_dto r) = job_status r"
  "je_attempt_count (to_job_execution_dto r) = job_attempt_count r"
  "je_max_retries (to_job_execution_dto r) = job_max_retries r"
  "je_execution_token (to_job_execution_dto r) = job_execution_token r"
  "je_cancel_requested_at (to_job_execution_dto r) = job_cancel_requested_at r"
  by (simp_all add: to_job_execution_dto_def)

section \<open>Inputs of an operation\<close>

text \<open>
  What one operation receives from outside: the successive readings of \<^verbatim>\<open>clock.now()\<close>,
  of \<^verbatim>\<open>utc_now()\<close> (also the column defaults), the successive draws of \<^verbatim>\<open>uuid.uuid4()\<close>, the
  values of the identity column of \<^verbatim>\<open>job_logs\<close>, and whether each COMMIT it issues
  succeeds. A failed statement and a failed COMMIT have the same effect on the database,
  none, so failures are attached to the COMMIT.
\<close>

record env =
  clock_now :: "nat \<Rightarrow> datetime"
  utc_now :: "nat \<Rightarrow> datetime"
  uuid4 :: "nat \<Rightarrow> uuid"
  identity :: "nat \<Rightarrow> int"
  commit_ok :: "nat \<Rightarrow> bool"

section \<open>Settings (\<^verbatim>\<open>src/app/core/config.py\<close>)\<close>

datatype app_env = Development | Test | Production

record settings =
  app_env :: app_env
  log_level :: string
  database_url :: string
  redis_url :: string
  rabbitmq_url :: string
  jwt_secret :: string
  access_token_ttl_minutes :: int
  job_max_running_per_user :: int
  job_max_retries_setting :: int
  job_lease_seconds :: int
  outbox_poll_interval_seconds :: int
  outbox_batch_size :: int
  recovery_poll_interval_seconds :: int
  recovery_batch_size :: int
  cache_ttl_seconds :: int
  create_job_rate_limit :: int
  create_job_rate_window_seconds :: int

text \<open>The \<^verbatim>\<open>ge\<close> bounds of the numeric fields, which pydantic enforces on construction.\<close>

definition settings_bounds :: "settings \<Rightarrow> bool" where
  "settings_bounds cfg \<longleftrightarrow>
     1 \<le> access_token_ttl_minutes cfg \<and> 1 \<le> job_max_running_per_user cfg \<and>
     0 \<le> job_max_retries_setting cfg \<and> 1 \<le> job_lease_seconds cfg \<and>
     1 \<le> outbox_poll_interval_seconds cfg \<and> 1 \<le> outbox_batch_size cfg \<and>
     1 \<le> recovery_poll_interval_seconds cfg \<and> 1 \<le> recovery_batch_size cfg \<and>
     1 \<le> cache_ttl_seconds cfg \<and> 1 \<le> create_job_rate_limit cfg \<and>
     1 \<le> create_job_rate_window_seconds cfg"

end
