(* ===== verification/Handlers.thy ===== *)
theory Handlers
  imports Schema Complex_Main
begin

text \<open>
  The job handlers, \<^verbatim>\<open>src/app/workers/handlers\<close>. A handler runs between polls of its
  cancellation callback: it is a function of the answers it has received so far, and is
  \<open>Suspended\<close> when it needs another one. The callback reads the job in a transaction of its own, so an
  answer is what it found (\<open>Inr\<close>) or the exception it raised (\<open>Inl\<close>), which the handler lets through. The registry is the dictionary from job type
  values to handlers.
\<close>

datatype handler = SleepJobHandler | SuccessJobHandler | FailureJobHandler

datatype run = Suspended | Returned | Raised exn

fun handler_job_type :: "handler \<Rightarrow> string" where
  "handler_job_type SleepJobHandler = ''sleep''"
| "handler_job_type SuccessJobHandler = ''success''"
| "handler_job_type FailureJobHandler = ''failure''"

definition SLEEP_CHUNK_SECONDS :: rat where
  "SLEEP_CHUNK_SECONDS = 1 / 4"

definition DEFAULT_FAILURE_MESSAGE :: string where
  "DEFAULT_FAILURE_MESSAGE = ''Failure handler requested job failure''"

text \<open>
  The loop of \<^verbatim>\<open>SleepJobHandler.execute\<close>. Durations are multiples of a quarter of a second, on
  which binary floating point is exact, so they are rationals.
\<close>

type_synonym poll = "exn + bool"

fun sleep_loop :: "rat \<Rightarrow> poll list \<Rightarrow> run" where
  "sleep_loop remaining_seconds polls =
     (if 0 < remaining_seconds
      then (case polls of
              [] \<Rightarrow> Suspended
            | Inl x # polls' \<Rightarrow> Raised x
            | Inr cancellation_requested # polls' \<Rightarrow>
                (if cancellation_requested
                 then Raised (JobCancellationRequestedError ''Job cancellation requested'')
                 else sleep_loop (remaining_seconds - min remaining_seconds SLEEP_CHUNK_SECONDS) polls'))
      else Returned)"

declare sleep_loop.simps [simp del]

text \<open>
  \<^verbatim>\<open>float(value)\<close> on a JSON value. \<open>float_str\<close> is \<^verbatim>\<open>float\<close> on strings, which no validated payload
  reaches: the number, or the message of the \<^verbatim>\<open>ValueError\<close>.
\<close>

fun py_float :: "(string \<Rightarrow> string + rat) \<Rightarrow> json \<Rightarrow> exn + rat" where
  "py_float float_str (JInt n) = Inr (of_int n)"
| "py_float float_str (JBool b) = Inr (if b then 1 else 0)"
| "py_float float_str (JStr s) = (case float_str s of Inl m \<Rightarrow> Inl (ValueError m) | Inr x \<Rightarrow> Inr x)"
| "py_float float_str JNull =
     Inl (TypeError (''float() argument must be a string or a real number, not '' @ [CHR 0x27] @ ''NoneType'' @ [CHR 0x27]))"
| "py_float float_str (JArr xs) =
     Inl (TypeError (''float() argument must be a string or a real number, not '' @ [CHR 0x27] @ ''list'' @ [CHR 0x27]))"
| "py_float float_str (JObj xs) =
     Inl (TypeError (''float() argument must be a string or a real number, not '' @ [CHR 0x27] @ ''dict'' @ [CHR 0x27]))"

definition sleep_execute :: "(string \<Rightarrow> string + rat) \<Rightarrow> json_object \<Rightarrow> poll list \<Rightarrow> run" where
  "sleep_execute float_str payload polls =
     (case map_of payload ''duration_seconds'' of
        None \<Rightarrow> Raised (KeyError ''duration_seconds'')
      | Some v \<Rightarrow>
          (case py_float float_str v of
             Inl x \<Rightarrow> Raised x
           | Inr remaining_seconds \<Rightarrow> sleep_loop remaining_seconds polls))"

definition success_execute :: "json_object \<Rightarrow> run" where
  "success_execute payload = Returned"

definition failure_execute :: "json_object \<Rightarrow> run" where
  "failure_execute payload =
     (case map_of payload ''message'' of
        Some (JStr message) \<Rightarrow>
          (if message \<noteq> [] then Raised (JobExecutionError message)
           else Raised (JobExecutionError DEFAULT_FAILURE_MESSAGE))
      | _ \<Rightarrow> Raised (JobExecutionError DEFAULT_FAILURE_MESSAGE))"

fun execute :: "(string \<Rightarrow> string + rat) \<Rightarrow> handler \<Rightarrow> json_object \<Rightarrow> poll list \<Rightarrow> run" where
  "execute float_str SleepJobHandler payload polls = sleep_execute float_str payload polls"
| "execute float_str SuccessJobHandler payload polls = success_execute payload"
| "execute float_str FailureJobHandler payload polls = failure_execute payload"

section \<open>Registry (\<^verbatim>\<open>registry.py\<close>)\<close>

type_synonym registry = "string \<rightharpoonup> handler"

definition JobHandlerRegistry :: "handler list \<Rightarrow> registry" where
  "JobHandlerRegistry handlers = foldl (\<lambda>m h. m(handler_job_type h \<mapsto> h)) Map.empty handlers"

definition registry_get :: "registry \<Rightarrow> JobType \<Rightarrow> exn + handler" where
  "registry_get reg t =
     (case reg (JobType_value t) of
        None \<Rightarrow> Inl (MissingJobHandlerError
          (''No handler is registered for '' @ [CHR 0x27] @ JobType_value t @ [CHR 0x27]))
      | Some h \<Rightarrow> Inr h)"

definition build_job_handler_registry :: registry where
  "build_job_handler_registry = JobHandlerRegistry [SleepJobHandler, SuccessJobHandler, FailureJobHandler]"

section \<open>Lemmas\<close>

lemma registry_total: "\<exists>h. registry_get build_job_handler_registry t = Inr h \<and> handler_job_type h = JobType_value t"
  by (cases t) (simp_all add: registry_get_def build_job_handler_registry_def JobHandlerRegistry_def)

lemma registry_get_simps [simp]:
  "registry_get build_job_handler_registry SLEEP = Inr SleepJobHandler"
  "registry_get build_job_handler_registry SUCCESS = Inr SuccessJobHandler"
  "registry_get build_job_handler_registry FAILURE = Inr FailureJobHandler"
  by (simp_all add: registry_get_def build_job_handler_registry_def JobHandlerRegistry_def)

lemma sleep_loop_done [simp]: "\<not> 0 < r \<Longrightarrow> sleep_loop r polls = Returned"
  by (simp add: sleep_loop.simps [of r polls])

lemma sleep_loop_Nil [simp]: "0 < r \<Longrightarrow> sleep_loop r [] = Suspended"
  by (simp add: sleep_loop.simps [of r "[]"])

lemma sleep_loop_raised [simp]: "0 < r \<Longrightarrow> sleep_loop r (Inl x # polls) = Raised x"
  by (simp add: sleep_loop.simps [of r "Inl x # polls"])

lemma sleep_loop_cancel [simp]:
  "0 < r \<Longrightarrow> sleep_loop r (Inr True # polls) = Raised (JobCancellationRequestedError ''Job cancellation requested'')"
  by (simp add: sleep_loop.simps [of r "Inr True # polls"])

lemma sleep_loop_chunk [simp]:
  "0 < r \<Longrightarrow> sleep_loop r (Inr False # polls) = sleep_loop (r - min r SLEEP_CHUNK_SECONDS) polls"
  by (simp add: sleep_loop.simps [of r "Inr False # polls"])

text \<open>The first answer that stops the handler, if any, and the exception it leaves with.\<close>

fun first_stop :: "poll list \<Rightarrow> exn option" where
  "first_stop [] = None"
| "first_stop (Inl x # polls) = Some x"
| "first_stop (Inr True # polls) = Some (JobCancellationRequestedError ''Job cancellation requested'')"
| "first_stop (Inr False # polls) = first_stop polls"

lemma first_stop_None: "first_stop polls = None \<longleftrightarrow> set polls \<subseteq> {Inr False}"
  by (induction polls rule: first_stop.induct) auto

lemma first_stop_SomeD:
  "first_stop polls = Some x \<Longrightarrow>
    Inl x \<in> set polls \<or> Inr True \<in> set polls \<and> x = JobCancellationRequestedError ''Job cancellation requested''"
  by (induction polls rule: first_stop.induct) auto

lemma sleep_loop_quarters:
  "sleep_loop (of_nat n * SLEEP_CHUNK_SECONDS) polls =
     (case first_stop (take n polls) of
        Some x \<Rightarrow> Raised x
      | None \<Rightarrow> if n \<le> length polls then Returned else Suspended)"
proof (induction n arbitrary: polls)
  case (Suc n)
  let ?r = "of_nat (Suc n) * SLEEP_CHUNK_SECONDS"
  have pos: "0 < ?r" by (simp add: SLEEP_CHUNK_SECONDS_def)
  have step: "?r - min ?r SLEEP_CHUNK_SECONDS = of_nat n * SLEEP_CHUNK_SECONDS"
    by (simp add: SLEEP_CHUNK_SECONDS_def min_def field_simps)
  show ?case
  proof (cases polls rule: first_stop.cases)
    case 1
    with pos show ?thesis by (simp del: of_nat_Suc)
  next
    case (2 x polls')
    with sleep_loop_raised [OF pos] show ?thesis by (simp del: of_nat_Suc)
  next
    case (3 polls')
    with sleep_loop_cancel [OF pos] show ?thesis by (simp del: of_nat_Suc)
  next
    case (4 polls')
    with sleep_loop_chunk [OF pos, of polls'] Suc.IH [of polls'] show ?thesis
      unfolding step by (simp del: of_nat_Suc)
  qed
qed simp

text \<open>
  The sleep handler polls for cancellation four times per second of its duration. It
  raises at the first of its first \<open>4 * d\<close> polls that is answered yes (the cancellation error) or
  fails (with that failure), returns once all of them are answered no, and needs further answers
  otherwise. So a validated payload of \<open>d\<close> seconds always finishes after at most \<open>4 * d\<close> polls.
\<close>

lemma sleep_execute_quarters:
  "sleep_execute float_str [(''duration_seconds'', JInt (int d))] polls =
     (case first_stop (take (4 * d) polls) of
        Some x \<Rightarrow> Raised x
      | None \<Rightarrow> if 4 * d \<le> length polls then Returned else Suspended)"
proof -
  have "sleep_execute float_str [(''duration_seconds'', JInt (int d))] polls =
      sleep_loop (of_nat (4 * d) * SLEEP_CHUNK_SECONDS) polls"
    by (simp add: sleep_execute_def SLEEP_CHUNK_SECONDS_def)
  then show ?thesis unfolding sleep_loop_quarters .
qed

end
