(* ===== verification/Json_Text.thy ===== *)
theory Json_Text
  imports CJ_Prelude "HOL-Library.Char_ord" "HOL-Library.List_Lexorder" "HOL-Library.Multiset"
begin

text \<open>
  The JSON text the program writes: \<^verbatim>\<open>json.dumps(value, sort_keys=True, separators=(",", ":"))\<close>
  with its default \<^verbatim>\<open>ensure_ascii\<close>. A \<^verbatim>\<open>dict\<close> is the list of its entries in insertion order; its
  keys are distinct. Strings hold code points below 256.
\<close>

section \<open>Writing\<close>

definition hex_digit :: "nat \<Rightarrow> char" where
  "hex_digit d = (if d < 10 then char_of (48 + d) else char_of (87 + d))"

text \<open>One character of a string literal.\<close>

definition escape_char :: "char \<Rightarrow> string" where
  "escape_char ch =
     (let n = of_char ch :: nat in
      if n = 34 then [CHR 0x5C, CHR 0x22]
      else if n = 92 then [CHR 0x5C, CHR 0x5C]
      else if n = 10 then [CHR 0x5C, CHR ''n'']
      else if n = 13 then [CHR 0x5C, CHR ''r'']
      else if n = 9 then [CHR 0x5C, CHR ''t'']
      else if n = 12 then [CHR 0x5C, CHR ''f'']
      else if n = 8 then [CHR 0x5C, CHR ''b'']
      else if 32 \<le> n \<and> n \<le> 126 then [ch]
      else [CHR 0x5C, CHR ''u'', CHR ''0'', CHR ''0'', hex_digit (n div 16), hex_digit (n mod 16)])"

definition quote :: "string \<Rightarrow> string" where
  "quote s = CHR 0x22 # concat (map escape_char s) @ [CHR 0x22]"

text \<open>The entries of every object in the order of their keys.\<close>

lemma json_size_entry [termination_simp]:
  "kv \<in> set kvs \<Longrightarrow> size (snd kv) < Suc (size_list (size_prod (\<lambda>x. 0) size) kvs)"
  by (induction kvs) auto

fun sort_keys :: "json \<Rightarrow> json" where
  "sort_keys (JArr xs) = JArr (map sort_keys xs)"
| "sort_keys (JObj kvs) = JObj (sort_key fst (map (\<lambda>kv. (fst kv, sort_keys (snd kv))) kvs))"
| "sort_keys j = j"

text \<open>A Python dictionary has each key once, at every level.\<close>

fun distinct_keys :: "json \<Rightarrow> bool" where
  "distinct_keys (JArr xs) = list_all distinct_keys xs"
| "distinct_keys (JObj kvs) = (distinct (map fst kvs) \<and> list_all (\<lambda>kv. distinct_keys (snd kv)) kvs)"
| "distinct_keys j = True"

fun join :: "string \<Rightarrow> string list \<Rightarrow> string" where
  "join sep [] = []"
| "join sep [x] = x"
| "join sep (x # y # xs) = x @ sep @ join sep (y # xs)"

fun write_json :: "json \<Rightarrow> string" where
  "write_json JNull = ''null''"
| "write_json (JBool b) = (if b then ''true'' else ''false'')"
| "write_json (JInt n) = str_int n"
| "write_json (JStr s) = quote s"
| "write_json (JArr xs) = ''['' @ join '','' (map write_json xs) @ '']''"
| "write_json (JObj kvs) =
     ''{'' @ join '','' (map (\<lambda>kv. quote (fst kv) @ '':'' @ write_json (snd kv)) kvs) @ ''}''"

definition dumps :: "json \<Rightarrow> string" where
  "dumps j = write_json (sort_keys j)"

section \<open>Key order\<close>

lemma sort_key_unique:
  fixes k :: "'a \<Rightarrow> 'b :: linorder"
  assumes "distinct (map k xs)" and "mset xs = mset ys"
  shows "sort_key k xs = sort_key k ys"
proof -
  have "mset (sort_key k xs) = mset (sort_key k ys)" using assms(2) by simp
  then have "set (sort_key k xs) = set (sort_key k ys)" by (metis set_mset_mset)
  moreover have "distinct (map k (sort_key k xs))" "distinct (map k (sort_key k ys))"
    using assms by (auto simp: mset_eq_imp_distinct_iff [of "map k (sort_key k xs)" "map k xs"]
        mset_eq_imp_distinct_iff [of "map k (sort_key k ys)" "map k xs"])
  moreover from this have "inj_on k (set (sort_key k xs) \<union> set (sort_key k ys))"
    using \<open>set (sort_key k xs) = set (sort_key k ys)\<close> by (simp add: distinct_map)
  ultimately show ?thesis
    by (intro map_sorted_distinct_set_unique [of k]) auto
qed

text \<open>The text of an object does not depend on the order of its entries.\<close>

lemma dumps_entry_order:
  assumes "distinct (map fst kvs)" and "mset kvs = mset kvs'"
  shows "sort_keys (JObj kvs) = sort_keys (JObj kvs')"
proof -
  let ?f = "\<lambda>kv. (fst kv, sort_keys (snd kv))"
  have "distinct (map fst (map ?f kvs))" using assms(1) by (simp add: comp_def)
  moreover have "mset (map ?f kvs) = mset (map ?f kvs')" using assms(2) by (simp only: mset_map)
  ultimately show ?thesis by (simp add: sort_key_unique)
qed

lemma insort_key_fst_map:
  "insort_key fst (fst x, f (snd x)) (map (\<lambda>kv. (fst kv, f (snd kv))) xs) = map (\<lambda>kv. (fst kv, f (snd kv))) (insort_key fst x xs)"
  by (induction xs) auto

lemma sort_key_fst_map:
  "sort_key fst (map (\<lambda>kv. (fst kv, f (snd kv))) xs) = map (\<lambda>kv. (fst kv, f (snd kv))) (sort_key fst xs)"
  by (induction xs) (simp_all flip: insort_key_fst_map)

lemma sort_keys_idem: "sort_keys (sort_keys j) = sort_keys j"
proof (induction j rule: sort_keys.induct)
  case (2 kvs)
  have "map (\<lambda>kv. (fst kv, sort_keys (snd kv))) (sort_key fst (map (\<lambda>kv. (fst kv, sort_keys (snd kv))) kvs)) =
      sort_key fst (map (\<lambda>kv. (fst kv, sort_keys (snd kv))) kvs)"
    by (rule map_idI) (use 2 in auto)
  then show ?case by (simp add: sort_key_id_if_sorted)
qed auto

section \<open>Reading back\<close>

text \<open>
  A reader for the compact texts above. It shows that the text determines the value, so that
  two requests have the same canonical text only when they have the same content.
\<close>

definition hex_value :: "char \<Rightarrow> nat" where
  "hex_value ch = (let n = of_char ch :: nat in if n < 58 then n - 48 else n - 87)"

definition unescape :: "char \<Rightarrow> char option" where
  "unescape ch =
     (let n = of_char ch :: nat in
      if n = 34 then Some (char_of (34 :: nat)) else if n = 92 then Some (char_of (92 :: nat))
      else if n = 110 then Some (char_of (10 :: nat)) else if n = 114 then Some (char_of (13 :: nat))
      else if n = 116 then Some (char_of (9 :: nat)) else if n = 102 then Some (char_of (12 :: nat))
      else if n = 98 then Some (char_of (8 :: nat)) else None)"

definition cons_fst :: "char \<Rightarrow> (string \<times> string) option \<Rightarrow> (string \<times> string) option" where
  "cons_fst ch r = map_option (map_prod ((#) ch) id) r"

fun read_str :: "string \<Rightarrow> (string \<times> string) option" where
  "read_str [] = None"
| "read_str (ch # s) =
     (if ch = CHR 0x22 then Some ([], s)
      else if ch \<noteq> CHR 0x5C then cons_fst ch (read_str s)
      else case s of
             [] \<Rightarrow> None
           | d # s' \<Rightarrow>
               (if d = CHR ''u''
                then (case s' of
                        a # b # h # l # s'' \<Rightarrow> cons_fst (char_of (16 * hex_value h + hex_value l)) (read_str s'')
                      | _ \<Rightarrow> None)
                else (case unescape d of None \<Rightarrow> None | Some x \<Rightarrow> cons_fst x (read_str s'))))"

definition is_digit :: "char \<Rightarrow> bool" where
  "is_digit ch \<longleftrightarrow> 48 \<le> (of_char ch :: nat) \<and> (of_char ch :: nat) \<le> 57"

definition nat_of_digits :: "string \<Rightarrow> nat" where
  "nat_of_digits ds = foldl (\<lambda>a d. 10 * a + (of_char d - 48)) 0 ds"

lemma hex_value_digit: "d < 16 \<Longrightarrow> hex_value (hex_digit d) = d"
  by (auto simp: hex_value_def hex_digit_def Let_def of_char_of)

lemma of_char_eq_iff: "(of_char a :: nat) = of_char b \<longleftrightarrow> a = b"
  by simp

lemma read_str_escape: "read_str (escape_char ch @ s) = cons_fst ch (read_str s)"
proof -
  let ?n = "of_char ch :: nat"
  have bound: "?n < 256" by (metis nat_of_char_less_256)
  show ?thesis
  proof (cases "?n \<in> {34, 92, 10, 13, 9, 12, 8}")
    case True
    then have "ch = char_of ?n" by simp
    with True show ?thesis
      by (elim insertE emptyE) (simp_all add: escape_char_def unescape_def Let_def)
  next
    case special: False
    show ?thesis
    proof (cases "32 \<le> ?n \<and> ?n \<le> 126")
      case True
      from special have "ch \<noteq> CHR 0x22" "ch \<noteq> CHR 0x5C" by auto
      with True special show ?thesis by (simp add: escape_char_def Let_def)
    next
      case False
      have "char_of (16 * (?n div 16) + ?n mod 16) = ch" by simp
      moreover have "?n div 16 < 16" "?n mod 16 < 16" using bound by (simp_all add: less_mult_imp_div_less)
      moreover have "escape_char ch =
          [CHR 0x5C, CHR ''u'', CHR ''0'', CHR ''0'', hex_digit (?n div 16), hex_digit (?n mod 16)]"
        unfolding escape_char_def Let_def using False special by (auto split: if_split)
      ultimately show ?thesis by (simp add: hex_value_digit)
    qed
  qed
qed

lemma read_str_quote: "read_str (concat (map escape_char s) @ CHR 0x22 # rest) = Some (s, rest)"
  by (induction s) (simp_all add: read_str_escape cons_fst_def)

lemma digit_char_digit: "d < 10 \<Longrightarrow> is_digit (digit_char d)" "d < 10 \<Longrightarrow> of_char (digit_char d) - 48 = d"
  by (simp_all add: digit_char_def is_digit_def of_char_of)

lemma str_nat_digits: "list_all is_digit (str_nat n) \<and> str_nat n \<noteq> []"
proof (induction n rule: str_nat.induct)
  case (1 n)
  then show ?case by (subst (1 2) str_nat.simps) (simp add: digit_char_digit)
qed

lemma nat_of_str_nat: "nat_of_digits (str_nat n) = n"
proof (induction n rule: str_nat.induct)
  case (1 n)
  show ?case
  proof (cases "n < 10")
    case True
    then show ?thesis by (subst str_nat.simps) (simp add: nat_of_digits_def digit_char_digit)
  next
    case False
    then have "nat_of_digits (str_nat n) = 10 * nat_of_digits (str_nat (n div 10)) + n mod 10"
      by (subst str_nat.simps) (simp add: nat_of_digits_def digit_char_digit)
    with 1 False show ?thesis by simp
  qed
qed

definition read_number :: "string \<Rightarrow> (json \<times> string) option" where
  "read_number s =
     (let (neg, t) = (case s of ch # t \<Rightarrow> if ch = CHR ''-'' then (True, t) else (False, s) | [] \<Rightarrow> (False, s));
          ds = takeWhile is_digit t
      in if ds = [] then None
         else Some (JInt (if neg then - int (nat_of_digits ds) else int (nat_of_digits ds)), dropWhile is_digit t))"

definition read_word :: "string \<Rightarrow> json \<Rightarrow> string \<Rightarrow> (json \<times> string) option" where
  "read_word w j s = (if take (length w) s = w then Some (j, drop (length w) s) else None)"

text \<open>The first argument bounds the depth of the calls; the size of the value is enough.\<close>

fun read_value :: "nat \<Rightarrow> string \<Rightarrow> (json \<times> string) option"
  and read_items :: "nat \<Rightarrow> string \<Rightarrow> (json list \<times> string) option"
  and read_members :: "nat \<Rightarrow> string \<Rightarrow> (json_object \<times> string) option" where
  "read_value 0 s = None"
| "read_value (Suc n) s =
     (case s of
        [] \<Rightarrow> None
      | ch # t \<Rightarrow>
          (if ch = CHR 0x22 then map_option (map_prod JStr id) (read_str t)
           else if ch = CHR ''['' then
             (if take 1 t = '']'' then Some (JArr [], tl t) else map_option (map_prod JArr id) (read_items n t))
           else if ch = CHR ''{'' then
             (if take 1 t = ''}'' then Some (JObj [], tl t) else map_option (map_prod JObj id) (read_members n t))
           else if ch = CHR ''n'' then read_word ''null'' JNull s
           else if ch = CHR ''t'' then read_word ''true'' (JBool True) s
           else if ch = CHR ''f'' then read_word ''false'' (JBool False) s
           else read_number s))"
| "read_items 0 s = None"
| "read_items (Suc n) s =
     (case read_value n s of
        Some (v, ch # t) \<Rightarrow>
          (if ch = CHR '','' then map_option (map_prod ((#) v) id) (read_items n t)
           else if ch = CHR '']'' then Some ([v], t) else None)
      | _ \<Rightarrow> None)"
| "read_members 0 s = None"
| "read_members (Suc n) s =
     (case s of
        [] \<Rightarrow> None
      | q # s1 \<Rightarrow>
          (case read_str s1 of
             Some (k, colon # s2) \<Rightarrow>
               (case read_value n s2 of
                  Some (v, ch # t) \<Rightarrow>
                    (if ch = CHR '','' then map_option (map_prod ((#) (k, v)) id) (read_members n t)
                     else if ch = CHR ''}'' then Some ([(k, v)], t) else None)
                | _ \<Rightarrow> None)
           | _ \<Rightarrow> None))"

definition ends_number :: "string \<Rightarrow> bool" where
  "ends_number rest \<longleftrightarrow> rest = [] \<or> \<not> is_digit (hd rest)"

lemma read_number_str_int:
  assumes "ends_number rest"
  shows "read_number (str_int n @ rest) = Some (JInt n, rest)"
proof -
  have all: "list_all is_digit (str_nat k)" "str_nat k \<noteq> []" for k using str_nat_digits by blast+
  have take: "takeWhile is_digit (str_nat k @ rest) = str_nat k" "dropWhile is_digit (str_nat k @ rest) = rest" for k
    using all [of k] assms by (cases rest; simp add: list_all_iff ends_number_def takeWhile_append2 dropWhile_append2)+
  have head: "\<exists>d ds. str_nat k = d # ds \<and> d \<noteq> CHR ''-''" for k
    using all [of k] by (cases "str_nat k") (auto simp: is_digit_def)
  show ?thesis
  proof (cases "n < 0")
    case True
    then show ?thesis using take all by (simp add: str_int_def read_number_def nat_of_str_nat)
  next
    case False
    with head [of "nat n"] obtain d ds where d: "str_nat (nat n) = d # ds" "d \<noteq> CHR ''-''" by blast
    with False take [of "nat n"] all [of "nat n"] nat_of_str_nat [of "nat n"] show ?thesis
      by (simp add: str_int_def read_number_def)
  qed
qed

lemma str_int_head: "\<exists>d ds. str_int n = d # ds \<and> (is_digit d \<or> d = CHR ''-'')"
  using str_nat_digits [of "nat n"] by (cases "str_nat (nat n)") (auto simp: str_int_def)

lemma read_value_int:
  assumes "ends_number rest"
  shows "read_value (Suc k) (str_int n @ rest) = Some (JInt n, rest)"
proof -
  obtain d ds where d: "str_int n = d # ds" "is_digit d \<or> d = CHR ''-''" using str_int_head by blast
  then have "d \<notin> {CHR 0x22, CHR ''['', CHR ''{'', CHR ''n'', CHR ''t'', CHR ''f''}"
    by (auto simp: is_digit_def)
  with d(1) read_number_str_int [OF assms, of n] show ?thesis by simp
qed

text \<open>What the induction over values provides for the parts of an array or object.\<close>

definition reads_back :: "json \<Rightarrow> bool" where
  "reads_back j \<longleftrightarrow> (\<forall>n rest. size j < n \<longrightarrow> ends_number rest \<longrightarrow> read_value n (write_json j @ rest) = Some (j, rest))"

lemma reads_backD: "reads_back j \<Longrightarrow> size j < n \<Longrightarrow> ends_number rest \<Longrightarrow> read_value n (write_json j @ rest) = Some (j, rest)"
  by (simp add: reads_back_def)

lemma read_items_join:
  assumes "\<And>x. x \<in> set xs \<Longrightarrow> reads_back x" and "xs \<noteq> []" and "size_list size xs < n"
  shows "read_items n (join '','' (map write_json xs) @ CHR '']'' # rest) = Some (xs, rest)"
  using assms
proof (induction xs arbitrary: n)
  case (Cons x xs)
  then obtain k where n: "n = Suc k" by (cases n) auto
  have x: "read_value k (write_json x @ t) = Some (x, t)" if "ends_number t" for t
    using Cons.prems that n by (intro reads_backD) auto
  show ?case
  proof (cases xs)
    case Nil
    then show ?thesis using x [of "CHR '']'' # rest"] by (simp add: n ends_number_def is_digit_def)
  next
    case (Cons y ys)
    have "read_items k (join '','' (map write_json xs) @ CHR '']'' # rest) = Some (xs, rest)"
      using Cons Cons.prems Cons.IH Cons.prems n by (intro Cons.IH) auto
    then show ?thesis
      using Cons x [of "CHR '','' # join '','' (map write_json xs) @ CHR '']'' # rest"]
      by (simp add: n ends_number_def is_digit_def)
  qed
qed simp

definition write_member :: "string \<times> json \<Rightarrow> string" where
  "write_member kv = quote (fst kv) @ '':'' @ write_json (snd kv)"

lemma read_members_join:
  assumes "\<And>kv. kv \<in> set kvs \<Longrightarrow> reads_back (snd kv)" and "kvs \<noteq> []" and "size_list (size_prod (\<lambda>x. 0) size) kvs < n"
  shows "read_members n (join '','' (map write_member kvs) @ CHR ''}'' # rest) = Some (kvs, rest)"
  using assms
proof (induction kvs arbitrary: n)
  case (Cons kv kvs)
  then obtain k where n: "n = Suc k" by (cases n) auto
  have v: "read_value k (write_json (snd kv) @ t) = Some (snd kv, t)" if "ends_number t" for t
    using Cons.prems that n by (intro reads_backD) (auto simp: size_prod_simp)
  have key: "read_str (concat (map escape_char (fst kv)) @ CHR 0x22 # t) = Some (fst kv, t)" for t
    by (rule read_str_quote)
  have member: "write_member kv = CHR 0x22 # concat (map escape_char (fst kv)) @ CHR 0x22 # CHR '':'' # write_json (snd kv)"
    by (simp add: write_member_def quote_def)
  show ?case
  proof (cases kvs)
    case Nil
    then show ?thesis using v [of "CHR ''}'' # rest"] key by (simp add: n ends_number_def is_digit_def member)
  next
    case (Cons y ys)
    have "read_members k (join '','' (map write_member kvs) @ CHR ''}'' # rest) = Some (kvs, rest)"
      using Cons Cons.prems Cons.IH n by (intro Cons.IH) auto
    then show ?thesis
      using Cons v [of "CHR '','' # join '','' (map write_member kvs) @ CHR ''}'' # rest"] key
      by (simp add: n ends_number_def is_digit_def member)
  qed
qed simp

lemma write_json_head: "\<exists>ch t. write_json j = ch # t \<and> ch \<noteq> CHR '']''"
  using str_int_head by (cases j) (fastforce simp: quote_def is_digit_def)+

lemma join_head: "xs \<noteq> [] \<Longrightarrow> \<exists>rest. join sep xs = hd xs @ rest"
  by (cases xs; cases "tl xs") auto

lemma all_read_back: "reads_back j"
  unfolding reads_back_def
proof (induction j rule: write_json.induct)
  case (3 i)
  show ?case
  proof (intro allI impI)
    fix n rest assume "size (JInt i) < n" and "ends_number rest"
    then show "read_value n (write_json (JInt i) @ rest) = Some (JInt i, rest)"
      using read_value_int by (cases n) (auto simp del: read_value.simps)
  qed
next
  case (5 xs)
  show ?case
  proof (intro allI impI)
    fix n rest assume n: "size (JArr xs) < n" and "ends_number rest"
    then obtain k where k: "n = Suc k" "size_list size xs < k" by (cases n) auto
    show "read_value n (write_json (JArr xs) @ rest) = Some (JArr xs, rest)"
    proof (cases "xs = []")
      case False
      then obtain ch t where "join '','' (map write_json xs) = ch # t" "ch \<noteq> CHR '']''"
        using join_head [of "map write_json xs" "'',''"] write_json_head [of "hd xs"] by (auto simp: hd_map)
      moreover have "read_items k (join '','' (map write_json xs) @ CHR '']'' # rest) = Some (xs, rest)"
        using 5 False k by (intro read_items_join) (auto simp: reads_back_def)
      ultimately show ?thesis by (simp add: k(1))
    qed (simp add: k(1))
  qed
next
  case (6 kvs)
  show ?case
  proof (intro allI impI)
    fix n rest assume n: "size (JObj kvs) < n" and "ends_number rest"
    then obtain k where k: "n = Suc k" "size_list (size_prod (\<lambda>x. 0) size) kvs < k" by (cases n) auto
    have obj: "write_json (JObj kvs) = CHR ''{'' # join '','' (map write_member kvs) @ ''}''"
      by (simp add: write_member_def [abs_def])
    show "read_value n (write_json (JObj kvs) @ rest) = Some (JObj kvs, rest)"
    proof (cases "kvs = []")
      case False
      then obtain t where "join '','' (map write_member kvs) = CHR 0x22 # t"
        using join_head [of "map write_member kvs" "'',''"] by (auto simp: hd_map write_member_def quote_def)
      moreover have "read_members k (join '','' (map write_member kvs) @ CHR ''}'' # rest) = Some (kvs, rest)"
        using 6 False k by (intro read_members_join) (auto simp: reads_back_def)
      ultimately show ?thesis by (simp add: k(1) obj del: write_json.simps)
    qed (simp add: k(1))
  qed
qed (auto simp: read_value_int quote_def read_str_quote read_word_def gr0_conv_Suc less_Suc_eq_le dest!: gr_implies_not0 not0_implies_Suc split: if_splits)

text \<open>The text is long enough to serve as the bound.\<close>

lemma join_length: "xs \<noteq> [] \<Longrightarrow> length (join sep xs) = sum_list (map length xs) + length sep * (length xs - 1)"
  by (induction sep xs rule: join.induct) auto

lemma size_le_length: "size j \<le> length (write_json j)"
proof (induction j rule: write_json.induct)
  case (5 xs)
  have "size_list size xs = sum_list (map size xs) + length xs"
    by (induction xs) auto
  moreover have "sum_list (map size xs) \<le> sum_list (map length (map write_json xs))"
    using 5 by (simp add: comp_def sum_list_mono)
  ultimately show ?case
    by (cases "xs = []") (auto simp: join_length comp_def)
next
  case (6 kvs)
  let ?m = "\<lambda>kv. quote (fst kv) @ '':'' @ write_json (snd kv)"
  have "size_list (size_prod (\<lambda>x. 0) size) kvs = sum_list (map (\<lambda>kv. size (snd kv) + 2) kvs)"
    by (induction kvs) (auto simp: size_prod_simp)
  also have "\<dots> \<le> sum_list (map (length \<circ> ?m) kvs)"
  proof (rule sum_list_mono)
    fix kv assume "kv \<in> set kvs"
    with 6 have "size (snd kv) \<le> length (write_json (snd kv))" by simp
    then show "size (snd kv) + 2 \<le> (length \<circ> ?m) kv" by (simp add: quote_def)
  qed
  finally show ?case by (cases "kvs = []") (auto simp: join_length comp_def)
qed auto

definition loads_compact :: "string \<Rightarrow> json option" where
  "loads_compact s =
     (case read_value (Suc (length s)) s of Some (j, []) \<Rightarrow> Some j | _ \<Rightarrow> None)"

lemma loads_compact_write: "loads_compact (write_json j) = Some j"
proof -
  have "read_value (Suc (length (write_json j))) (write_json j @ []) = Some (j, [])"
    using all_read_back by (rule reads_backD) (auto simp: ends_number_def less_Suc_eq_le size_le_length)
  then show ?thesis by (simp add: loads_compact_def)
qed

lemma loads_compact_dumps: "loads_compact (dumps j) = Some (sort_keys j)"
  by (simp add: dumps_def loads_compact_write)

lemma dumps_eq_iff: "dumps j = dumps j' \<longleftrightarrow> sort_keys j = sort_keys j'"
  using loads_compact_dumps by (metis dumps_def option.inject)

end
