(* ===== verification/Outbox_Repository.thy ===== *)
theory Outbox_Repository
  imports Schema Json_Text
begin

text \<open>
  The transactional outbox: the dispatch message of \<^verbatim>\<open>src/app/schemas/outbox.py\<close>, the
  \<^verbatim>\<open>outbox_events\<close> operations of \<^verbatim>\<open>src/app/repositories/outbox.py\<close> and the \<^verbatim>\<open>job_logs\<close>
  operations of \<^verbatim>\<open>src/app/repositories/job_logs.py\<close>. Text forms of UUIDs and timestamps are
  made and read by pydantic, which is a parameter (\<open>codec\<close>), and so is its reader of JSON texts.
\<close>

section \<open>Dispatch messages\<close>

record codec =
  enc_uuid :: "uuid \<Rightarrow> string"
  dec_uuid :: "json \<Rightarrow> uuid option"
  enc_datetime :: "datetime \<Rightarrow> string"
  dec_datetime :: "json \<Rightarrow> datetime option"
  dec_json :: "string \<Rightarrow> json option"

text \<open>The documented round trip: a value pydantic serialises to JSON validates back to itself.\<close>

definition codec_ok :: "codec \<Rightarrow> bool" where
  "codec_ok c \<longleftrightarrow>
     (\<forall>u. dec_uuid c (JStr (enc_uuid c u)) = Some u) \<and>
     (\<forall>t. dec_datetime c (JStr (enc_datetime c t)) = Some t) \<and>
     (\<forall>j. dec_json c (write_json j) = Some j)"

record dispatch_message =
  dm_event_id :: uuid
  dm_job_id :: uuid
  dm_kind :: string
  dm_created_at :: datetime

definition model_dump :: "codec \<Rightarrow> dispatch_message \<Rightarrow> json_object" where
  "model_dump c m =
     [(''event_id'', JStr (enc_uuid c (dm_event_id m))),
      (''job_id'', JStr (enc_uuid c (dm_job_id m))),
      (''kind'', JStr (dm_kind m)),
      (''created_at'', JStr (enc_datetime c (dm_created_at m)))]"

text \<open>
  Validation of the model: no extra key (\<^verbatim>\<open>extra="forbid"\<close>), every field present and of its
  type, and \<^verbatim>\<open>kind\<close> the literal \<^verbatim>\<open>"dispatch"\<close>.
\<close>

definition validate_fields :: "codec \<Rightarrow> json \<Rightarrow> json \<Rightarrow> json \<Rightarrow> json \<Rightarrow> dispatch_message option" where
  "validate_fields c event_id i kind created_at =
     (case (dec_uuid c event_id, dec_uuid c i, kind, dec_datetime c created_at) of
        (Some ei, Some ji, JStr k, Some t) \<Rightarrow>
          (if k = ''dispatch''
           then Some \<lparr>dm_event_id = ei, dm_job_id = ji, dm_kind = k, dm_created_at = t\<rparr>
           else None)
      | _ \<Rightarrow> None)"

definition model_validate :: "codec \<Rightarrow> json_object \<Rightarrow> exn + dispatch_message" where
  "model_validate c obj =
     (if set (map fst obj) \<noteq> {''event_id'', ''job_id'', ''kind'', ''created_at''}
      then Inl (ValidationError obj)
      else case validate_fields c (the (map_of obj ''event_id'')) (the (map_of obj ''job_id''))
                  (the (map_of obj ''kind'')) (the (map_of obj ''created_at'')) of
             None \<Rightarrow> Inl (ValidationError obj)
           | Some m \<Rightarrow> Inr m)"

lemma model_validate_dump:
  assumes "codec_ok c" and "dm_kind m = ''dispatch''"
  shows "model_validate c (model_dump c m) = Inr m"
proof -
  have "set (map fst (model_dump c m)) = {''event_id'', ''job_id'', ''kind'', ''created_at''}"
    by (auto simp: model_dump_def)
  with assms show ?thesis
    by (simp add: model_validate_def validate_fields_def model_dump_def codec_ok_def)
qed

text \<open>
  The body of a message on the wire, \<^verbatim>\<open>model_dump_json\<close> and \<^verbatim>\<open>model_validate_json\<close>: a text that is no JSON
  object fails the validation like an object of another form.
\<close>

definition model_dump_json :: "codec \<Rightarrow> dispatch_message \<Rightarrow> string" where
  "model_dump_json c m = write_json (JObj (model_dump c m))"

definition model_validate_json :: "codec \<Rightarrow> string \<Rightarrow> exn + dispatch_message" where
  "model_validate_json c text =
     (case dec_json c text of
        Some (JObj obj) \<Rightarrow> model_validate c obj
      | _ \<Rightarrow> Inl (ValidationError []))"

lemma model_validate_dump_json:
  assumes "codec_ok c" and "dm_kind m = ''dispatch''"
  shows "model_validate_json c (model_dump_json c m) = Inr m"
proof -
  have "dec_json c (model_dump_json c m) = Some (JObj (model_dump c m))"
    using assms(1) unfolding codec_ok_def model_dump_json_def by blast
  with model_validate_dump [OF assms] show ?thesis by (simp add: model_validate_json_def)
qed

lemma validate_fields_kind: "validate_fields c a b k t = Some m \<Longrightarrow> dm_kind m = ''dispatch''"
  by (auto simp: validate_fields_def split: if_split_asm option.split_asm json.split_asm)

lemma model_validate_kind:
  assumes "model_validate c obj = Inr m"
  shows "dm_kind m = ''dispatch''"
proof -
  have "\<exists>a b k t. validate_fields c a b k t = Some m"
    using assms unfolding model_validate_def by (metis (no_types, lifting) Inl_Inr_False option.case_eq_if option.collapse sum.inject(2))
  then show ?thesis using validate_fields_kind by blast
qed

section \<open>Outbox events\<close>

definition add_event :: "outbox_event \<Rightarrow> database \<Rightarrow> database" where
  "add_event ev db = db\<lparr>db_outbox_events := db_outbox_events db @ [ev]\<rparr>"

text \<open>
  The arguments \<open>n\<close> and \<open>k\<close> select the draw of \<^verbatim>\<open>uuid4\<close> and the reading of \<^verbatim>\<open>utc_now\<close> the
  call consumes.
\<close>

definition dispatch_event ::
  "codec \<Rightarrow> env \<Rightarrow> nat \<Rightarrow> nat \<Rightarrow> uuid \<Rightarrow> datetime \<Rightarrow> outbox_event" where
  "dispatch_event c e n k i available_at =
     (let created_at = utc_now e k; event_id = uuid4 e n in
      \<lparr>ev_id = event_id, ev_aggregate_id = i, ev_event_type = JobEventType_value DISPATCH,
       ev_payload = model_dump c \<lparr>dm_event_id = event_id, dm_job_id = i, dm_kind = ''dispatch'',
                                  dm_created_at = created_at\<rparr>,
       ev_available_at = available_at, ev_publish_attempts = 0, ev_published_at = None,
       ev_last_error = None, ev_created_at = created_at, ev_updated_at = created_at\<rparr>)"

definition create_dispatch_event ::
  "codec \<Rightarrow> env \<Rightarrow> nat \<Rightarrow> nat \<Rightarrow> uuid \<Rightarrow> datetime \<Rightarrow> database \<Rightarrow> outbox_event \<times> database" where
  "create_dispatch_event c e n k i available_at db =
     (let event = dispatch_event c e n k i available_at in (event, add_event event db))"

definition awaits_dispatch :: "uuid \<Rightarrow> outbox_event \<Rightarrow> bool" where
  "awaits_dispatch i ev \<longleftrightarrow>
     ev_aggregate_id ev = i \<and> ev_event_type ev = JobEventType_value DISPATCH \<and> ev_published_at ev = None"

definition create_dispatch_event_if_absent ::
  "codec \<Rightarrow> env \<Rightarrow> nat \<Rightarrow> nat \<Rightarrow> uuid \<Rightarrow> datetime \<Rightarrow> database \<Rightarrow> outbox_event option \<times> database" where
  "create_dispatch_event_if_absent c e n k i available_at db =
     (case scalar_where (awaits_dispatch i) (db_outbox_events db) of
        Some _ \<Rightarrow> (None, db)
      | None \<Rightarrow>
          (let (event, db') = create_dispatch_event c e n k i available_at db in (Some event, db')))"

text \<open>
  Rows due at \<open>now\<close>, oldest first. Two rows with equal times may come in either order; the
  model keeps insertion order. \<open>locked\<close> are the rows \<^verbatim>\<open>SKIP LOCKED\<close> passes over.
\<close>

definition claim_due_batch :: "(uuid \<Rightarrow> bool) \<Rightarrow> datetime \<Rightarrow> int \<Rightarrow> database \<Rightarrow> outbox_event list" where
  "claim_due_batch locked now limit db =
     take (nat limit)
       (sort_key (\<lambda>ev. (ev_available_at ev, ev_created_at ev))
         (select_where (\<lambda>ev. ev_published_at ev = None \<and> ev_available_at ev \<le> now \<and> \<not> locked (ev_id ev))
           (db_outbox_events db)))"

definition get_by_id_for_update_unpublished ::
  "(uuid \<Rightarrow> bool) \<Rightarrow> uuid \<Rightarrow> database \<Rightarrow> outbox_event option" where
  "get_by_id_for_update_unpublished locked i db =
     scalar_where (\<lambda>ev. ev_id ev = i \<and> ev_published_at ev = None \<and> \<not> locked (ev_id ev)) (db_outbox_events db)"

definition mark_published :: "uuid \<Rightarrow> datetime \<Rightarrow> database \<Rightarrow> database" where
  "mark_published i now db =
     db\<lparr>db_outbox_events :=
       update_where (\<lambda>ev. ev_id ev = i)
         (\<lambda>ev. ev\<lparr>ev_published_at := Some now, ev_last_error := None, ev_updated_at := now\<rparr>)
         (db_outbox_events db)\<rparr>"

definition record_publish_failure :: "env \<Rightarrow> nat \<Rightarrow> uuid \<Rightarrow> string \<Rightarrow> datetime \<Rightarrow> database \<Rightarrow> database" where
  "record_publish_failure e k i error next_available_at db =
     db\<lparr>db_outbox_events :=
       update_where (\<lambda>ev. ev_id ev = i \<and> ev_published_at ev = None)
         (\<lambda>ev. ev\<lparr>ev_publish_attempts := ev_publish_attempts ev + 1, ev_last_error := Some error,
                  ev_available_at := next_available_at, ev_updated_at := utc_now e k\<rparr>)
         (db_outbox_events db)\<rparr>"

section \<open>Job logs\<close>

definition add_log :: "job_log \<Rightarrow> database \<Rightarrow> database" where
  "add_log l db = db\<lparr>db_job_logs := db_job_logs db @ [l]\<rparr>"

definition create_job_created_log :: "env \<Rightarrow> nat \<Rightarrow> nat \<Rightarrow> uuid \<Rightarrow> database \<Rightarrow> database" where
  "create_job_created_log e n k i =
     add_log \<lparr>log_id = identity e n, log_job_id = i, log_attempt_number = None,
              log_level = ''info'', log_message = ''Job created'', log_created_at = utc_now e k\<rparr>"

definition create_system_log ::
  "env \<Rightarrow> nat \<Rightarrow> nat \<Rightarrow> uuid \<Rightarrow> string \<Rightarrow> string \<Rightarrow> database \<Rightarrow> database" where
  "create_system_log e n k i level message =
     add_log \<lparr>log_id = identity e n, log_job_id = i, log_attempt_number = None,
              log_level = level, log_message = message, log_created_at = utc_now e k\<rparr>"

definition JOB_LOG_LIST_LIMIT :: nat where
  "JOB_LOG_LIST_LIMIT = 500"

definition list_for_job :: "uuid \<Rightarrow> database \<Rightarrow> job_log list" where
  "list_for_job i db =
     take JOB_LOG_LIST_LIMIT
       (sort_key (\<lambda>l. (log_created_at l, log_id l))
         (select_where (\<lambda>l. log_job_id l = i) (db_job_logs db)))"

definition to_job_log_entry_dto :: "job_log \<Rightarrow> job_log_entry_dto" where
  "to_job_log_entry_dto log =
     \<lparr>jl_id = log_id log, jl_job_id = log_job_id log, jl_attempt_number = log_attempt_number log,
      jl_level = job_log.log_level log, jl_message = log_message log, jl_created_at = log_created_at log\<rparr>"

definition list_entries_for_job :: "uuid \<Rightarrow> database \<Rightarrow> job_log_entry_dto list" where
  "list_entries_for_job i db = map to_job_log_entry_dto (list_for_job i db)"

section \<open>Lemmas\<close>

named_theorems db_frame "what the outbox and log operations leave unchanged"

lemma add_event_frame [simp, db_frame]:
  "db_users (add_event ev db) = db_users db" "db_jobs (add_event ev db) = db_jobs db"
  "db_job_logs (add_event ev db) = db_job_logs db"
  "db_outbox_events (add_event ev db) = db_outbox_events db @ [ev]"
  by (simp_all add: add_event_def)

lemma create_job_created_log_frame [simp, db_frame]:
  "db_users (create_job_created_log e n k i db) = db_users db"
  "db_jobs (create_job_created_log e n k i db) = db_jobs db"
  "db_outbox_events (create_job_created_log e n k i db) = db_outbox_events db"
  by (simp_all add: create_job_created_log_def add_log_def)

lemma create_system_log_frame [simp, db_frame]:
  "db_users (create_system_log e n k i lv m db) = db_users db"
  "db_jobs (create_system_log e n k i lv m db) = db_jobs db"
  "db_outbox_events (create_system_log e n k i lv m db) = db_outbox_events db"
  by (simp_all add: create_system_log_def add_log_def)

lemma mark_published_frame [simp, db_frame]:
  "db_users (mark_published i now db) = db_users db" "db_jobs (mark_published i now db) = db_jobs db"
  "db_job_logs (mark_published i now db) = db_job_logs db"
  by (simp_all add: mark_published_def)

lemma record_publish_failure_frame [simp, db_frame]:
  "db_users (record_publish_failure e k i er t db) = db_users db"
  "db_jobs (record_publish_failure e k i er t db) = db_jobs db"
  "db_job_logs (record_publish_failure e k i er t db) = db_job_logs db"
  by (simp_all add: record_publish_failure_def)

lemma create_dispatch_event_if_absent_frame [simp, db_frame]:
  "db_users (snd (create_dispatch_event_if_absent c e n k i t db)) = db_users db"
  "db_jobs (snd (create_dispatch_event_if_absent c e n k i t db)) = db_jobs db"
  "db_job_logs (snd (create_dispatch_event_if_absent c e n k i t db)) = db_job_logs db"
  by (simp_all add: create_dispatch_event_if_absent_def create_dispatch_event_def Let_def split: option.splits)

lemma dispatch_event_awaits: "awaits_dispatch i (dispatch_event c e n k i t)"
  by (simp add: awaits_dispatch_def dispatch_event_def Let_def)

lemma dispatch_event_sel [simp]:
  "ev_id (dispatch_event c e n k i t) = uuid4 e n"
  "ev_aggregate_id (dispatch_event c e n k i t) = i"
  "ev_published_at (dispatch_event c e n k i t) = None"
  "ev_publish_attempts (dispatch_event c e n k i t) = 0"
  by (simp_all add: dispatch_event_def Let_def)

text \<open>After \<open>create_dispatch_event_if_absent\<close> the job has an unpublished dispatch event.\<close>

lemma create_if_absent_awaits:
  "\<exists>ev \<in> set (db_outbox_events (snd (create_dispatch_event_if_absent c e n k i t db))). awaits_dispatch i ev"
proof (cases "scalar_where (awaits_dispatch i) (db_outbox_events db)")
  case None
  then show ?thesis
    by (simp add: create_dispatch_event_if_absent_def create_dispatch_event_def Let_def dispatch_event_awaits)
next
  case (Some ev)
  then show ?thesis
    by (auto simp: create_dispatch_event_if_absent_def dest: scalar_where_SomeD)
qed

lemma create_if_absent_events:
  "db_outbox_events (snd (create_dispatch_event_if_absent c e n k i t db)) = db_outbox_events db \<or>
   (\<not> (\<exists>ev \<in> set (db_outbox_events db). awaits_dispatch i ev) \<and>
    db_outbox_events (snd (create_dispatch_event_if_absent c e n k i t db)) =
      db_outbox_events db @ [dispatch_event c e n k i t])"
  by (auto simp: create_dispatch_event_if_absent_def create_dispatch_event_def Let_def scalar_where_None_iff
      split: option.splits)

text \<open>The entries of a job: its own, oldest first, all of them as long as there are not more than the limit.\<close>

lemma list_entries_for_job_spec:
  "list_all (\<lambda>l. jl_job_id l = i) (list_entries_for_job i db)"
  "sorted (map (\<lambda>l. (jl_created_at l, jl_id l)) (list_entries_for_job i db))"
  "length (list_entries_for_job i db) = min 500 (rowcount (\<lambda>l. log_job_id l = i) (db_job_logs db))"
  "rowcount (\<lambda>l. log_job_id l = i) (db_job_logs db) \<le> 500 \<Longrightarrow>
     set (list_entries_for_job i db) = to_job_log_entry_dto ` {l \<in> set (db_job_logs db). log_job_id l = i}"
proof -
  let ?ls = "sort_key (\<lambda>l. (log_created_at l, log_id l)) (select_where (\<lambda>l. log_job_id l = i) (db_job_logs db))"
  have eq: "list_entries_for_job i db = map to_job_log_entry_dto (take 500 ?ls)"
    by (simp add: list_entries_for_job_def list_for_job_def JOB_LOG_LIST_LIMIT_def)
  have sel: "jl_job_id (to_job_log_entry_dto l) = log_job_id l" "(jl_created_at (to_job_log_entry_dto l), jl_id (to_job_log_entry_dto l)) =
      (log_created_at l, log_id l)" for l by (simp_all add: to_job_log_entry_dto_def)
  show "list_all (\<lambda>l. jl_job_id l = i) (list_entries_for_job i db)"
    by (auto simp: eq list_all_iff sel select_where_def dest: in_set_takeD)
  have "sorted (map (\<lambda>l. (log_created_at l, log_id l)) (take 500 ?ls))" by (simp add: take_map [symmetric] sorted_wrt_take)
  then show "sorted (map (\<lambda>l. (jl_created_at l, jl_id l)) (list_entries_for_job i db))" unfolding eq map_map o_def sel .
  show "length (list_entries_for_job i db) = min 500 (rowcount (\<lambda>l. log_job_id l = i) (db_job_logs db))"
    by (simp add: eq select_where_def rowcount_def)
  show "set (list_entries_for_job i db) = to_job_log_entry_dto ` {l \<in> set (db_job_logs db). log_job_id l = i}"
    if "rowcount (\<lambda>l. log_job_id l = i) (db_job_logs db) \<le> 500"
    using that by (simp add: eq select_where_def rowcount_def)
qed

lemma create_if_absent_keeps:
  "set (db_outbox_events db) \<subseteq> set (db_outbox_events (snd (create_dispatch_event_if_absent c e n k i t db)))"
  using create_if_absent_events [of c e n k i t db] by auto

lemma model_validate_dispatch_event:
  "codec_ok c \<Longrightarrow> model_validate c (ev_payload (dispatch_event c e n k i t)) =
    Inr \<lparr>dm_event_id = uuid4 e n, dm_job_id = i, dm_kind = ''dispatch'', dm_created_at = utc_now e k\<rparr>"
  by (simp add: dispatch_event_def Let_def model_validate_dump)

end
