(* ===== verification/Post_Commit.thy ===== *)
theory Post_Commit
  imports Handlers Outbox_Repository
begin

text \<open>
  \<^verbatim>\<open>src/app/workers/post_commit.py\<close>: the notification sent after a commit, and the composite
  notifier that isolates its members from each other's failures. Also the record of what is
  injected into the workers and services: the settings and the behaviour of third-party code
  they rely on (\<open>rt_exn_text\<close> is the text of exceptions that other libraries raise).
\<close>

record runtime =
  rt_settings :: settings
  rt_codec :: codec
  rt_driver :: driver
  rt_float_str :: "string \<Rightarrow> string + rat"
  rt_registry :: registry
  rt_exn_text :: "exn \<Rightarrow> string"

record notification =
  nt_job_id :: uuid
  nt_owner_id :: uuid
  nt_status :: JobStatus
  nt_attempt_count :: int
  nt_committed_at :: datetime
  nt_cancel_requested_at :: "datetime option"

text \<open>
  A notifier acts on an external state \<open>'s\<close> (Redis) and may raise, possibly after having
  changed it.
\<close>

type_synonym 's notifier = "notification \<Rightarrow> 's \<Rightarrow> exn option \<times> 's"

definition NoOpWorkerPostCommitNotifier :: "'s notifier" where
  "NoOpWorkerPostCommitNotifier n s = (None, s)"

fun composite_notify :: "'s notifier list \<Rightarrow> 's notifier" where
  "composite_notify [] n s = (None, s)"
| "composite_notify (f # fs) n s = (case f n s of (_, s') \<Rightarrow> composite_notify fs n s')"

definition CacheInvalidatingWorkerPostCommitNotifier :: "(uuid \<Rightarrow> 's \<Rightarrow> exn option \<times> 's) \<Rightarrow> 's notifier" where
  "CacheInvalidatingWorkerPostCommitNotifier invalidate_owner n s = invalidate_owner (nt_owner_id n) s"

text \<open>The status event (\<^verbatim>\<open>src/app/schemas/job_events.py\<close>) the publishing notifier sends.\<close>

record job_status_event =
  se_event_id :: uuid
  se_job_id :: uuid
  se_status :: JobStatus
  se_attempt_count :: int
  se_occurred_at :: datetime
  se_cancel_requested_at :: "datetime option"

definition RedisPublishingWorkerPostCommitNotifier ::
  "uuid \<Rightarrow> (job_status_event \<Rightarrow> 's \<Rightarrow> exn option \<times> 's) \<Rightarrow> 's notifier" where
  "RedisPublishingWorkerPostCommitNotifier fresh publish n s =
     publish \<lparr>se_event_id = fresh, se_job_id = nt_job_id n, se_status = nt_status n,
              se_attempt_count = nt_attempt_count n, se_occurred_at = nt_committed_at n,
              se_cancel_requested_at = nt_cancel_requested_at n\<rparr> s"

text \<open>The caller's \<^verbatim>\<open>try: await notify(...) except Exception: log\<close>.\<close>

definition notify_safely :: "'s notifier \<Rightarrow> notification \<Rightarrow> 's \<Rightarrow> 's" where
  "notify_safely f n s = snd (f n s)"

text \<open>
  The composite notifier never raises, and every member runs on the state its
  predecessors left, whether or not one of them raised: a failing cache invalidation does
  not suppress the status event, and the other way round.
\<close>

lemma composite_notifier_isolates:
  "composite_notify fs n s = (None, fold (\<lambda>f s. snd (f n s)) fs s)"
  by (induction fs arbitrary: s) (simp_all add: case_prod_beta)

end
