(* ===== verification/Job_Repository.thy ===== *)
theory Job_Repository
  imports Schema
begin

text \<open>
  \<^verbatim>\<open>src/app/repositories/jobs.py\<close>: every query and conditional update of the \<^verbatim>\<open>jobs\<close> table.
  Each conditional update is one UPDATE statement whose WHERE clause carries the guard; it
  returns whether exactly one row changed. The lemmas give its effect under the primary
  key, and show that the keyset queries cut the ordered table into consecutive pages.
\<close>

section \<open>Cursors\<close>

datatype job_list_cursor = JobListCursor (cur_created_at: datetime) (cur_job_id: uuid)

text \<open>Cursors are ordered by creation time, then by identifier, as the list queries order rows.\<close>

instantiation job_list_cursor :: linorder
begin

definition less_eq_job_list_cursor :: "job_list_cursor \<Rightarrow> job_list_cursor \<Rightarrow> bool" where
  "a \<le> b \<longleftrightarrow> (cur_created_at a, cur_job_id a) \<le> (cur_created_at b, cur_job_id b)"

definition less_job_list_cursor :: "job_list_cursor \<Rightarrow> job_list_cursor \<Rightarrow> bool" where
  "a < b \<longleftrightarrow> (cur_created_at a, cur_job_id a) < (cur_created_at b, cur_job_id b)"

instance
proof
  fix a b c :: job_list_cursor
  show "a < b \<longleftrightarrow> a \<le> b \<and> \<not> b \<le> a"
    by (auto simp: less_eq_job_list_cursor_def less_job_list_cursor_def)
  show "a \<le> a"
    by (simp add: less_eq_job_list_cursor_def)
  show "a \<le> b \<Longrightarrow> b \<le> c \<Longrightarrow> a \<le> c"
    by (auto simp: less_eq_job_list_cursor_def)
  show "a \<le> b \<Longrightarrow> b \<le> a \<Longrightarrow> a = b"
    by (cases a; cases b) (auto simp: less_eq_job_list_cursor_def)
  show "a \<le> b \<or> b \<le> a"
    by (auto simp: less_eq_job_list_cursor_def)
qed

end

definition row_cursor :: "job \<Rightarrow> job_list_cursor" where
  "row_cursor r = JobListCursor (job_created_at r) (job_id r)"

lemma row_cursor_sel [simp]:
  "cur_created_at (row_cursor r) = job_created_at r" "cur_job_id (row_cursor r) = job_id r"
  by (simp_all add: row_cursor_def)

section \<open>Statements\<close>

definition update_jobs :: "(job \<Rightarrow> bool) \<Rightarrow> (job \<Rightarrow> job) \<Rightarrow> database \<Rightarrow> bool \<times> database" where
  "update_jobs p f db =
     (rowcount p (db_jobs db) = 1, db\<lparr>db_jobs := update_where p f (db_jobs db)\<rparr>)"

definition add_job :: "job \<Rightarrow> database \<Rightarrow> database" where
  "add_job r db = db\<lparr>db_jobs := db_jobs db @ [r]\<rparr>"

definition is_duplicate_job_idempotency_key_error :: "orig_error \<Rightarrow> bool" where
  "is_duplicate_job_idempotency_key_error original_error =
     (let constraint_name = oe_constraint_name original_error;
          sqlstate = str_or (oe_sqlstate original_error) (oe_pgcode original_error)
      in if sqlstate \<noteq> Some ''23505'' then False
         else case constraint_name of
             Some c \<Rightarrow> c = ''uq_jobs_owner_id_idempotency_key''
           | None \<Rightarrow>
               (let error_text = py_lower (oe_text original_error)
                in py_contains ''jobs'' error_text \<and> py_contains ''idempotency_key'' error_text))"

definition pending_row ::
  "env \<Rightarrow> uuid \<Rightarrow> JobType \<Rightarrow> json_object \<Rightarrow> string \<Rightarrow> string \<Rightarrow> int \<Rightarrow> job" where
  "pending_row e owner_id jtype payload idempotency_key request_hash max_retries = \<lparr>
     job_id = uuid4 e 0, job_owner_id = owner_id, job_type = jtype, job_payload = payload,
     job_status = PENDING, job_idempotency_key = idempotency_key,
     job_request_hash = request_hash, job_attempt_count = 0, job_max_retries = max_retries,
     job_cancel_requested_at = None, job_worker_id = None, job_execution_token = None,
     job_lease_expires_at = None, job_started_at = None, job_finished_at = None,
     job_last_error = None, job_created_at = utc_now e 0, job_updated_at = utc_now e 1\<rparr>"

definition create_pending_job ::
  "driver \<Rightarrow> env \<Rightarrow> uuid \<Rightarrow> JobType \<Rightarrow> json_object \<Rightarrow> string \<Rightarrow> string \<Rightarrow> int \<Rightarrow> database
    \<Rightarrow> (exn + stored_job_dto) \<times> database" where
  "create_pending_job driver e owner_id jtype payload idempotency_key request_hash max_retries db =
     (let job = pending_row e owner_id jtype payload idempotency_key request_hash max_retries
      in if jobs_data_error job then (Inl DataError, db)
         else case jobs_insert_violation job db of
           Some v \<Rightarrow>
             (if is_duplicate_job_idempotency_key_error (driver v)
              then (Inl DuplicateJobIdempotencyKeyError, db)
              else (Inl (IntegrityError v), db))
         | None \<Rightarrow> (Inr (to_stored_job_dto job), add_job job db))"

definition get_by_id :: "uuid \<Rightarrow> database \<Rightarrow> stored_job_dto option" where
  "get_by_id i db = map_option to_stored_job_dto (scalar_where (\<lambda>r. job_id r = i) (db_jobs db))"

definition get_by_id_for_owner :: "uuid \<Rightarrow> uuid \<Rightarrow> database \<Rightarrow> stored_job_dto option" where
  "get_by_id_for_owner i owner_id db =
     map_option to_stored_job_dto
       (scalar_where (\<lambda>r. job_id r = i \<and> job_owner_id r = owner_id) (db_jobs db))"

text \<open>The \<^verbatim>\<open>with_for_update\<close> variants return the same row; the lock they take is modelled in \<open>Lock_Order\<close>.\<close>

definition get_by_id_for_update :: "uuid \<Rightarrow> database \<Rightarrow> stored_job_dto option" where
  "get_by_id_for_update i db =
     map_option to_stored_job_dto (scalar_where (\<lambda>r. job_id r = i) (db_jobs db))"

definition get_by_id_for_owner_for_update :: "uuid \<Rightarrow> uuid \<Rightarrow> database \<Rightarrow> stored_job_dto option" where
  "get_by_id_for_owner_for_update i owner_id db =
     map_option to_stored_job_dto
       (scalar_where (\<lambda>r. job_id r = i \<and> job_owner_id r = owner_id) (db_jobs db))"

definition get_execution_candidate_for_update :: "uuid \<Rightarrow> database \<Rightarrow> job_execution_dto option" where
  "get_execution_candidate_for_update i db =
     map_option to_job_execution_dto (scalar_where (\<lambda>r. job_id r = i) (db_jobs db))"

definition mark_queued :: "uuid \<Rightarrow> datetime \<Rightarrow> database \<Rightarrow> bool \<times> database" where
  "mark_queued i now =
     update_jobs (\<lambda>r. job_id r = i \<and> job_status r = PENDING)
       (\<lambda>r. r\<lparr>job_status := QUEUED, job_updated_at := now\<rparr>)"

definition mark_running ::
  "uuid \<Rightarrow> string \<Rightarrow> uuid \<Rightarrow> datetime \<Rightarrow> datetime \<Rightarrow> database \<Rightarrow> bool \<times> database" where
  "mark_running i worker_id execution_token now lease_expires_at =
     update_jobs (\<lambda>r. job_id r = i \<and> job_status r = QUEUED)
       (\<lambda>r. r\<lparr>job_status := RUNNING, job_worker_id := Some worker_id,
              job_execution_token := Some execution_token,
              job_lease_expires_at := Some lease_expires_at,
              job_started_at := (case job_started_at r of None \<Rightarrow> Some now | Some t \<Rightarrow> Some t),
              job_finished_at := None, job_last_error := None,
              job_attempt_count := job_attempt_count r + 1, job_updated_at := now\<rparr>)"

definition mark_completed :: "uuid \<Rightarrow> uuid \<Rightarrow> datetime \<Rightarrow> database \<Rightarrow> bool \<times> database" where
  "mark_completed i execution_token now =
     update_jobs (\<lambda>r. job_id r = i \<and> job_status r = RUNNING \<and> job_execution_token r = Some execution_token)
       (\<lambda>r. r\<lparr>job_status := COMPLETED, job_worker_id := None, job_execution_token := None,
              job_lease_expires_at := None, job_finished_at := Some now, job_last_error := None,
              job_updated_at := now\<rparr>)"

definition mark_failed :: "uuid \<Rightarrow> uuid \<Rightarrow> datetime \<Rightarrow> string \<Rightarrow> database \<Rightarrow> bool \<times> database" where
  "mark_failed i execution_token now error =
     update_jobs (\<lambda>r. job_id r = i \<and> job_status r = RUNNING \<and> job_execution_token r = Some execution_token)
       (\<lambda>r. r\<lparr>job_status := FAILED, job_worker_id := None, job_execution_token := None,
              job_lease_expires_at := None, job_finished_at := Some now, job_last_error := Some error,
              job_updated_at := now\<rparr>)"

definition requeue_running :: "uuid \<Rightarrow> uuid \<Rightarrow> datetime \<Rightarrow> string \<Rightarrow> database \<Rightarrow> bool \<times> database" where
  "requeue_running i execution_token now error =
     update_jobs (\<lambda>r. job_id r = i \<and> job_status r = RUNNING \<and> job_execution_token r = Some execution_token)
       (\<lambda>r. r\<lparr>job_status := QUEUED, job_worker_id := None, job_execution_token := None,
              job_lease_expires_at := None, job_finished_at := None, job_last_error := Some error,
              job_updated_at := now\<rparr>)"

definition mark_failed_without_execution ::
  "uuid \<Rightarrow> JobStatus \<Rightarrow> datetime \<Rightarrow> string \<Rightarrow> database \<Rightarrow> bool \<times> database" where
  "mark_failed_without_execution i current_status now error =
     update_jobs (\<lambda>r. job_id r = i \<and> job_status r = current_status)
       (\<lambda>r. r\<lparr>job_status := FAILED, job_worker_id := None, job_execution_token := None,
              job_lease_expires_at := None, job_finished_at := Some now, job_last_error := Some error,
              job_updated_at := now\<rparr>)"

definition cancel_pending_or_queued :: "uuid \<Rightarrow> datetime \<Rightarrow> database \<Rightarrow> bool \<times> database" where
  "cancel_pending_or_queued i now =
     update_jobs (\<lambda>r. job_id r = i \<and> job_status r \<in> {PENDING, QUEUED})
       (\<lambda>r. r\<lparr>job_status := CANCELLED, job_worker_id := None, job_execution_token := None,
              job_lease_expires_at := None, job_finished_at := Some now, job_updated_at := now\<rparr>)"

definition request_running_cancellation :: "uuid \<Rightarrow> datetime \<Rightarrow> database \<Rightarrow> bool \<times> database" where
  "request_running_cancellation i now =
     update_jobs (\<lambda>r. job_id r = i \<and> job_status r = RUNNING \<and> job_cancel_requested_at r = None)
       (\<lambda>r. r\<lparr>job_cancel_requested_at := Some now, job_updated_at := now\<rparr>)"

definition mark_cancelled :: "uuid \<Rightarrow> uuid \<Rightarrow> datetime \<Rightarrow> database \<Rightarrow> bool \<times> database" where
  "mark_cancelled i execution_token now =
     update_jobs (\<lambda>r. job_id r = i \<and> job_status r = RUNNING \<and> job_execution_token r = Some execution_token)
       (\<lambda>r. r\<lparr>job_status := CANCELLED, job_worker_id := None, job_execution_token := None,
              job_lease_expires_at := None, job_finished_at := Some now, job_updated_at := now\<rparr>)"

definition get_owner_id :: "uuid \<Rightarrow> database \<Rightarrow> uuid option" where
  "get_owner_id i db = map_option job_owner_id (scalar_where (\<lambda>r. job_id r = i) (db_jobs db))"

definition get_by_idempotency_key :: "uuid \<Rightarrow> string \<Rightarrow> database \<Rightarrow> stored_job_dto option" where
  "get_by_idempotency_key owner_id key db =
     map_option to_stored_job_dto
       (scalar_where (\<lambda>r. job_owner_id r = owner_id \<and> job_idempotency_key r = key) (db_jobs db))"

definition count_running_for_owner :: "uuid \<Rightarrow> database \<Rightarrow> int" where
  "count_running_for_owner owner_id db =
     int (rowcount (\<lambda>r. job_owner_id r = owner_id \<and> job_status r = RUNNING) (db_jobs db))"

definition keyset_clause :: "job_list_cursor \<Rightarrow> job \<Rightarrow> bool" where
  "keyset_clause cursor r \<longleftrightarrow>
     job_created_at r < cur_created_at cursor \<or>
     (job_created_at r = cur_created_at cursor \<and> job_id r < cur_job_id cursor)"

text \<open>\<^verbatim>\<open>ORDER BY created_at DESC, id DESC\<close>, restricted by the cursor, then \<^verbatim>\<open>LIMIT\<close>.\<close>

definition keyset_page :: "(job \<Rightarrow> bool) \<Rightarrow> job_list_cursor option \<Rightarrow> int \<Rightarrow> database \<Rightarrow> job list" where
  "keyset_page p cursor limit db =
     take (nat limit)
       (rev (sort_key row_cursor
         (select_where (\<lambda>r. p r \<and> (case cursor of None \<Rightarrow> True | Some c \<Rightarrow> keyset_clause c r)) (db_jobs db))))"

definition list_for_owner_keyset ::
  "uuid \<Rightarrow> job_list_cursor option \<Rightarrow> int \<Rightarrow> database \<Rightarrow> stored_job_dto list" where
  "list_for_owner_keyset owner_id cursor limit db =
     map to_stored_job_dto (keyset_page (\<lambda>r. job_owner_id r = owner_id) cursor limit db)"

definition list_all_keyset :: "job_list_cursor option \<Rightarrow> int \<Rightarrow> database \<Rightarrow> stored_job_dto list" where
  "list_all_keyset cursor limit db = map to_stored_job_dto (keyset_page (\<lambda>r. True) cursor limit db)"

definition lease_expired :: "datetime \<Rightarrow> job \<Rightarrow> bool" where
  "lease_expired now r \<longleftrightarrow>
     job_status r = RUNNING \<and>
     (case job_lease_expires_at r of None \<Rightarrow> False | Some t \<Rightarrow> t < now)"

definition lease_order :: "job \<Rightarrow> datetime \<times> datetime \<times> uuid" where
  "lease_order r = (the (job_lease_expires_at r), job_created_at r, job_id r)"

definition find_expired_running_jobs :: "datetime \<Rightarrow> int \<Rightarrow> database \<Rightarrow> stored_job_dto list" where
  "find_expired_running_jobs now limit db =
     map to_stored_job_dto
       (take (nat limit) (sort_key lease_order (select_where (lease_expired now) (db_jobs db))))"

text \<open>
  \<^verbatim>\<open>FOR UPDATE SKIP LOCKED\<close>: rows that another transaction has locked (\<open>locked\<close>) are left out.
\<close>

definition claim_expired_running_jobs_for_update ::
  "(uuid \<Rightarrow> bool) \<Rightarrow> datetime \<Rightarrow> int \<Rightarrow> database \<Rightarrow> job_execution_dto list" where
  "claim_expired_running_jobs_for_update locked now limit db =
     map to_job_execution_dto
       (take (nat limit)
         (sort_key lease_order
           (select_where (\<lambda>r. lease_expired now r \<and> \<not> locked (job_id r)) (db_jobs db))))"

section \<open>Effect of the conditional updates\<close>

named_theorems job_update_defs "the conditional updates of the jobs table"
declare mark_queued_def [job_update_defs] mark_running_def [job_update_defs]
  mark_completed_def [job_update_defs] mark_failed_def [job_update_defs]
  requeue_running_def [job_update_defs] mark_failed_without_execution_def [job_update_defs]
  cancel_pending_or_queued_def [job_update_defs] request_running_cancellation_def [job_update_defs]
  mark_cancelled_def [job_update_defs]

definition job_keys_ok :: "database \<Rightarrow> bool" where
  "job_keys_ok db \<longleftrightarrow> distinct (map job_id (db_jobs db))"

lemma update_jobs_frame [simp]:
  "db_users (snd (update_jobs p f db)) = db_users db"
  "db_job_logs (snd (update_jobs p f db)) = db_job_logs db"
  "db_outbox_events (snd (update_jobs p f db)) = db_outbox_events db"
  by (simp_all add: update_jobs_def)

lemma snd_update_jobs:
  "snd (update_jobs p f db) = db\<lparr>db_jobs := update_where p f (db_jobs db)\<rparr>"
  by (simp add: update_jobs_def)

lemma fst_update_jobs:
  assumes "job_keys_ok db" and "\<And>r. p r \<Longrightarrow> job_id r = i"
  shows "fst (update_jobs p f db) \<longleftrightarrow> (\<exists>r \<in> set (db_jobs db). p r)"
  using rowcount_key_iff [of job_id "db_jobs db" p i] assms
  by (simp add: update_jobs_def job_keys_ok_def)

lemma update_jobs_miss:
  assumes "job_keys_ok db" and "\<And>r. p r \<Longrightarrow> job_id r = i" and "\<not> fst (update_jobs p f db)"
  shows "snd (update_jobs p f db) = db"
proof -
  have "\<forall>r \<in> set (db_jobs db). \<not> p r"
    using fst_update_jobs [OF assms(1), of p i f] assms(2,3) by blast
  then have "update_where p f (db_jobs db) = db_jobs db"
    by (intro update_where_idle) auto
  then show ?thesis by (simp add: update_jobs_def)
qed

lemma job_lookup_iff:
  "job_keys_ok db \<Longrightarrow>
    scalar_where (\<lambda>r. job_id r = i) (db_jobs db) = Some r \<longleftrightarrow> r \<in> set (db_jobs db) \<and> job_id r = i"
  by (simp add: job_keys_ok_def scalar_where_key)

lemma job_row_unique:
  "job_keys_ok db \<Longrightarrow> r \<in> set (db_jobs db) \<Longrightarrow> r' \<in> set (db_jobs db) \<Longrightarrow> job_id r = job_id r' \<Longrightarrow> r = r'"
  unfolding job_keys_ok_def by (rule key_unique)

text \<open>
  A conditional update whose guard the row with that identifier satisfies reports success
  and rewrites exactly that row.
\<close>

lemma update_jobs_hit:
  assumes keys: "job_keys_ok db" and r: "r \<in> set (db_jobs db)" "job_id r = i" "q r" and "f r = g r"
  shows "update_jobs (\<lambda>x. job_id x = i \<and> q x) f db =
    (True, db\<lparr>db_jobs := update_where (\<lambda>x. job_id x = i) g (db_jobs db)\<rparr>)"
proof (rule prod_eqI)
  have uniq: "x = r" if "x \<in> set (db_jobs db)" "job_id x = i" for x
    using job_row_unique [OF keys that(1) r(1)] that(2) r(2) by simp
  show "fst (update_jobs (\<lambda>x. job_id x = i \<and> q x) f db) =
      fst (True, db\<lparr>db_jobs := update_where (\<lambda>x. job_id x = i) g (db_jobs db)\<rparr>)"
    using keys r by (subst fst_update_jobs) auto
  have "update_where (\<lambda>x. job_id x = i \<and> q x) f (db_jobs db) = update_where (\<lambda>x. job_id x = i) g (db_jobs db)"
    unfolding update_where_def by (rule map_cong) (use uniq r(3) assms(5) in auto)
  then show "snd (update_jobs (\<lambda>x. job_id x = i \<and> q x) f db) =
      snd (True, db\<lparr>db_jobs := update_where (\<lambda>x. job_id x = i) g (db_jobs db)\<rparr>)"
    by (simp add: snd_update_jobs)
qed

text \<open>Recognising the violated constraint from what the driver reports.\<close>

lemma duplicate_key_recognised:
  assumes "driver_reports_unique d"
  shows "is_duplicate_job_idempotency_key_error (d (UniqueViolation ''uq_jobs_owner_id_idempotency_key''))"
proof -
  let ?c = "''uq_jobs_owner_id_idempotency_key''"
  have "py_contains ''jobs'' (pre @ ?c @ post)" "py_contains ''idempotency_key'' (pre @ ?c @ post)" for pre post
    using py_contains_append [of "''jobs''" "pre @ ''uq_''" "''_owner_id_idempotency_key'' @ post"]
      py_contains_append [of "''idempotency_key''" "pre @ ''uq_jobs_owner_id_''" post] by simp_all
  with assms show ?thesis
    by (auto simp: driver_reports_unique_def is_duplicate_job_idempotency_key_error_def Let_def split: option.split
        dest!: spec [of _ ?c])
qed

lemma pending_row_sel [simp]:
  "job_id (pending_row e ow t p k h mr) = uuid4 e 0" "job_owner_id (pending_row e ow t p k h mr) = ow"
  "job_status (pending_row e ow t p k h mr) = PENDING" "job_idempotency_key (pending_row e ow t p k h mr) = k"
  "job_request_hash (pending_row e ow t p k h mr) = h" "job_max_retries (pending_row e ow t p k h mr) = mr"
  "job_attempt_count (pending_row e ow t p k h mr) = 0"
  by (simp_all add: pending_row_def)

section \<open>Keyset pagination\<close>

lemma keyset_clause_less: "keyset_clause c r \<longleftrightarrow> row_cursor r < c"
  by (auto simp: keyset_clause_def less_job_list_cursor_def)

definition ordered_jobs :: "(job \<Rightarrow> bool) \<Rightarrow> database \<Rightarrow> job list" where
  "ordered_jobs p db = rev (sort_key row_cursor (filter p (db_jobs db)))"

lemma filter_rev_sort_less:
  fixes k :: "'a \<Rightarrow> 'b :: linorder"
  assumes "sorted_wrt (\<lambda>x y. k y < k x) xs" and "i < length xs"
  shows "filter (\<lambda>x. k x < k (xs ! i)) xs = drop (Suc i) xs"
  using assms
proof (induction xs arbitrary: i)
  case (Cons x xs)
  show ?case
  proof (cases i)
    case 0
    with Cons.prems show ?thesis by (auto simp: filter_id_conv)
  next
    case (Suc j)
    with Cons.prems have "j < length xs" by simp
    then have "k (xs ! j) < k x" using Cons.prems(1) nth_mem [of j xs] by auto
    then have "\<not> k x < k (xs ! j)" by (rule less_not_sym)
    moreover have "filter (\<lambda>x. k x < k (xs ! j)) xs = drop (Suc j) xs"
      using Cons.prems(1) \<open>j < length xs\<close> by (intro Cons.IH) auto
    ultimately show ?thesis using Suc by simp
  qed
qed simp

lemma sort_key_filter: "sort_key k (filter p xs) = filter p (sort_key k xs)"
  by (simp add: filter_sort)

lemma ordered_jobs_strict:
  assumes "job_keys_ok db"
  shows "sorted_wrt (\<lambda>r r'. row_cursor r' < row_cursor r) (ordered_jobs p db)"
proof -
  let ?xs = "sort_key row_cursor (filter p (db_jobs db))"
  have inj: "inj_on row_cursor (set (db_jobs db))"
    using assms by (auto simp: inj_on_def row_cursor_def intro: job_row_unique)
  have "distinct (filter p (db_jobs db))"
    using assms by (simp add: job_keys_ok_def distinct_map)
  then have "distinct (map row_cursor ?xs)"
    using inj by (auto simp: distinct_map inj_on_def)
  moreover have "sorted (map row_cursor ?xs)" by simp
  ultimately have "sorted_wrt (<) (map row_cursor ?xs)" by (simp add: strict_sorted_iff)
  then show ?thesis by (simp add: ordered_jobs_def sorted_wrt_rev sorted_wrt_map)
qed

lemma keyset_page_first: "keyset_page p None limit db = take (nat limit) (ordered_jobs p db)"
  by (simp add: keyset_page_def ordered_jobs_def select_where_def)

lemma keyset_page_after:
  assumes "job_keys_ok db" and "i < length (ordered_jobs p db)"
  shows "keyset_page p (Some (row_cursor (ordered_jobs p db ! i))) limit db =
    take (nat limit) (drop (Suc i) (ordered_jobs p db))"
proof -
  let ?c = "row_cursor (ordered_jobs p db ! i)"
  have "rev (sort_key row_cursor (filter (\<lambda>r. p r \<and> row_cursor r < ?c) (db_jobs db))) =
      filter (\<lambda>r. row_cursor r < ?c) (ordered_jobs p db)"
    unfolding ordered_jobs_def
    by (subst rev_filter [symmetric]) (simp add: sort_key_filter [symmetric] conj_commute)
  also have "\<dots> = drop (Suc i) (ordered_jobs p db)"
    using ordered_jobs_strict [OF assms(1)] assms(2) by (rule filter_rev_sort_less)
  finally show ?thesis
    by (simp add: keyset_page_def select_where_def keyset_clause_less)
qed

end
