(* ===== verification/User_Repository.thy ===== *)
theory User_Repository
  imports Schema
begin

text \<open>
  \<^verbatim>\<open>src/app/repositories/users.py\<close>: the \<^verbatim>\<open>users\<close> table, with the recognition of a duplicate
  e-mail from the driver's error.
\<close>

definition is_duplicate_email_integrity_error :: "orig_error \<Rightarrow> bool" where
  "is_duplicate_email_integrity_error original_error =
     (let constraint_name = oe_constraint_name original_error;
          sqlstate = str_or (oe_sqlstate original_error) (oe_pgcode original_error)
      in if sqlstate \<noteq> Some ''23505'' then False
         else case constraint_name of
             Some c \<Rightarrow> c = ''uq_users_email''
           | None \<Rightarrow>
               (let error_text = py_lower (oe_text original_error)
                in py_contains ''users'' error_text \<and> py_contains ''email'' error_text))"

definition add_user :: "user \<Rightarrow> database \<Rightarrow> database" where
  "add_user u db = db\<lparr>db_users := db_users db @ [u]\<rparr>"

definition create_user ::
  "driver \<Rightarrow> env \<Rightarrow> string \<Rightarrow> string \<Rightarrow> UserRole \<Rightarrow> bool \<Rightarrow> database \<Rightarrow> (exn + user) \<times> database" where
  "create_user driver e email password_hash role is_active db =
     (let user = \<lparr>user_id = uuid4 e 0, user_email = email, user_password_hash = password_hash,
                  user_role = role, user_is_active = is_active,
                  user_created_at = utc_now e 0, user_updated_at = utc_now e 1\<rparr>
      in case users_insert_violation user db of
           Some v \<Rightarrow>
             (if is_duplicate_email_integrity_error (driver v) then (Inl DuplicateEmailError, db)
              else (Inl (IntegrityError v), db))
         | None \<Rightarrow> (Inr user, add_user user db))"

definition get_by_email :: "string \<Rightarrow> database \<Rightarrow> user option" where
  "get_by_email email db = scalar_where (\<lambda>u. user_email u = email) (db_users db)"

definition users_get_by_id :: "uuid \<Rightarrow> database \<Rightarrow> user option" where
  "users_get_by_id i db = scalar_where (\<lambda>u. user_id u = i) (db_users db)"

definition lock_by_id :: "uuid \<Rightarrow> database \<Rightarrow> user option" where
  "lock_by_id i db = scalar_where (\<lambda>u. user_id u = i) (db_users db)"

text \<open>
  The session writes the changed attributes of a loaded row on flush; \<^verbatim>\<open>updated_at\<close> is set
  (\<^verbatim>\<open>onupdate\<close>) when there is such a change.
\<close>

definition create_or_update_admin ::
  "env \<Rightarrow> string \<Rightarrow> string \<Rightarrow> database \<Rightarrow> (exn + user) \<times> database" where
  "create_or_update_admin e email password_hash db =
     (case get_by_email email db of
        None \<Rightarrow>
          (let user = \<lparr>user_id = uuid4 e 0, user_email = email, user_password_hash = password_hash,
                       user_role = ADMIN, user_is_active = True,
                       user_created_at = utc_now e 0, user_updated_at = utc_now e 1\<rparr>
           in case users_insert_violation user db of
                Some v \<Rightarrow> (Inl (IntegrityError v), db)
              | None \<Rightarrow> (Inr user, add_user user db))
      | Some u \<Rightarrow>
          (let u1 = u\<lparr>user_password_hash := password_hash, user_role := ADMIN, user_is_active := True\<rparr>;
               u2 = (if u1 = u then u else u1\<lparr>user_updated_at := utc_now e 0\<rparr>)
           in (Inr u2, db\<lparr>db_users := update_where (\<lambda>x. user_id x = user_id u) (\<lambda>_. u2) (db_users db)\<rparr>)))"

definition user_keys_ok :: "database \<Rightarrow> bool" where
  "user_keys_ok db \<longleftrightarrow> distinct (map user_id (db_users db)) \<and> distinct (map user_email (db_users db))"

lemma add_user_frame [simp]:
  "db_jobs (add_user u db) = db_jobs db" "db_outbox_events (add_user u db) = db_outbox_events db"
  "db_job_logs (add_user u db) = db_job_logs db" "db_users (add_user u db) = db_users db @ [u]"
  by (simp_all add: add_user_def)

lemma lock_by_id_Some_iff:
  "user_keys_ok db \<Longrightarrow> lock_by_id i db = Some u \<longleftrightarrow> u \<in> set (db_users db) \<and> user_id u = i"
  by (simp add: lock_by_id_def user_keys_ok_def scalar_where_key)

lemma lock_by_id_exists: "(\<exists>u. lock_by_id i db = Some u) \<longleftrightarrow> (\<exists>u \<in> set (db_users db). user_id u = i)"
  by (metis (mono_tags, lifting) lock_by_id_def not_None_eq scalar_where_None_iff)

lemma get_by_email_Some_iff:
  "user_keys_ok db \<Longrightarrow> get_by_email m db = Some u \<longleftrightarrow> u \<in> set (db_users db) \<and> user_email u = m"
  by (simp add: get_by_email_def user_keys_ok_def scalar_where_key)

lemma users_insert_violation_None_iff:
  "users_insert_violation u db = None \<longleftrightarrow>
    user_id u \<notin> user_id ` set (db_users db) \<and> user_email u \<notin> user_email ` set (db_users db)"
  unfolding users_insert_violation_def by (auto simp: image_iff) metis+

lemma add_user_keys_ok:
  "user_keys_ok db \<Longrightarrow> users_insert_violation u db = None \<Longrightarrow> user_keys_ok (add_user u db)"
  by (auto simp: user_keys_ok_def users_insert_violation_None_iff)

lemma create_user_keys_ok:
  "user_keys_ok db \<Longrightarrow> user_keys_ok (snd (create_user d e m h ro act db))"
  by (auto simp: create_user_def Let_def add_user_keys_ok split: option.splits)

lemma create_or_update_admin_keys_ok:
  assumes "user_keys_ok db"
  shows "user_keys_ok (snd (create_or_update_admin e m h db))"
proof (cases "get_by_email m db")
  case None
  then show ?thesis using assms
    by (auto simp: create_or_update_admin_def Let_def add_user_keys_ok split: option.splits)
next
  case (Some u)
  with assms have u: "u \<in> set (db_users db)" by (simp add: get_by_email_Some_iff)
  have row: "user_email u = user_email x" if "x \<in> set (db_users db)" "user_id x = user_id u" for x
    using assms u that key_unique [of user_id "db_users db" x u] by (auto simp: user_keys_ok_def)
  have mails: "map user_email (update_where (\<lambda>x. user_id x = user_id u) (\<lambda>_. v) (db_users db)) =
      map user_email (db_users db)" if "user_email v = user_email u" for v
    using that row by (intro map_update_where) simp
  have ids: "map user_id (update_where (\<lambda>x. user_id x = user_id u) (\<lambda>_. v) (db_users db)) =
      map user_id (db_users db)" if "user_id v = user_id u" for v
    using that by (intro map_update_where) simp
  show ?thesis using assms Some
    by (auto simp: create_or_update_admin_def user_keys_ok_def Let_def ids mails)
qed

end
