(* ===== verification/Job_Lifecycle.thy ===== *)
theory Job_Lifecycle
  imports Job_Repository Outbox_Repository User_Repository
begin

text \<open>
  The abstract machine of one job row, and the well-formedness of the whole database. The
  conditional updates of the repository are shown to be moves of this machine, so the
  transaction proofs reason about labelled moves of rows and never about single columns.
\<close>

section \<open>Moves of a row\<close>

datatype move =
    Queue | Start uuid | Complete | Fail | Requeue | CancelIdle | RequestCancel | CancelRunning

inductive moves :: "move \<Rightarrow> job \<Rightarrow> job \<Rightarrow> bool" where
  queue: "job_status r = PENDING \<Longrightarrow>
     moves Queue r (r\<lparr>job_status := QUEUED, job_updated_at := now\<rparr>)"
| start: "job_status r = QUEUED \<Longrightarrow> job_attempt_count r + 1 \<le> 4 \<Longrightarrow>
     moves (Start tok) r
       (r\<lparr>job_status := RUNNING, job_worker_id := Some w, job_execution_token := Some tok,
          job_lease_expires_at := Some lease,
          job_started_at := (case job_started_at r of None \<Rightarrow> Some now | Some t \<Rightarrow> Some t),
          job_finished_at := None, job_last_error := None,
          job_attempt_count := job_attempt_count r + 1, job_updated_at := now\<rparr>)"
| complete: "job_status r = RUNNING \<Longrightarrow>
     moves Complete r
       (r\<lparr>job_status := COMPLETED, job_worker_id := None, job_execution_token := None,
          job_lease_expires_at := None, job_finished_at := Some now, job_last_error := None,
          job_updated_at := now\<rparr>)"
| fail: "job_status r = RUNNING \<Longrightarrow>
     moves Fail r
       (r\<lparr>job_status := FAILED, job_worker_id := None, job_execution_token := None,
          job_lease_expires_at := None, job_finished_at := Some now, job_last_error := Some error,
          job_updated_at := now\<rparr>)"
| requeue: "job_status r = RUNNING \<Longrightarrow> job_attempt_count r < 4 \<Longrightarrow>
     moves Requeue r
       (r\<lparr>job_status := QUEUED, job_worker_id := None, job_execution_token := None,
          job_lease_expires_at := None, job_finished_at := None, job_last_error := Some error,
          job_updated_at := now\<rparr>)"
| cancel_idle: "job_status r \<in> {PENDING, QUEUED} \<Longrightarrow>
     moves CancelIdle r
       (r\<lparr>job_status := CANCELLED, job_worker_id := None, job_execution_token := None,
          job_lease_expires_at := None, job_finished_at := Some now, job_updated_at := now\<rparr>)"
| request_cancel: "job_status r = RUNNING \<Longrightarrow> job_cancel_requested_at r = None \<Longrightarrow>
     moves RequestCancel r (r\<lparr>job_cancel_requested_at := Some now, job_updated_at := now\<rparr>)"
| cancel_running: "job_status r = RUNNING \<Longrightarrow>
     moves CancelRunning r
       (r\<lparr>job_status := CANCELLED, job_worker_id := None, job_execution_token := None,
          job_lease_expires_at := None, job_finished_at := Some now, job_updated_at := now\<rparr>)"

inductive_cases moves_StartE: "moves (Start tok) r r'"
inductive_cases moves_QueueE: "moves Queue r r'"
inductive_cases moves_RequeueE: "moves Requeue r r'"

text \<open>A row of a well-formed \<^verbatim>\<open>jobs\<close> table.\<close>

definition job_ok :: "job \<Rightarrow> bool" where
  "job_ok r \<longleftrightarrow>
     0 \<le> job_attempt_count r \<and> job_attempt_count r \<le> 4 \<and> job_max_retries r = 3 \<and>
     (job_status r = PENDING \<longrightarrow> job_attempt_count r = 0) \<and>
     (job_status r = QUEUED \<longrightarrow> job_attempt_count r \<le> 3) \<and>
     (job_status r = RUNNING \<longrightarrow> 1 \<le> job_attempt_count r) \<and>
     (job_execution_token r \<noteq> None \<longleftrightarrow> job_status r = RUNNING) \<and>
     (job_worker_id r \<noteq> None \<longleftrightarrow> job_status r = RUNNING) \<and>
     (job_lease_expires_at r \<noteq> None \<longleftrightarrow> job_status r = RUNNING) \<and>
     (job_finished_at r \<noteq> None \<longleftrightarrow> is_terminal_status (job_status r)) \<and>
     (job_started_at r \<noteq> None \<longleftrightarrow> 0 < job_attempt_count r)"

definition new_job :: "job \<Rightarrow> bool" where
  "new_job r \<longleftrightarrow>
     job_status r = PENDING \<and> job_attempt_count r = 0 \<and> job_max_retries r = 3 \<and>
     job_cancel_requested_at r = None \<and> job_worker_id r = None \<and> job_execution_token r = None \<and>
     job_lease_expires_at r = None \<and> job_started_at r = None \<and> job_finished_at r = None \<and>
     job_last_error r = None"

lemma new_job_ok: "new_job r \<Longrightarrow> job_ok r"
  by (simp add: new_job_def job_ok_def)

text \<open>The columns no move writes.\<close>

definition same_identity :: "job \<Rightarrow> job \<Rightarrow> bool" where
  "same_identity r r' \<longleftrightarrow>
     job_id r' = job_id r \<and> job_owner_id r' = job_owner_id r \<and> job_type r' = job_type r \<and>
     job_payload r' = job_payload r \<and> job_idempotency_key r' = job_idempotency_key r \<and>
     job_request_hash r' = job_request_hash r \<and> job_max_retries r' = job_max_retries r \<and>
     job_created_at r' = job_created_at r"

lemma moves_identity: "moves l r r' \<Longrightarrow> same_identity r r'"
  by (induction rule: moves.induct) (simp_all add: same_identity_def)

lemma moves_ok: "moves l r r' \<Longrightarrow> job_ok r \<Longrightarrow> job_ok r'"
  by (induction rule: moves.induct) (auto simp: job_ok_def split: option.split)

lemma moves_policy: "moves l r r' \<Longrightarrow> job_status r' = job_status r \<or> can_transition (job_status r) (job_status r')"
  by (induction rule: moves.induct) auto

lemma moves_not_terminal: "moves l r r' \<Longrightarrow> \<not> is_terminal_status (job_status r)"
  by (induction rule: moves.induct) auto

text \<open>Only \<open>Start\<close> leads into \<^verbatim>\<open>running\<close> and counts an attempt; other moves that stay running keep the lease.\<close>

definition quiet :: "move \<Rightarrow> bool" where
  "quiet l \<longleftrightarrow> (\<forall>tok. l \<noteq> Start tok)"

lemma moves_quiet:
  "moves l r r' \<Longrightarrow> quiet l \<Longrightarrow>
    job_attempt_count r' = job_attempt_count r \<and>
    (job_status r' = RUNNING \<longrightarrow>
       job_status r = RUNNING \<and> job_execution_token r' = job_execution_token r \<and>
       job_lease_expires_at r' = job_lease_expires_at r)"
  by (induction rule: moves.induct) (auto simp: quiet_def)

text \<open>Runs of moves with labels in a given set.\<close>

definition moves_in :: "move set \<Rightarrow> job \<Rightarrow> job \<Rightarrow> bool" where
  "moves_in L = (\<lambda>r r'. \<exists>l \<in> L. moves l r r')\<^sup>*\<^sup>*"

lemma moves_in_refl [simp, intro]: "moves_in L r r"
  by (simp add: moves_in_def)

lemma moves_in_trans: "moves_in L r r' \<Longrightarrow> moves_in L r' r'' \<Longrightarrow> moves_in L r r''"
  unfolding moves_in_def by (rule rtranclp_trans)

lemma moves_in_single: "moves l r r' \<Longrightarrow> l \<in> L \<Longrightarrow> moves_in L r r'"
  unfolding moves_in_def by (intro r_into_rtranclp) auto

lemma moves_in_induct [consumes 1, case_names refl step]:
  assumes "moves_in L r r'" and "P r"
    and "\<And>s l s'. P s \<Longrightarrow> l \<in> L \<Longrightarrow> moves l s s' \<Longrightarrow> P s'"
  shows "P r'"
  using assms(1) unfolding moves_in_def
  by (induction rule: rtranclp_induct) (auto intro: assms)

lemma moves_in_identity: "moves_in L r r' \<Longrightarrow> same_identity r r'"
  by (induction rule: moves_in_induct) (auto simp: same_identity_def dest: moves_identity)

lemma moves_in_ok: "moves_in L r r' \<Longrightarrow> job_ok r \<Longrightarrow> job_ok r'"
  by (induction rule: moves_in_induct) (auto intro: moves_ok)

lemma moves_in_policy: "moves_in L r r' \<Longrightarrow> can_transition\<^sup>*\<^sup>* (job_status r) (job_status r')"
  by (induction rule: moves_in_induct) (auto dest: moves_policy intro: rtranclp.rtrancl_into_rtrancl)

lemma moves_in_terminal: "moves_in L r r' \<Longrightarrow> is_terminal_status (job_status r) \<Longrightarrow> r' = r"
  unfolding moves_in_def by (erule converse_rtranclpE) (auto dest: moves_not_terminal)

lemma moves_in_quiet:
  assumes "moves_in L r r'" and "\<And>l. l \<in> L \<Longrightarrow> quiet l"
  shows "job_attempt_count r' = job_attempt_count r \<and>
    (job_status r' = RUNNING \<longrightarrow>
       job_status r = RUNNING \<and> job_execution_token r' = job_execution_token r \<and>
       job_lease_expires_at r' = job_lease_expires_at r)"
  using assms(1)
proof (induction rule: moves_in_induct)
  case (step s l s')
  with moves_quiet [OF step(3)] assms(2) show ?case by auto
qed simp

lemma moves_in_mono: "moves_in L r r' \<Longrightarrow> L \<subseteq> L' \<Longrightarrow> moves_in L' r r'"
  by (induction rule: moves_in_induct) (auto intro: moves_in_trans moves_in_single)

section \<open>Well-formed databases\<close>

definition owner_exists :: "database \<Rightarrow> job \<Rightarrow> bool" where
  "owner_exists db r \<longleftrightarrow> (\<exists>u \<in> set (db_users db). user_id u = job_owner_id r)"

definition job_exists :: "database \<Rightarrow> uuid \<Rightarrow> bool" where
  "job_exists db i \<longleftrightarrow> (\<exists>r \<in> set (db_jobs db). job_id r = i)"

definition idempotency_pair :: "job \<Rightarrow> uuid \<times> string" where
  "idempotency_pair r = (job_owner_id r, job_idempotency_key r)"

definition jobs_ok :: "database \<Rightarrow> bool" where
  "jobs_ok db \<longleftrightarrow>
     job_keys_ok db \<and> distinct (map idempotency_pair (db_jobs db)) \<and>
     (\<forall>r \<in> set (db_jobs db). job_ok r \<and> owner_exists db r)"

definition event_ok :: "codec \<Rightarrow> database \<Rightarrow> outbox_event \<Rightarrow> bool" where
  "event_ok c db ev \<longleftrightarrow>
     ev_event_type ev = JobEventType_value DISPATCH \<and> job_exists db (ev_aggregate_id ev) \<and>
     (\<exists>m. model_validate c (ev_payload ev) = Inr m \<and> dm_job_id m = ev_aggregate_id ev)"

definition events_ok :: "codec \<Rightarrow> database \<Rightarrow> bool" where
  "events_ok c db \<longleftrightarrow>
     distinct (map ev_id (db_outbox_events db)) \<and> (\<forall>ev \<in> set (db_outbox_events db). event_ok c db ev)"

definition logs_ok :: "database \<Rightarrow> bool" where
  "logs_ok db \<longleftrightarrow> (\<forall>l \<in> set (db_job_logs db). job_exists db (log_job_id l))"

definition db_ok :: "codec \<Rightarrow> database \<Rightarrow> bool" where
  "db_ok c db \<longleftrightarrow> user_keys_ok db \<and> jobs_ok db \<and> events_ok c db \<and> logs_ok db"

lemma db_ok_keys: "db_ok c db \<Longrightarrow> job_keys_ok db"
  by (simp add: db_ok_def jobs_ok_def)

lemma db_ok_row: "db_ok c db \<Longrightarrow> r \<in> set (db_jobs db) \<Longrightarrow> job_ok r \<and> owner_exists db r"
  by (simp add: db_ok_def jobs_ok_def)

lemma db_ok_owner_lock: "db_ok c db \<Longrightarrow> r \<in> set (db_jobs db) \<Longrightarrow> lock_by_id (job_owner_id r) db \<noteq> None"
  using lock_by_id_exists [of "job_owner_id r" db] db_ok_row [of c db r] by (auto simp: owner_exists_def)

section \<open>Evolution of the jobs table\<close>

text \<open>No row appears or disappears, and each row follows moves with labels in \<open>L\<close>.\<close>

definition evolves :: "move set \<Rightarrow> database \<Rightarrow> database \<Rightarrow> bool" where
  "evolves L db db' \<longleftrightarrow> list_all2 (moves_in L) (db_jobs db) (db_jobs db')"

lemma evolves_refl [simp, intro]: "evolves L db db"
  by (simp add: evolves_def list.rel_refl)

lemma evolves_same_jobs: "db_jobs db' = db_jobs db \<Longrightarrow> evolves L db db'"
  by (simp add: evolves_def list.rel_refl)

lemma evolves_trans: "evolves L db db' \<Longrightarrow> evolves L db' db'' \<Longrightarrow> evolves L db db''"
  unfolding evolves_def using list_all2_trans [where ?P1.0 = "moves_in L" and ?P2.0 = "moves_in L"]
  by (metis moves_in_trans)

lemma evolves_mono: "evolves L db db' \<Longrightarrow> L \<subseteq> L' \<Longrightarrow> evolves L' db db'"
  unfolding evolves_def by (erule list_all2_mono) (rule moves_in_mono)

lemma update_where_evolves:
  assumes "\<And>r. r \<in> set (db_jobs db) \<Longrightarrow> p r \<Longrightarrow> moves l r (f r)" and "l \<in> L"
  shows "evolves L db (db\<lparr>db_jobs := update_where p f (db_jobs db)\<rparr>)"
  using assms unfolding evolves_def update_where_def
  by (auto simp: list.rel_map intro!: list.rel_refl_strong intro: moves_in_single)

lemma evolves_jobs_cong: "evolves L db db' \<Longrightarrow> db_jobs db'' = db_jobs db' \<Longrightarrow> evolves L db db''"
  by (simp add: evolves_def)

lemma evolves_back:
  assumes "evolves L db db'" and "r' \<in> set (db_jobs db')"
  obtains r where "r \<in> set (db_jobs db)" and "moves_in L r r'"
  using assms unfolding evolves_def list_all2_conv_all_nth in_set_conv_nth by metis

lemma evolves_forth:
  assumes "evolves L db db'" and "r \<in> set (db_jobs db)"
  obtains r' where "r' \<in> set (db_jobs db')" and "moves_in L r r'"
  using assms unfolding evolves_def list_all2_conv_all_nth in_set_conv_nth by metis

lemma evolves_map:
  assumes "evolves L db db'" and "\<And>r r'. same_identity r r' \<Longrightarrow> g r' = g r"
  shows "map g (db_jobs db') = map g (db_jobs db)"
  using assms(1) unfolding evolves_def
  by (induction rule: list_all2_induct) (auto dest: moves_in_identity intro: assms(2))

lemma evolves_keys:
  assumes "evolves L db db'"
  shows "map job_id (db_jobs db') = map job_id (db_jobs db)"
    and "map idempotency_pair (db_jobs db') = map idempotency_pair (db_jobs db)"
  by (rule evolves_map [OF assms]; simp add: same_identity_def idempotency_pair_def)+

lemma evolves_job_exists: "evolves L db db' \<Longrightarrow> job_exists db' i \<longleftrightarrow> job_exists db i"
proof -
  assume "evolves L db db'"
  then have "job_id ` set (db_jobs db') = job_id ` set (db_jobs db)"
    using evolves_keys(1) [of L db db'] by (metis list.set_map)
  moreover have "job_exists d i \<longleftrightarrow> i \<in> job_id ` set (db_jobs d)" for d
    by (auto simp: job_exists_def)
  ultimately show ?thesis by simp
qed

text \<open>
  The general step of the well-formedness proofs: the jobs evolve, the users stay, every
  event and every log entry is an old one or refers to a job that exists.
\<close>

lemma evolves_jobs_ok:
  assumes "evolves L db db'" and "db_users db' = db_users db" and "jobs_ok db"
  shows "jobs_ok db'"
proof -
  have "job_ok r' \<and> owner_exists db' r'" if r': "r' \<in> set (db_jobs db')" for r'
  proof -
    from assms(1) r' obtain r where r: "r \<in> set (db_jobs db)" and m: "moves_in L r r'"
      by (rule evolves_back)
    from r assms(3) have "job_ok r" "owner_exists db r" by (auto simp: jobs_ok_def)
    then show ?thesis
      using moves_in_ok [OF m] moves_in_identity [OF m] assms(2)
      by (simp add: owner_exists_def same_identity_def)
  qed
  then show ?thesis
    using assms evolves_keys [OF assms(1)] by (simp add: jobs_ok_def job_keys_ok_def)
qed

lemma db_ok_evolves:
  assumes "db_ok c db" and "evolves L db db'" and "db_users db' = db_users db"
    and "distinct (map ev_id (db_outbox_events db'))"
    and "\<And>ev. ev \<in> set (db_outbox_events db') \<Longrightarrow> event_ok c db ev"
    and "\<And>l. l \<in> set (db_job_logs db') \<Longrightarrow> job_exists db (log_job_id l)"
  shows "db_ok c db'"
proof -
  have "event_ok c db' ev \<longleftrightarrow> event_ok c db ev" for ev
    by (simp add: event_ok_def evolves_job_exists [OF assms(2)])
  then show ?thesis
    using assms evolves_jobs_ok [OF assms(2,3)]
    by (simp add: db_ok_def events_ok_def logs_ok_def user_keys_ok_def evolves_job_exists [OF assms(2)])
qed

text \<open>Without a \<open>Start\<close> no owner gains a running job.\<close>

lemma evolves_running_mono:
  assumes "evolves L db db'" and "\<And>l. l \<in> L \<Longrightarrow> quiet l"
  shows "rowcount (\<lambda>r. job_owner_id r = ow \<and> job_status r = RUNNING) (db_jobs db') \<le>
    rowcount (\<lambda>r. job_owner_id r = ow \<and> job_status r = RUNNING) (db_jobs db)"
  using assms(1) unfolding evolves_def
proof (induction rule: list_all2_induct)
  case (Cons r rs r' rs')
  have "job_status r' = RUNNING \<longrightarrow> job_status r = RUNNING"
    using moves_in_quiet [OF Cons.hyps(1) assms(2)] by simp
  moreover have "job_owner_id r' = job_owner_id r"
    using moves_in_identity [OF Cons.hyps(1)] by (simp add: same_identity_def)
  ultimately show ?case using Cons.IH by (auto simp: rowcount_def)
qed simp

section \<open>The conditional updates are moves\<close>

lemmas moves_intros = moves.intros

lemma mark_queued_evolves: "evolves {Queue} db (snd (mark_queued i now db))"
  unfolding mark_queued_def snd_update_jobs
  by (rule update_where_evolves [where l = Queue]) (auto intro: moves_intros)

lemma mark_running_evolves:
  assumes "\<And>r. r \<in> set (db_jobs db) \<Longrightarrow> job_id r = i \<Longrightarrow> job_attempt_count r + 1 \<le> 4"
  shows "evolves {Start tok} db (snd (mark_running i w tok now lease db))"
  unfolding mark_running_def snd_update_jobs
  by (rule update_where_evolves [where l = "Start tok"]) (auto intro: moves_intros assms)

lemma mark_completed_evolves: "evolves {Complete} db (snd (mark_completed i tok now db))"
  unfolding mark_completed_def snd_update_jobs
  by (rule update_where_evolves [where l = Complete]) (auto intro: moves_intros)

lemma mark_failed_evolves: "evolves {Fail} db (snd (mark_failed i tok now er db))"
  unfolding mark_failed_def snd_update_jobs
  by (rule update_where_evolves [where l = Fail]) (auto intro: moves_intros)

lemma requeue_running_evolves:
  assumes "\<And>r. r \<in> set (db_jobs db) \<Longrightarrow> job_id r = i \<Longrightarrow> job_execution_token r = Some tok \<Longrightarrow> job_attempt_count r < 4"
  shows "evolves {Requeue} db (snd (requeue_running i tok now er db))"
  unfolding requeue_running_def snd_update_jobs
  by (rule update_where_evolves [where l = Requeue]) (auto intro: moves_intros assms)

lemma cancel_pending_or_queued_evolves: "evolves {CancelIdle} db (snd (cancel_pending_or_queued i now db))"
  unfolding cancel_pending_or_queued_def snd_update_jobs
  by (rule update_where_evolves [where l = CancelIdle]) (auto intro: moves_intros)

lemma request_running_cancellation_evolves:
  "evolves {RequestCancel} db (snd (request_running_cancellation i now db))"
  unfolding request_running_cancellation_def snd_update_jobs
  by (rule update_where_evolves [where l = RequestCancel]) (auto intro: moves_intros)

lemma mark_cancelled_evolves: "evolves {CancelRunning} db (snd (mark_cancelled i tok now db))"
  unfolding mark_cancelled_def snd_update_jobs
  by (rule update_where_evolves [where l = CancelRunning]) (auto intro: moves_intros)

lemmas repository_evolves =
  mark_queued_evolves mark_running_evolves mark_completed_evolves mark_failed_evolves
  requeue_running_evolves cancel_pending_or_queued_evolves request_running_cancellation_evolves
  mark_cancelled_evolves

end
