(* ===== verification/Unit_Of_Work.thy ===== *)
theory Unit_Of_Work
  imports Schema
begin

text \<open>
  \<^verbatim>\<open>src/app/db/uow.py\<close>: the unit of work that owns transaction boundaries. \<open>uow_store\<close> is the
  committed database behind the session factory, \<open>uow_session\<close> the database as the session
  sees it (committed rows plus its own writes), \<open>uow_active\<close> whether \<^verbatim>\<open>_session\<close> is set.
  The locale states what clients rely on, a transaction publishes all of its writes or none,
  and is interpreted on the model of \<^verbatim>\<open>SqlAlchemyUnitOfWork\<close>.
\<close>

record unit_of_work =
  uow_store :: database
  uow_session :: database
  uow_active :: bool
  uow_committed :: bool

definition new_uow :: "database \<Rightarrow> unit_of_work" where
  "new_uow db = \<lparr>uow_store = db, uow_session = db, uow_active = False, uow_committed = False\<rparr>"

definition aenter :: "unit_of_work \<Rightarrow> unit_of_work" where
  "aenter u = u\<lparr>uow_session := uow_store u, uow_active := True, uow_committed := False\<rparr>"

definition aexit :: "bool \<Rightarrow> unit_of_work \<Rightarrow> unit_of_work" where
  "aexit raised u =
     (if \<not> uow_active u then u
      else let u' = (if raised \<or> \<not> uow_committed u then u\<lparr>uow_session := uow_store u\<rparr> else u)
           in u'\<lparr>uow_active := False\<rparr>)"

definition commit :: "bool \<Rightarrow> unit_of_work \<Rightarrow> exn + unit_of_work" where
  "commit ok u =
     (if \<not> uow_active u then Inl (RuntimeError ''UnitOfWork is not active'')
      else if ok then Inr (u\<lparr>uow_store := uow_session u, uow_committed := True\<rparr>)
      else Inl DatabaseError)"

definition rollback :: "unit_of_work \<Rightarrow> exn + unit_of_work" where
  "rollback u =
     (if \<not> uow_active u then Inl (RuntimeError ''UnitOfWork is not active'')
      else Inr (u\<lparr>uow_session := uow_store u, uow_committed := False\<rparr>))"

text \<open>A repository call works on the session: a query reads it, a statement replaces it.\<close>

definition exec :: "(database \<Rightarrow> 'a \<times> database) \<Rightarrow> unit_of_work \<Rightarrow> 'a \<times> unit_of_work" where
  "exec f u = (case f (uow_session u) of (a, d) \<Rightarrow> (a, u\<lparr>uow_session := d\<rparr>))"

definition exec_unit :: "(database \<Rightarrow> database) \<Rightarrow> unit_of_work \<Rightarrow> unit_of_work" where
  "exec_unit f u = u\<lparr>uow_session := f (uow_session u)\<rparr>"

text \<open>
  \<^verbatim>\<open>async with self._uow_factory() as uow: body\<close>. The body returns its result or the exception
  it raises, the unit of work it leaves, and what it did besides (notifications, messages).
\<close>

definition with_uow ::
  "(unit_of_work \<Rightarrow> (exn + 'a) \<times> unit_of_work \<times> 'n) \<Rightarrow> database \<Rightarrow> (exn + 'a) \<times> database \<times> 'n" where
  "with_uow body db =
     (case body (aenter (new_uow db)) of (r, u, n) \<Rightarrow> (r, uow_store (aexit (isl r) u), n))"

named_theorems uow_defs "definitions of the unit of work"
declare new_uow_def [uow_defs] aenter_def [uow_defs] aexit_def [uow_defs] commit_def [uow_defs]
  rollback_def [uow_defs] exec_def [uow_defs] exec_unit_def [uow_defs] with_uow_def [uow_defs]

section \<open>The contract\<close>

locale transaction_scope =
  fixes open_scope :: "'db \<Rightarrow> 'u"
    and write_session :: "('db \<Rightarrow> 'db) \<Rightarrow> 'u \<Rightarrow> 'u"
    and publish :: "bool \<Rightarrow> 'u \<Rightarrow> 'e + 'u"
    and discard :: "'u \<Rightarrow> 'e + 'u"
    and close_scope :: "bool \<Rightarrow> 'u \<Rightarrow> 'u"
    and visible :: "'u \<Rightarrow> 'db"
    and working :: "'u \<Rightarrow> 'db"
    and live :: "'u \<Rightarrow> bool"
  assumes visible_open: "visible (open_scope d) = d"
    and working_open: "working (open_scope d) = d"
    and live_open: "live (open_scope d)"
    and visible_write: "visible (write_session f u) = visible u"
    and working_write: "working (write_session f u) = f (working u)"
    and live_write: "live (write_session f u) = live u"
    and publish_ok: "live u \<Longrightarrow> \<exists>u'. publish True u = Inr u' \<and> visible u' = working u \<and> working u' = working u \<and> live u'"
    and publish_fail: "\<exists>x. publish False u = Inl x"
    and discard_ok: "live u \<Longrightarrow> \<exists>u'. discard u = Inr u' \<and> visible u' = visible u \<and> working u' = visible u \<and> live u'"
    and visible_close: "visible (close_scope x u) = visible u"
begin

definition run_writes :: "('db \<Rightarrow> 'db) list \<Rightarrow> 'u \<Rightarrow> 'u" where
  "run_writes fs u = fold write_session fs u"

lemma run_writes_props:
  "visible (run_writes fs u) = visible u \<and> working (run_writes fs u) = fold (\<lambda>f. f) fs (working u) \<and>
   live (run_writes fs u) = live u"
  unfolding run_writes_def
  by (induction fs arbitrary: u) (simp_all add: visible_write working_write live_write)

text \<open>All writes of a scope become visible together, or none does.\<close>

lemma committed_scope_publishes:
  "\<exists>u'. publish True (run_writes fs (open_scope d)) = Inr u' \<and>
     visible (close_scope x u') = fold (\<lambda>f. f) fs d"
  using publish_ok [of "run_writes fs (open_scope d)"] run_writes_props [of fs "open_scope d"]
  by (auto simp: live_open working_open visible_close)

lemma uncommitted_scope_discards: "visible (close_scope x (run_writes fs (open_scope d))) = d"
  using run_writes_props [of fs "open_scope d"] by (simp add: visible_close visible_open)

lemma rolled_back_scope_discards:
  "\<exists>u'. discard (run_writes fs (open_scope d)) = Inr u' \<and> visible (close_scope x u') = d \<and> working u' = d"
  using discard_ok [of "run_writes fs (open_scope d)"] run_writes_props [of fs "open_scope d"]
  by (auto simp: live_open visible_open visible_close)

end

interpretation sql_uow: transaction_scope
  "\<lambda>d. aenter (new_uow d)" exec_unit commit rollback aexit uow_store uow_session uow_active
  by unfold_locales (auto simp: uow_defs)

text \<open>
  A unit of work publishes all of its writes or none. Whatever writes the body makes, a
  successful COMMIT makes the database all of them applied in order; a failed COMMIT, a
  missing COMMIT or a rollback leaves the database as it was.
\<close>

lemma unit_of_work_atomic:
  "(\<exists>u. commit True (fold exec_unit ws (aenter (new_uow db))) = Inr u \<and>
        uow_store (aexit False u) = fold (\<lambda>w. w) ws db) \<and>
   commit False (fold exec_unit ws (aenter (new_uow db))) = Inl DatabaseError \<and>
   uow_store (aexit raised (fold exec_unit ws (aenter (new_uow db)))) = db \<and>
   (\<exists>u. rollback (fold exec_unit ws (aenter (new_uow db))) = Inr u \<and>
        uow_session u = db \<and> uow_store (aexit raised u) = db)"
proof -
  have "uow_active (fold exec_unit ws (aenter (new_uow db)))"
    using sql_uow.run_writes_props [of ws "aenter (new_uow db)"]
    by (simp add: sql_uow.run_writes_def sql_uow.live_open)
  then show ?thesis
    using sql_uow.committed_scope_publishes [of ws db False]
      sql_uow.uncommitted_scope_discards [of raised ws db]
      sql_uow.rolled_back_scope_discards [of ws db raised]
    by (auto simp: sql_uow.run_writes_def commit_def)
qed

end
