(* ===== verification/Job_Worker.thy ===== *)
theory Job_Worker
  imports Post_Commit Job_Lifecycle Unit_Of_Work
begin

text \<open>
  \<^verbatim>\<open>src/app/workers/job_worker.py\<close>: the consumer of dispatch messages. A message is validated,
  the job is claimed in one transaction (owner lock, job lock, capacity check, conditional
  update), the handler runs, and one further transaction records how it ended. Each
  transaction returns its result or the exception it raises, the committed database and the
  notifications it sent.
\<close>

section \<open>Constants and data\<close>

definition CAPACITY_DEFER_SECONDS :: int where
  "CAPACITY_DEFER_SECONDS = 3"

definition MAX_JOB_ERROR_LENGTH :: nat where
  "MAX_JOB_ERROR_LENGTH = 1000"

definition MAX_TOTAL_JOB_ATTEMPTS :: int where
  "MAX_TOTAL_JOB_ATTEMPTS = 4"

definition RETRY_BACKOFF_SECONDS_BY_ATTEMPT :: "int \<rightharpoonup> int" where
  "RETRY_BACKOFF_SECONDS_BY_ATTEMPT = [1 \<mapsto> 5, 2 \<mapsto> 15, 3 \<mapsto> 30]"

record execution_claim =
  cl_job :: job_execution_dto
  cl_execution_token :: uuid
  cl_attempt_number :: int

record message =
  msg_body :: string
  msg_message_id :: "string option"
  msg_correlation_id :: "string option"

datatype delivery = Ack | Reject

type_synonym 'a txn = "(exn + 'a) \<times> database \<times> notification list"

definition truncate_job_error :: "string \<Rightarrow> string" where
  "truncate_job_error error = truncate_to MAX_JOB_ERROR_LENGTH error"

definition max_total_attempts :: "job_execution_dto \<Rightarrow> int" where
  "max_total_attempts job = min (je_max_retries job + 1) MAX_TOTAL_JOB_ATTEMPTS"

definition retry_backoff_seconds :: "int \<Rightarrow> exn + int" where
  "retry_backoff_seconds attempt_number =
     (case RETRY_BACKOFF_SECONDS_BY_ATTEMPT attempt_number of
        None \<Rightarrow> Inl (KeyError (str_int attempt_number))
      | Some d \<Rightarrow> Inr d)"

definition job_notification :: "uuid \<Rightarrow> uuid \<Rightarrow> JobStatus \<Rightarrow> int \<Rightarrow> datetime \<Rightarrow> notification" where
  "job_notification i owner_id status attempt_count committed_at =
     \<lparr>nt_job_id = i, nt_owner_id = owner_id, nt_status = status, nt_attempt_count = attempt_count,
      nt_committed_at = committed_at, nt_cancel_requested_at = None\<rparr>"

section \<open>Claiming (\<^verbatim>\<open>_claim_execution\<close>)\<close>

text \<open>The branch for a queued job that has used up its attempts.\<close>

definition claim_exhausted ::
  "env \<Rightarrow> job_execution_dto \<Rightarrow> unit_of_work \<Rightarrow> (exn + execution_claim option) \<times> unit_of_work \<times> notification list" where
  "claim_exhausted e job u =
     (let now = clock_now e 0;
          (failed, u1) = exec (mark_failed_without_execution (je_id job) QUEUED now
                                 ''Job exceeded the maximum execution attempts'') u
      in if failed
         then let u2 = exec_unit (create_system_log e 0 0 (je_id job) ''error''
                         ''Job failed before execution because it exceeded the maximum attempts'') u1
              in (case commit (commit_ok e 0) u2 of
                    Inl x \<Rightarrow> (Inl x, u2, [])
                  | Inr u3 \<Rightarrow>
                      (Inr None, u3,
                       [job_notification (je_id job) (je_owner_id job) FAILED (je_attempt_count job) now]))
         else (Inr None, u1, []))"

text \<open>The branch for an owner who is at the running-job limit.\<close>

definition claim_defer ::
  "runtime \<Rightarrow> env \<Rightarrow> job_execution_dto \<Rightarrow> unit_of_work \<Rightarrow> (exn + execution_claim option) \<times> unit_of_work \<times> notification list" where
  "claim_defer rt e job u =
     (let now = clock_now e 0;
          defer_until = now + timedelta_seconds CAPACITY_DEFER_SECONDS;
          (deferred_event, u1) = exec (create_dispatch_event_if_absent (rt_codec rt) e 1 0 (je_id job) defer_until) u;
          u2 = (if deferred_event \<noteq> None
                then exec_unit (create_system_log e 0 1 (je_id job) ''info''
                       ''Job dispatch deferred because the owner reached the running-job limit'') u1
                else u1)
      in case commit (commit_ok e 0) u2 of
           Inl x \<Rightarrow> (Inl x, u2, [])
         | Inr u3 \<Rightarrow>
             (Inr None, u3, [job_notification (je_id job) (je_owner_id job) QUEUED (je_attempt_count job) now]))"

text \<open>The branch that takes the job.\<close>

definition claim_start ::
  "runtime \<Rightarrow> string \<Rightarrow> env \<Rightarrow> job_execution_dto \<Rightarrow> unit_of_work \<Rightarrow> (exn + execution_claim option) \<times> unit_of_work \<times> notification list" where
  "claim_start rt worker_id e job u =
     (let now = clock_now e 0;
          execution_token = uuid4 e 0;
          next_attempt_number = je_attempt_count job + 1;
          (claimed, u1) = exec (mark_running (je_id job) worker_id execution_token now
                             (now + timedelta_seconds (job_lease_seconds (rt_settings rt)))) u
      in if \<not> claimed then (Inr None, u1, [])
         else let u2 = exec_unit (create_system_log e 0 0 (je_id job) ''info'' ''Job execution started'') u1
              in (case commit (commit_ok e 0) u2 of
                    Inl x \<Rightarrow> (Inl x, u2, [])
                  | Inr u3 \<Rightarrow>
                      (Inr (Some \<lparr>cl_job = job, cl_execution_token = execution_token,
                                  cl_attempt_number = next_attempt_number\<rparr>), u3,
                       [job_notification (je_id job) (je_owner_id job) RUNNING next_attempt_number now])))"

definition claim_body ::
  "runtime \<Rightarrow> string \<Rightarrow> env \<Rightarrow> dispatch_message \<Rightarrow> unit_of_work \<Rightarrow> (exn + execution_claim option) \<times> unit_of_work \<times> notification list" where
  "claim_body rt worker_id e m u =
     (case get_owner_id (dm_job_id m) (uow_session u) of
        None \<Rightarrow> (Inr None, u, [])
      | Some owner_id \<Rightarrow>
          (case lock_by_id owner_id (uow_session u) of
             None \<Rightarrow> (Inr None, u, [])
           | Some _ \<Rightarrow>
               (case get_execution_candidate_for_update (dm_job_id m) (uow_session u) of
                  None \<Rightarrow> (Inr None, u, [])
                | Some job \<Rightarrow>
                    if je_status job = PENDING then (Inr None, u, [])
                    else if je_status job = RUNNING then (Inr None, u, [])
                    else if je_status job \<in> {COMPLETED, FAILED, CANCELLED} then (Inr None, u, [])
                    else if je_attempt_count job + 1 > max_total_attempts job then claim_exhausted e job u
                    else if count_running_for_owner owner_id (uow_session u)
                              \<ge> job_max_running_per_user (rt_settings rt)
                         then claim_defer rt e job u
                    else claim_start rt worker_id e job u)))"

definition claim_execution ::
  "runtime \<Rightarrow> string \<Rightarrow> env \<Rightarrow> dispatch_message \<Rightarrow> database \<Rightarrow> execution_claim option txn" where
  "claim_execution rt worker_id e m db = with_uow (claim_body rt worker_id e m) db"

section \<open>Recording the end of an execution\<close>

text \<open>
  \<^verbatim>\<open>_is_cancellation_requested\<close> on the database its transaction reads. That transaction can fail; the
  answer of one call is \<open>poll_answer\<close>, where \<open>ok\<close> says whether the database answered.
\<close>

definition is_cancellation_requested :: "execution_claim \<Rightarrow> database \<Rightarrow> bool" where
  "is_cancellation_requested claim db =
     (case get_execution_candidate_for_update (je_id (cl_job claim)) db of
        None \<Rightarrow> True
      | Some current_job \<Rightarrow>
          if je_execution_token current_job \<noteq> Some (cl_execution_token claim) then True
          else je_cancel_requested_at current_job \<noteq> None)"

definition poll_answer :: "bool \<Rightarrow> execution_claim \<Rightarrow> database \<Rightarrow> poll" where
  "poll_answer ok claim db = (if ok then Inr (is_cancellation_requested claim db) else Inl DatabaseError)"

definition worker_mark_completed :: "env \<Rightarrow> execution_claim \<Rightarrow> database \<Rightarrow> unit txn" where
  "worker_mark_completed e claim db =
     (let now = clock_now e 0 in
      with_uow (\<lambda>u.
        let (completed, u1) = exec (mark_completed (je_id (cl_job claim)) (cl_execution_token claim) now) u
        in if completed
           then let u2 = exec_unit (create_system_log e 0 0 (je_id (cl_job claim)) ''info'' ''Job completed'') u1
                in (case commit (commit_ok e 0) u2 of
                      Inl x \<Rightarrow> (Inl x, u2, [])
                    | Inr u3 \<Rightarrow>
                        (Inr (), u3,
                         [job_notification (je_id (cl_job claim)) (je_owner_id (cl_job claim)) COMPLETED
                            (cl_attempt_number claim) now]))
           else (Inr (), u1, [])) db)"

definition worker_mark_cancelled :: "env \<Rightarrow> execution_claim \<Rightarrow> database \<Rightarrow> unit txn" where
  "worker_mark_cancelled e claim db =
     (let now = clock_now e 0 in
      with_uow (\<lambda>u.
        let (cancelled, u1) = exec (mark_cancelled (je_id (cl_job claim)) (cl_execution_token claim) now) u
        in if \<not> cancelled then (Inr (), u1, [])
           else let u2 = exec_unit (create_system_log e 0 0 (je_id (cl_job claim)) ''info''
                           (''Job cancelled during attempt '' @ str_int (cl_attempt_number claim))) u1
                in (case commit (commit_ok e 0) u2 of
                      Inl x \<Rightarrow> (Inl x, u2, [])
                    | Inr u3 \<Rightarrow>
                        (Inr (), u3,
                         [job_notification (je_id (cl_job claim)) (je_owner_id (cl_job claim)) CANCELLED
                            (cl_attempt_number claim) now]))) db)"

definition worker_mark_failed :: "env \<Rightarrow> execution_claim \<Rightarrow> string \<Rightarrow> database \<Rightarrow> unit txn" where
  "worker_mark_failed e claim error db =
     (let now = clock_now e 0; error_message = truncate_job_error error in
      with_uow (\<lambda>u.
        let (failed, u1) = exec (mark_failed (je_id (cl_job claim)) (cl_execution_token claim) now error_message) u
        in if failed
           then let u2 = exec_unit (create_system_log e 0 0 (je_id (cl_job claim)) ''error''
                           (''Job attempt '' @ str_int (cl_attempt_number claim) @
                            '' became a final failure: '' @ error_message)) u1
                in (case commit (commit_ok e 0) u2 of
                      Inl x \<Rightarrow> (Inl x, u2, [])
                    | Inr u3 \<Rightarrow>
                        (Inr (), u3,
                         [job_notification (je_id (cl_job claim)) (je_owner_id (cl_job claim)) FAILED
                            (cl_attempt_number claim) now]))
           else (Inr (), u1, [])) db)"

definition schedule_retry :: "runtime \<Rightarrow> env \<Rightarrow> execution_claim \<Rightarrow> string \<Rightarrow> database \<Rightarrow> unit txn" where
  "schedule_retry rt e claim error db =
     (let now = clock_now e 0; error_message = truncate_job_error error in
      case retry_backoff_seconds (cl_attempt_number claim) of
        Inl x \<Rightarrow> (Inl x, db, [])
      | Inr retry_delay_seconds \<Rightarrow>
          (let retry_available_at = now + timedelta_seconds retry_delay_seconds in
           with_uow (\<lambda>u.
             let (requeued, u1) = exec (requeue_running (je_id (cl_job claim)) (cl_execution_token claim) now error_message) u
             in if requeued
                then let u2 = exec_unit (\<lambda>d. snd (create_dispatch_event_if_absent (rt_codec rt) e 0 0
                                (je_id (cl_job claim)) retry_available_at d)) u1;
                         u3 = exec_unit (create_system_log e 0 1 (je_id (cl_job claim)) ''warning''
                                (''Job attempt '' @ str_int (cl_attempt_number claim) @
                                 '' failed and was queued for retry in '' @ str_int retry_delay_seconds @
                                 '' seconds: '' @ error_message)) u2
                     in (case commit (commit_ok e 0) u3 of
                           Inl x \<Rightarrow> (Inl x, u3, [])
                         | Inr u4 \<Rightarrow>
                             (Inr (), u4,
                              [job_notification (je_id (cl_job claim)) (je_owner_id (cl_job claim)) QUEUED
                                 (cl_attempt_number claim) now]))
                else (Inr (), u1, [])) db))"

definition finalize_failure :: "runtime \<Rightarrow> env \<Rightarrow> execution_claim \<Rightarrow> string \<Rightarrow> database \<Rightarrow> unit txn" where
  "finalize_failure rt e claim error db =
     (if cl_attempt_number claim \<ge> max_total_attempts (cl_job claim)
      then worker_mark_failed e claim error db
      else schedule_retry rt e claim error db)"

text \<open>
  \<^verbatim>\<open>_execute_claim\<close>: run the handler on the poll answers received so far, and record how it
  ended; \<open>None\<close> while the handler is still running.
\<close>

definition run_handler :: "runtime \<Rightarrow> execution_claim \<Rightarrow> poll list \<Rightarrow> run" where
  "run_handler rt claim polls =
     (case registry_get (rt_registry rt) (je_type (cl_job claim)) of
        Inl x \<Rightarrow> Raised x
      | Inr handler \<Rightarrow> execute (rt_float_str rt) handler (je_payload (cl_job claim)) polls)"

definition execute_claim ::
  "runtime \<Rightarrow> env \<Rightarrow> execution_claim \<Rightarrow> poll list \<Rightarrow> database \<Rightarrow> unit txn option" where
  "execute_claim rt e claim polls db =
     (case run_handler rt claim polls of
        Suspended \<Rightarrow> None
      | Raised (JobCancellationRequestedError m) \<Rightarrow> Some (worker_mark_cancelled e claim db)
      | Raised (MissingJobHandlerError m) \<Rightarrow>
          Some (worker_mark_failed e claim (str_exn (rt_exn_text rt) (MissingJobHandlerError m)) db)
      | Raised (JobExecutionError m) \<Rightarrow>
          Some (finalize_failure rt e claim (str_exn (rt_exn_text rt) (JobExecutionError m)) db)
      | Raised x \<Rightarrow> Some (finalize_failure rt e claim (str_exn (rt_exn_text rt) x) db)
      | Returned \<Rightarrow> Some (worker_mark_completed e claim db))"

section \<open>Handling a message\<close>

text \<open>
  The first half of \<^verbatim>\<open>handle_message\<close>, up to the claim: an invalid body is rejected without
  requeue, a message that yields no claim is acknowledged, an exception leaves it
  unacknowledged, and a claim is what the second half executes.
\<close>

datatype received =
    Settled delivery
  | Claimed execution_claim
  | Unsettled exn

definition receive_message ::
  "runtime \<Rightarrow> string \<Rightarrow> env \<Rightarrow> message \<Rightarrow> database \<Rightarrow> received \<times> database \<times> notification list" where
  "receive_message rt worker_id e msg db =
     (case model_validate_json (rt_codec rt) (msg_body msg) of
        Inl _ \<Rightarrow> (Settled Reject, db, [])
      | Inr dispatch \<Rightarrow>
          (case claim_execution rt worker_id e dispatch db of
             (Inl x, db', ns) \<Rightarrow> (Unsettled x, db', ns)
           | (Inr None, db', ns) \<Rightarrow> (Settled Ack, db', ns)
           | (Inr (Some claim), db', ns) \<Rightarrow> (Claimed claim, db', ns)))"

text \<open>
  \<^verbatim>\<open>handle_message\<close> as a whole when nothing else touches the database meanwhile: the
  delivery settled, \<open>None\<close> while the handler still runs; an exception is \<open>Unsettled\<close>.
\<close>

definition handle_message ::
  "runtime \<Rightarrow> string \<Rightarrow> env \<Rightarrow> env \<Rightarrow> message \<Rightarrow> poll list \<Rightarrow> database
    \<Rightarrow> (received \<times> database \<times> notification list) option" where
  "handle_message rt worker_id e e' msg polls db =
     (case receive_message rt worker_id e msg db of
        (Claimed claim, db1, ns) \<Rightarrow>
          (case execute_claim rt e' claim polls db1 of
             None \<Rightarrow> None
           | Some (Inl x, db2, ns') \<Rightarrow> Some (Unsettled x, db2, ns @ ns')
           | Some (Inr _, db2, ns') \<Rightarrow> Some (Settled Ack, db2, ns @ ns'))
      | r \<Rightarrow> Some r)"

section \<open>The transactions in closed form\<close>

text \<open>
  A transaction that made its change and committed, the same that could not commit, and one
  that found nothing to change.
\<close>

definition settle :: "bool \<Rightarrow> bool \<Rightarrow> 'a \<Rightarrow> database \<Rightarrow> notification list \<Rightarrow> 'a \<Rightarrow> database \<Rightarrow> 'a txn" where
  "settle changed ok v db' ns w db =
     (if \<not> changed then (Inr w, db, []) else if ok then (Inr v, db', ns) else (Inl DatabaseError, db, []))"

lemma worker_mark_completed_eq:
  "worker_mark_completed e c db =
     settle (fst (mark_completed (je_id (cl_job c)) (cl_execution_token c) (clock_now e 0) db)) (commit_ok e 0) ()
       (create_system_log e 0 0 (je_id (cl_job c)) ''info'' ''Job completed''
         (snd (mark_completed (je_id (cl_job c)) (cl_execution_token c) (clock_now e 0) db)))
       [job_notification (je_id (cl_job c)) (je_owner_id (cl_job c)) COMPLETED (cl_attempt_number c) (clock_now e 0)] () db"
  by (simp add: worker_mark_completed_def settle_def uow_defs Let_def split_def)

lemma worker_mark_cancelled_eq:
  "worker_mark_cancelled e c db =
     settle (fst (mark_cancelled (je_id (cl_job c)) (cl_execution_token c) (clock_now e 0) db)) (commit_ok e 0) ()
       (create_system_log e 0 0 (je_id (cl_job c)) ''info''
         (''Job cancelled during attempt '' @ str_int (cl_attempt_number c))
         (snd (mark_cancelled (je_id (cl_job c)) (cl_execution_token c) (clock_now e 0) db)))
       [job_notification (je_id (cl_job c)) (je_owner_id (cl_job c)) CANCELLED (cl_attempt_number c) (clock_now e 0)] () db"
  by (simp add: worker_mark_cancelled_def settle_def uow_defs Let_def split_def)

lemma worker_mark_failed_eq:
  "worker_mark_failed e c er db =
     settle (fst (mark_failed (je_id (cl_job c)) (cl_execution_token c) (clock_now e 0) (truncate_job_error er) db))
       (commit_ok e 0) ()
       (create_system_log e 0 0 (je_id (cl_job c)) ''error''
         (''Job attempt '' @ str_int (cl_attempt_number c) @ '' became a final failure: '' @ truncate_job_error er)
         (snd (mark_failed (je_id (cl_job c)) (cl_execution_token c) (clock_now e 0) (truncate_job_error er) db)))
       [job_notification (je_id (cl_job c)) (je_owner_id (cl_job c)) FAILED (cl_attempt_number c) (clock_now e 0)] () db"
  by (simp add: worker_mark_failed_def settle_def uow_defs Let_def split_def)

definition retry_db :: "runtime \<Rightarrow> env \<Rightarrow> execution_claim \<Rightarrow> string \<Rightarrow> int \<Rightarrow> database \<Rightarrow> database" where
  "retry_db rt e c er d db =
     create_system_log e 0 1 (je_id (cl_job c)) ''warning''
       (''Job attempt '' @ str_int (cl_attempt_number c) @ '' failed and was queued for retry in '' @
        str_int d @ '' seconds: '' @ truncate_job_error er)
       (snd (create_dispatch_event_if_absent (rt_codec rt) e 0 0 (je_id (cl_job c))
         (clock_now e 0 + timedelta_seconds d)
         (snd (requeue_running (je_id (cl_job c)) (cl_execution_token c) (clock_now e 0) (truncate_job_error er) db))))"

lemma schedule_retry_eq:
  assumes "retry_backoff_seconds (cl_attempt_number c) = Inr d"
  shows "schedule_retry rt e c er db =
     settle (fst (requeue_running (je_id (cl_job c)) (cl_execution_token c) (clock_now e 0) (truncate_job_error er) db))
       (commit_ok e 0) () (retry_db rt e c er d db)
       [job_notification (je_id (cl_job c)) (je_owner_id (cl_job c)) QUEUED (cl_attempt_number c) (clock_now e 0)] () db"
  using assms by (simp add: schedule_retry_def settle_def retry_db_def uow_defs Let_def split_def)

definition defer_db :: "runtime \<Rightarrow> env \<Rightarrow> uuid \<Rightarrow> database \<Rightarrow> database" where
  "defer_db rt e i db =
     (case create_dispatch_event_if_absent (rt_codec rt) e 1 0 i
             (clock_now e 0 + timedelta_seconds CAPACITY_DEFER_SECONDS) db of
        (None, d) \<Rightarrow> d
      | (Some _, d) \<Rightarrow> create_system_log e 0 1 i ''info''
          ''Job dispatch deferred because the owner reached the running-job limit'' d)"

lemma defer_db_jobs [simp]: "db_jobs (defer_db rt e i db) = db_jobs db"
  by (simp add: defer_db_def split_def split: option.split)

definition start_db :: "runtime \<Rightarrow> string \<Rightarrow> env \<Rightarrow> uuid \<Rightarrow> database \<Rightarrow> database" where
  "start_db rt w e i db =
     create_system_log e 0 0 i ''info'' ''Job execution started''
       (snd (mark_running i w (uuid4 e 0) (clock_now e 0)
         (clock_now e 0 + timedelta_seconds (job_lease_seconds (rt_settings rt))) db))"

definition claim_of :: "env \<Rightarrow> job \<Rightarrow> execution_claim" where
  "claim_of e r = \<lparr>cl_job = to_job_execution_dto r, cl_execution_token = uuid4 e 0,
                  cl_attempt_number = job_attempt_count r + 1\<rparr>"

lemma max_total_attempts_row: "job_ok r \<Longrightarrow> max_total_attempts (to_job_execution_dto r) = 4"
  by (simp add: max_total_attempts_def MAX_TOTAL_JOB_ATTEMPTS_def job_ok_def)

lemma claim_missing:
  "scalar_where (\<lambda>r. job_id r = dm_job_id m) (db_jobs db) = None \<Longrightarrow>
    claim_execution rt w e m db = (Inr None, db, [])"
  by (simp add: claim_execution_def claim_body_def get_owner_id_def uow_defs)

text \<open>On a well-formed database the outcome depends on the row alone.\<close>

lemma claim_execution_eq:
  assumes ok: "db_ok c db" and r: "r \<in> set (db_jobs db)" "job_id r = dm_job_id m"
  shows "claim_execution rt w e m db =
    (if job_status r \<noteq> QUEUED then (Inr None, db, [])
     else if count_running_for_owner (job_owner_id r) db \<ge> job_max_running_per_user (rt_settings rt)
       then settle True (commit_ok e 0) None (defer_db rt e (job_id r) db)
              [job_notification (job_id r) (job_owner_id r) QUEUED (job_attempt_count r) (clock_now e 0)] None db
     else settle True (commit_ok e 0) (Some (claim_of e r)) (start_db rt w e (job_id r) db)
              [job_notification (job_id r) (job_owner_id r) RUNNING (job_attempt_count r + 1) (clock_now e 0)] None db)"
proof -
  have look: "scalar_where (\<lambda>r. job_id r = dm_job_id m) (db_jobs db) = Some r"
    using ok r by (simp add: job_lookup_iff db_ok_keys)
  obtain u where lock: "lock_by_id (job_owner_id r) db = Some u"
    using db_ok_owner_lock [OF ok r(1)] by blast
  have row: "job_ok r" using db_ok_row [OF ok r(1)] by simp
  have go: "fst (mark_running (job_id r) w tok now lease db)" if "job_status r = QUEUED" for tok now lease
    unfolding mark_running_def using db_ok_keys [OF ok] that r(1) by (subst fst_update_jobs) auto
  note simps = claim_execution_def claim_body_def get_owner_id_def get_execution_candidate_for_update_def
    look lock uow_defs r(2) [symmetric]
  show ?thesis
  proof (cases "job_status r = QUEUED")
    case True
    then have "job_attempt_count r + 1 \<le> 4" using row by (simp add: job_ok_def)
    with True show ?thesis using look lock
      by (simp add: simps max_total_attempts_row [OF row] claim_defer_def claim_start_def go settle_def
          defer_db_def start_db_def claim_of_def Let_def split_def r(2) [symmetric] split: option.split)
  next
    case False
    with look lock show ?thesis by (cases "job_status r") (simp_all add: simps)
  qed
qed

end
