(* ===== verification/Outbox_Publisher.thy ===== *)
theory Outbox_Publisher
  imports Job_Worker
begin

text \<open>
  \<^verbatim>\<open>src/app/workers/outbox_publisher.py\<close> with the message that
  \<^verbatim>\<open>RabbitMQDispatchPublisher\<close> (\<^verbatim>\<open>src/app/infrastructure/rabbitmq/topology.py\<close>) sends. One
  outbox event is processed in one transaction: the event row and the job row are locked,
  the job is moved to \<^verbatim>\<open>queued\<close>, the message is published, the event is marked. A failure
  rolls all of it back and records the failure in a second transaction.
\<close>

section \<open>Definitions\<close>

definition MAX_OUTBOX_BACKOFF_SECONDS :: int where
  "MAX_OUTBOX_BACKOFF_SECONDS = 300"

definition MAX_OUTBOX_ERROR_LENGTH :: nat where
  "MAX_OUTBOX_ERROR_LENGTH = 1000"

definition truncate_outbox_error :: "string \<Rightarrow> string" where
  "truncate_outbox_error error = truncate_to MAX_OUTBOX_ERROR_LENGTH error"

definition compute_retry_delay_seconds :: "int \<Rightarrow> int" where
  "compute_retry_delay_seconds next_attempt_number =
     min (2 ^ nat (max (next_attempt_number - 1) 0)) MAX_OUTBOX_BACKOFF_SECONDS"

text \<open>
  What the broker does with a publish: with publisher confirms a normal return means the
  message is in the exchange; a publish that raises may or may not have been taken.
\<close>

datatype publish_result = Confirmed | RaisedTaken exn | RaisedLost exn

definition dispatch_amqp_message :: "codec \<Rightarrow> outbox_event \<Rightarrow> dispatch_message \<Rightarrow> message" where
  "dispatch_amqp_message c ev m =
     \<lparr>msg_body = model_dump_json c m, msg_message_id = Some (enc_uuid c (ev_id ev)),
      msg_correlation_id = Some (enc_uuid c (dm_job_id m))\<rparr>"

definition publish_dispatch ::
  "codec \<Rightarrow> publish_result \<Rightarrow> outbox_event \<Rightarrow> dispatch_message \<Rightarrow> exn option \<times> message list" where
  "publish_dispatch c pr ev m =
     (case pr of
        Confirmed \<Rightarrow> (None, [dispatch_amqp_message c ev m])
      | RaisedTaken x \<Rightarrow> (Some x, [dispatch_amqp_message c ev m])
      | RaisedLost x \<Rightarrow> (Some x, []))"

definition discard_non_dispatchable_event ::
  "env \<Rightarrow> outbox_event \<Rightarrow> JobStatus \<Rightarrow> database \<Rightarrow> database" where
  "discard_non_dispatchable_event e ev status db =
     mark_published (ev_id ev) (clock_now e 1)
       (create_system_log e 0 0 (ev_aggregate_id ev) ''info''
         (''Dispatch skipped because job is not dispatchable (status='' @ JobStatus_value status @ '')'') db)"

text \<open>How the transaction ended: the value to return, or a failure still to be recorded.\<close>

datatype processed = Done bool | PublishFailed outbox_event string

text \<open>The body of the \<^verbatim>\<open>try\<close> block: the exception caught, or the early return, or success.\<close>

datatype attempt = Caught exn | EarlyReturn | Proceed

definition try_publish ::
  "runtime \<Rightarrow> env \<Rightarrow> publish_result \<Rightarrow> outbox_event \<Rightarrow> stored_job_dto \<Rightarrow> unit_of_work
    \<Rightarrow> attempt \<times> unit_of_work \<times> message list" where
  "try_publish rt e pr ev job u =
     (case model_validate (rt_codec rt) (ev_payload ev) of
        Inl x \<Rightarrow> (Caught x, u, [])
      | Inr m \<Rightarrow>
          (let (queued, u1) = (if sj_status job = PENDING
                               then exec (mark_queued (sj_id job) (clock_now e 0)) u else (True, u))
           in if \<not> queued
              then let u2 = exec_unit (discard_non_dispatchable_event e ev (sj_status job)) u1
                   in (case commit (commit_ok e 0) u2 of
                         Inl x \<Rightarrow> (Caught x, u2, [])
                       | Inr u3 \<Rightarrow> (EarlyReturn, u3, []))
              else (case publish_dispatch (rt_codec rt) pr ev m of
                      (Some x, ms) \<Rightarrow> (Caught x, u1, ms)
                    | (None, ms) \<Rightarrow> (Proceed, u1, ms))))"

definition process_body ::
  "runtime \<Rightarrow> env \<Rightarrow> (uuid \<Rightarrow> bool) \<Rightarrow> publish_result \<Rightarrow> uuid \<Rightarrow> unit_of_work
    \<Rightarrow> (exn + processed) \<times> unit_of_work \<times> message list" where
  "process_body rt e locked pr event_id u =
     (case get_by_id_for_update_unpublished locked event_id (uow_session u) of
        None \<Rightarrow> (Inr (Done False), u, [])
      | Some ev \<Rightarrow>
          (case get_by_id_for_update (ev_aggregate_id ev) (uow_session u) of
             None \<Rightarrow>
               (let u1 = exec_unit (mark_published (ev_id ev) (clock_now e 1)) u
                in case commit (commit_ok e 0) u1 of
                     Inl x \<Rightarrow> (Inl x, u1, [])
                   | Inr u2 \<Rightarrow> (Inr (Done True), u2, []))
           | Some job \<Rightarrow>
               if sj_status job \<notin> {PENDING, QUEUED}
               then (let u1 = exec_unit (discard_non_dispatchable_event e ev (sj_status job)) u
                     in case commit (commit_ok e 0) u1 of
                          Inl x \<Rightarrow> (Inl x, u1, [])
                        | Inr u2 \<Rightarrow> (Inr (Done True), u2, []))
               else (case try_publish rt e pr ev job u of
                       (Caught x, u1, ms) \<Rightarrow>
                         (case rollback u1 of
                            Inl y \<Rightarrow> (Inl y, u1, ms)
                          | Inr u2 \<Rightarrow> (Inr (PublishFailed ev (str_exn (rt_exn_text rt) x)), u2, ms))
                     | (EarlyReturn, u1, ms) \<Rightarrow> (Inr (Done True), u1, ms)
                     | (Proceed, u1, ms) \<Rightarrow>
                         (let u2 = exec_unit (mark_published (ev_id ev) (clock_now e 1)) u1
                          in case commit (commit_ok e 0) u2 of
                               Inl x \<Rightarrow> (Inl x, u2, ms)
                             | Inr u3 \<Rightarrow> (Inr (Done True), u3, ms)))))"

text \<open>The second transaction of \<^verbatim>\<open>_record_failure_after_rollback\<close>.\<close>

definition record_failure :: "env \<Rightarrow> outbox_event \<Rightarrow> string \<Rightarrow> database \<Rightarrow> (exn + unit) \<times> database \<times> message list" where
  "record_failure e ev error db =
     (let next_available_at = clock_now e 2 +
            timedelta_seconds (compute_retry_delay_seconds (ev_publish_attempts ev + 1));
          error_message = truncate_outbox_error error
      in with_uow (\<lambda>u.
           let u1 = exec_unit (record_publish_failure e 3 (ev_id ev) error_message next_available_at) u
           in case commit (commit_ok e 1) u1 of
                Inl x \<Rightarrow> (Inl x, u1, [])
              | Inr u2 \<Rightarrow> (Inr (), u2, [])) db)"

text \<open>The first transaction, and both of them when nothing else commits in between.\<close>

definition process_claimed_event ::
  "runtime \<Rightarrow> env \<Rightarrow> (uuid \<Rightarrow> bool) \<Rightarrow> publish_result \<Rightarrow> uuid \<Rightarrow> database
    \<Rightarrow> (exn + processed) \<times> database \<times> message list" where
  "process_claimed_event rt e locked pr event_id db = with_uow (process_body rt e locked pr event_id) db"

fun publish_failures :: "exn + processed \<Rightarrow> (outbox_event \<times> string) list" where
  "publish_failures (Inr (PublishFailed ev error)) = [(ev, error)]"
| "publish_failures _ = []"

definition process_claimed_event_once ::
  "runtime \<Rightarrow> env \<Rightarrow> (uuid \<Rightarrow> bool) \<Rightarrow> publish_result \<Rightarrow> uuid \<Rightarrow> database
    \<Rightarrow> (exn + bool) \<times> database \<times> message list" where
  "process_claimed_event_once rt e locked pr event_id db =
     (case process_claimed_event rt e locked pr event_id db of
        (Inl x, db', ms) \<Rightarrow> (Inl x, db', ms)
      | (Inr (Done b), db', ms) \<Rightarrow> (Inr b, db', ms)
      | (Inr (PublishFailed ev error), db', ms) \<Rightarrow>
          (case record_failure e ev error db' of
             (Inl x, db'', _) \<Rightarrow> (Inl x, db'', ms)
           | (Inr _, db'', _) \<Rightarrow> (Inr True, db'', ms)))"

text \<open>
  One poll of the publisher: the due events are claimed and released (the first unit of work
  exits without commit), then processed one by one; an exception ends the poll. \<open>es n\<close> and
  \<open>prs n\<close> are the inputs of the \<open>n\<close>th event.
\<close>

fun process_events ::
  "runtime \<Rightarrow> (nat \<Rightarrow> env) \<Rightarrow> (uuid \<Rightarrow> bool) \<Rightarrow> (nat \<Rightarrow> publish_result) \<Rightarrow> nat \<Rightarrow> uuid list \<Rightarrow> database
    \<Rightarrow> (exn + int) \<times> database \<times> message list" where
  "process_events rt es locked prs n [] db = (Inr 0, db, [])"
| "process_events rt es locked prs n (i # is) db =
     (case process_claimed_event_once rt (es n) locked (prs n) i db of
        (Inl x, db', ms) \<Rightarrow> (Inl x, db', ms)
      | (Inr b, db', ms) \<Rightarrow>
          (case process_events rt es locked prs (Suc n) is db' of
             (Inl x, db'', ms') \<Rightarrow> (Inl x, db'', ms @ ms')
           | (Inr k, db'', ms') \<Rightarrow> (Inr (k + of_bool b), db'', ms @ ms')))"

definition publish_due_batch_once ::
  "runtime \<Rightarrow> datetime \<Rightarrow> (nat \<Rightarrow> env) \<Rightarrow> (uuid \<Rightarrow> bool) \<Rightarrow> (nat \<Rightarrow> publish_result) \<Rightarrow> database
    \<Rightarrow> (exn + int) \<times> database \<times> message list" where
  "publish_due_batch_once rt now es locked prs db =
     process_events rt es locked prs 0
       (map ev_id (claim_due_batch locked now (outbox_batch_size (rt_settings rt)) db)) db"

section \<open>The transaction in closed form\<close>

definition publish_failure_db :: "env \<Rightarrow> outbox_event \<Rightarrow> string \<Rightarrow> database \<Rightarrow> database" where
  "publish_failure_db e ev error db =
     record_publish_failure e 3 (ev_id ev) (truncate_outbox_error error)
       (clock_now e 2 + timedelta_seconds (compute_retry_delay_seconds (ev_publish_attempts ev + 1))) db"

lemma record_failure_eq:
  "record_failure e ev error db =
     (if commit_ok e 1 then (Inr (), publish_failure_db e ev error db, []) else (Inl DatabaseError, db, []))"
  by (simp add: record_failure_def publish_failure_db_def uow_defs Let_def)

lemma event_skip:
  "get_by_id_for_update_unpublished locked i db = None \<Longrightarrow>
    process_claimed_event rt e locked pr i db = (Inr (Done False), db, [])"
  by (simp add: process_claimed_event_def process_body_def uow_defs)

lemma event_orphan:
  assumes "get_by_id_for_update_unpublished locked i db = Some ev" "get_by_id_for_update (ev_aggregate_id ev) db = None"
  shows "process_claimed_event rt e locked pr i db =
    (if commit_ok e 0 then (Inr (Done True), mark_published (ev_id ev) (clock_now e 1) db, []) else (Inl DatabaseError, db, []))"
  using assms by (simp add: process_claimed_event_def process_body_def uow_defs Let_def)

lemma event_discard:
  assumes "get_by_id_for_update_unpublished locked i db = Some ev" "get_by_id_for_update (ev_aggregate_id ev) db = Some job"
    and "sj_status job \<notin> {PENDING, QUEUED}"
  shows "process_claimed_event rt e locked pr i db =
    (if commit_ok e 0 then (Inr (Done True), discard_non_dispatchable_event e ev (sj_status job) db, [])
     else (Inl DatabaseError, db, []))"
  using assms by (simp add: process_claimed_event_def process_body_def uow_defs Let_def)

definition queued_db :: "env \<Rightarrow> job \<Rightarrow> database \<Rightarrow> database" where
  "queued_db e r db = (if job_status r = PENDING then snd (mark_queued (job_id r) (clock_now e 0) db) else db)"

lemma queued_db_frame [simp]:
  "db_users (queued_db e r db) = db_users db" "db_job_logs (queued_db e r db) = db_job_logs db"
  "db_outbox_events (queued_db e r db) = db_outbox_events db"
  by (simp_all add: queued_db_def mark_queued_def)

text \<open>
  For an event of a dispatchable job whose payload validates, the outcome is decided by the
  broker and by the COMMIT.
\<close>

lemma event_dispatch:
  assumes keys: "job_keys_ok db"
    and ev: "get_by_id_for_update_unpublished locked i db = Some ev"
    and r: "r \<in> set (db_jobs db)" "job_id r = ev_aggregate_id ev" "job_status r \<in> {PENDING, QUEUED}"
    and val: "model_validate (rt_codec rt) (ev_payload ev) = Inr m"
  shows "process_claimed_event rt e locked pr i db =
    (case pr of
       Confirmed \<Rightarrow>
         (if commit_ok e 0
          then (Inr (Done True), mark_published (ev_id ev) (clock_now e 1) (queued_db e r db),
                [dispatch_amqp_message (rt_codec rt) ev m])
          else (Inl DatabaseError, db, [dispatch_amqp_message (rt_codec rt) ev m]))
     | RaisedTaken x \<Rightarrow>
         (Inr (PublishFailed ev (str_exn (rt_exn_text rt) x)), db, [dispatch_amqp_message (rt_codec rt) ev m])
     | RaisedLost x \<Rightarrow> (Inr (PublishFailed ev (str_exn (rt_exn_text rt) x)), db, []))"
proof -
  have "scalar_where (\<lambda>r'. job_id r' = ev_aggregate_id ev) (db_jobs db) = Some r"
    using keys r by (simp add: job_lookup_iff)
  then have look: "get_by_id_for_update (ev_aggregate_id ev) db = Some (to_stored_job_dto r)"
    by (simp add: get_by_id_for_update_def)
  have queued: "fst (mark_queued (job_id r) now db)" if "job_status r = PENDING" for now
    unfolding mark_queued_def using keys that r(1) by (subst fst_update_jobs) auto
  note simps = process_claimed_event_def process_body_def try_publish_def publish_dispatch_def
    look ev val uow_defs Let_def split_def queued_db_def
  show ?thesis
  proof (cases "job_status r = PENDING")
    case True
    with ev look val queued show ?thesis by (cases pr) (simp_all add: simps)
  next
    case False
    with ev look val r(3) show ?thesis by (cases pr) (simp_all add: simps)
  qed
qed

text \<open>The two transactions one after the other.\<close>

lemma process_skip:
  "get_by_id_for_update_unpublished locked i db = None \<Longrightarrow>
    process_claimed_event_once rt e locked pr i db = (Inr False, db, [])"
  by (simp add: process_claimed_event_once_def event_skip)

lemma process_discard:
  assumes "get_by_id_for_update_unpublished locked i db = Some ev" "get_by_id_for_update (ev_aggregate_id ev) db = Some job"
    and "sj_status job \<notin> {PENDING, QUEUED}"
  shows "process_claimed_event_once rt e locked pr i db =
    (if commit_ok e 0 then (Inr True, discard_non_dispatchable_event e ev (sj_status job) db, [])
     else (Inl DatabaseError, db, []))"
  by (simp add: process_claimed_event_once_def event_discard [OF assms])

lemma process_dispatch:
  assumes "job_keys_ok db"
    and "get_by_id_for_update_unpublished locked i db = Some ev"
    and "r \<in> set (db_jobs db)" "job_id r = ev_aggregate_id ev" "job_status r \<in> {PENDING, QUEUED}"
    and "model_validate (rt_codec rt) (ev_payload ev) = Inr m"
  shows "process_claimed_event_once rt e locked pr i db =
    (case pr of
       Confirmed \<Rightarrow>
         (if commit_ok e 0
          then (Inr True, mark_published (ev_id ev) (clock_now e 1) (queued_db e r db),
                [dispatch_amqp_message (rt_codec rt) ev m])
          else (Inl DatabaseError, db, [dispatch_amqp_message (rt_codec rt) ev m]))
     | RaisedTaken x \<Rightarrow>
         (if commit_ok e 1
          then (Inr True, publish_failure_db e ev (str_exn (rt_exn_text rt) x) db, [dispatch_amqp_message (rt_codec rt) ev m])
          else (Inl DatabaseError, db, [dispatch_amqp_message (rt_codec rt) ev m]))
     | RaisedLost x \<Rightarrow>
         (if commit_ok e 1
          then (Inr True, publish_failure_db e ev (str_exn (rt_exn_text rt) x) db, [])
          else (Inl DatabaseError, db, [])))"
  by (cases pr) (simp_all add: process_claimed_event_once_def event_dispatch [OF assms] record_failure_eq)

section \<open>Rows after publishing\<close>

lemma published_event:
  "ev \<in> set (db_outbox_events db) \<Longrightarrow>
    \<exists>ev' \<in> set (db_outbox_events (mark_published (ev_id ev) now db)). ev_id ev' = ev_id ev \<and> ev_published_at ev' = Some now"
  by (rule bexI [of _ "ev\<lparr>ev_published_at := Some now, ev_last_error := None, ev_updated_at := now\<rparr>"])
    (auto simp: mark_published_def set_update_where)

lemma failed_event:
  assumes "ev \<in> set (db_outbox_events db)" and "ev_published_at ev = None"
  shows "\<exists>ev' \<in> set (db_outbox_events (record_publish_failure e k (ev_id ev) er t db)). ev_id ev' = ev_id ev \<and>
    ev_published_at ev' = None \<and> ev_publish_attempts ev' = ev_publish_attempts ev + 1 \<and> ev_available_at ev' = t"
  using assms
  by (intro bexI [of _ "ev\<lparr>ev_publish_attempts := ev_publish_attempts ev + 1, ev_last_error := Some er,
      ev_available_at := t, ev_updated_at := utc_now e k\<rparr>"])
    (auto simp: record_publish_failure_def set_update_where)

lemma queued_row:
  assumes "r \<in> set (db_jobs db)" and "job_status r \<in> {PENDING, QUEUED}"
  shows "\<exists>r' \<in> set (db_jobs (queued_db e r db)). job_id r' = job_id r \<and> job_status r' = QUEUED"
proof (cases "job_status r = PENDING")
  case True
  with assms(1) show ?thesis
    by (intro bexI [of _ "r\<lparr>job_status := QUEUED, job_updated_at := clock_now e 0\<rparr>"])
      (auto simp: queued_db_def mark_queued_def snd_update_jobs set_update_where)
qed (use assms in \<open>auto simp: queued_db_def\<close>)

text \<open>
  What a publish that raised leaves, given how the second transaction ended: the event waits for
  another try, or nothing has changed.
\<close>

definition unpublished_again :: "env \<Rightarrow> outbox_event \<Rightarrow> database \<Rightarrow> exn + bool \<Rightarrow> database \<Rightarrow> bool" where
  "unpublished_again e ev db res db' \<longleftrightarrow>
     (if commit_ok e 1
      then res = Inr True \<and> db_jobs db' = db_jobs db \<and>
        (\<exists>ev' \<in> set (db_outbox_events db'). ev_id ev' = ev_id ev \<and> ev_published_at ev' = None \<and>
           ev_publish_attempts ev' = ev_publish_attempts ev + 1 \<and>
           ev_available_at ev' = clock_now e 2 + timedelta_seconds (compute_retry_delay_seconds (ev_publish_attempts ev + 1)))
      else res = Inl DatabaseError \<and> db' = db)"

text \<open>
  The publisher's retry delay doubles from one second with each failed attempt, stays
  between 1 and 300 seconds, and never decreases as attempts accumulate.
\<close>

lemma publisher_backoff:
  "1 \<le> compute_retry_delay_seconds n \<and> compute_retry_delay_seconds n \<le> 300 \<and>
   compute_retry_delay_seconds n \<le> compute_retry_delay_seconds (n + 1) \<and>
   map compute_retry_delay_seconds [1, 2, 3, 4, 9, 10] = [1, 2, 4, 8, 256, 300]"
proof -
  have "(2 :: int) ^ nat (max (n - 1) 0) \<le> 2 ^ nat (max (n + 1 - 1) 0)"
    by (rule power_increasing) auto
  then have mono: "compute_retry_delay_seconds n \<le> compute_retry_delay_seconds (n + 1)"
    unfolding compute_retry_delay_seconds_def by (rule min.mono) simp
  have low: "1 \<le> compute_retry_delay_seconds n"
    by (simp add: compute_retry_delay_seconds_def MAX_OUTBOX_BACKOFF_SECONDS_def)
  have high: "compute_retry_delay_seconds n \<le> 300"
    unfolding compute_retry_delay_seconds_def MAX_OUTBOX_BACKOFF_SECONDS_def by (rule min.cobounded2)
  have "map compute_retry_delay_seconds [1, 2, 3, 4, 9, 10] = [1, 2, 4, 8, 256, 300]"
    by code_simp
  with mono low high show ?thesis by blast
qed

end
