(* ===== verification/Stale_Recovery.thy ===== *)
theory Stale_Recovery
  imports Job_Worker
begin

text \<open>
  \<^verbatim>\<open>src/app/workers/stale_running_recovery.py\<close>: the jobs whose lease has expired are locked
  and, in the same transaction, requeued or failed. The batch is shown to rewrite exactly the
  claimed rows, each by \<open>recover_row\<close>, and to leave an unpublished dispatch event for every
  job it requeues.
\<close>

section \<open>Definitions\<close>

definition RECOVERY_FINAL_FAILURE_MESSAGE :: string where
  "RECOVERY_FINAL_FAILURE_MESSAGE = ''Job failed after stale running recovery exhausted retries''"

definition RECOVERY_REQUEUE_MESSAGE :: string where
  "RECOVERY_REQUEUE_MESSAGE = ''Job recovered from stale running state and queued for retry''"

definition recovery_max_total_attempts :: "job_execution_dto \<Rightarrow> int" where
  "recovery_max_total_attempts job = min (je_max_retries job + 1) 4"

text \<open>One stale job, the \<open>n\<close>th of the batch (which selects its draws from the environment).\<close>

definition recover_stale_job ::
  "codec \<Rightarrow> env \<Rightarrow> datetime \<Rightarrow> nat \<Rightarrow> job_execution_dto \<Rightarrow> database \<Rightarrow> notification option \<times> database" where
  "recover_stale_job c e now n job db =
     (case je_execution_token job of
        None \<Rightarrow> (None, db)
      | Some execution_token \<Rightarrow>
          (case lock_by_id (je_owner_id job) db of
             None \<Rightarrow> (None, db)
           | Some owner \<Rightarrow>
               (let next_attempt_number = je_attempt_count job + 1 in
                if next_attempt_number > recovery_max_total_attempts job
                then let (failed, db1) = mark_failed (je_id job) execution_token now RECOVERY_FINAL_FAILURE_MESSAGE db
                     in if \<not> failed then (None, db1)
                        else (Some (job_notification (je_id job) (je_owner_id job) FAILED (je_attempt_count job) now),
                              create_system_log e n (2 * n) (je_id job) ''error''
                                (''Job attempt '' @ str_int (je_attempt_count job) @
                                 '' became a final failure during stale running recovery: '' @
                                 RECOVERY_FINAL_FAILURE_MESSAGE) db1)
                else let (requeued, db1) = requeue_running (je_id job) execution_token now RECOVERY_REQUEUE_MESSAGE db
                     in if \<not> requeued then (None, db1)
                        else let db2 = snd (create_dispatch_event_if_absent c e n (2 * n) (je_id job) now db1)
                             in (Some (job_notification (je_id job) (je_owner_id job) QUEUED (je_attempt_count job) now),
                                 create_system_log e n (2 * n + 1) (je_id job) ''warning''
                                   (''Job attempt '' @ str_int (je_attempt_count job) @
                                    '' was recovered from stale running state and queued for retry'') db2))))"

fun recover_jobs ::
  "codec \<Rightarrow> env \<Rightarrow> datetime \<Rightarrow> nat \<Rightarrow> job_execution_dto list \<Rightarrow> database \<Rightarrow> notification list \<times> database" where
  "recover_jobs c e now n [] db = ([], db)"
| "recover_jobs c e now n (job # jobs) db =
     (let (notification, db1) = recover_stale_job c e now n job db;
          (notifications, db2) = recover_jobs c e now (Suc n) jobs db1
      in ((case notification of None \<Rightarrow> notifications | Some x \<Rightarrow> x # notifications), db2))"

definition recover_due_batch_once :: "runtime \<Rightarrow> env \<Rightarrow> (uuid \<Rightarrow> bool) \<Rightarrow> database \<Rightarrow> int txn" where
  "recover_due_batch_once rt e locked db =
     (let now = clock_now e 0 in
      with_uow (\<lambda>u.
        let stale_jobs = claim_expired_running_jobs_for_update locked now
                           (recovery_batch_size (rt_settings rt)) (uow_session u);
            (notifications, u1) = exec (recover_jobs (rt_codec rt) e now 0 stale_jobs) u;
            recovered_count = int (length notifications)
        in if recovered_count > 0
           then (case commit (commit_ok e 0) u1 of
                   Inl x \<Rightarrow> (Inl x, u1, [])
                 | Inr u2 \<Rightarrow> (Inr recovered_count, u2, notifications))
           else (Inr recovered_count, u1, [])) db)"

section \<open>The effect of a batch\<close>

definition recover_row :: "datetime \<Rightarrow> job \<Rightarrow> job" where
  "recover_row now r =
     (if job_attempt_count r < 4
      then r\<lparr>job_status := QUEUED, job_worker_id := None, job_execution_token := None,
             job_lease_expires_at := None, job_finished_at := None,
             job_last_error := Some RECOVERY_REQUEUE_MESSAGE, job_updated_at := now\<rparr>
      else r\<lparr>job_status := FAILED, job_worker_id := None, job_execution_token := None,
             job_lease_expires_at := None, job_finished_at := Some now,
             job_last_error := Some RECOVERY_FINAL_FAILURE_MESSAGE, job_updated_at := now\<rparr>)"

definition recovery_notification :: "datetime \<Rightarrow> job \<Rightarrow> notification" where
  "recovery_notification now r =
     job_notification (job_id r) (job_owner_id r) (if job_attempt_count r < 4 then QUEUED else FAILED)
       (job_attempt_count r) now"

lemma recover_row_sel [simp]:
  "job_id (recover_row now r) = job_id r" "job_owner_id (recover_row now r) = job_owner_id r"
  "job_attempt_count (recover_row now r) = job_attempt_count r"
  "job_execution_token (recover_row now r) = None"
  "job_status (recover_row now r) = (if job_attempt_count r < 4 then QUEUED else FAILED)"
  by (simp_all add: recover_row_def)

lemma recover_row_not_expired [simp]: "\<not> lease_expired t (recover_row now r)"
  by (simp add: lease_expired_def)

lemma recover_row_moves: "job_status r = RUNNING \<Longrightarrow> moves_in {Fail, Requeue} r (recover_row now r)"
  unfolding recover_row_def
  by (auto intro: moves_in_single [OF moves.requeue] moves_in_single [OF moves.fail])

text \<open>A row that a batch may claim: running, so it holds a token, and its owner exists.\<close>

definition recoverable :: "database \<Rightarrow> job \<Rightarrow> bool" where
  "recoverable db r \<longleftrightarrow> r \<in> set (db_jobs db) \<and> job_status r = RUNNING \<and> job_ok r \<and> owner_exists db r"

text \<open>The database after the row and the bookkeeping of one recovered job.\<close>

definition recovered_db :: "codec \<Rightarrow> env \<Rightarrow> datetime \<Rightarrow> nat \<Rightarrow> job \<Rightarrow> database \<Rightarrow> database" where
  "recovered_db c e now n r db =
     (let db1 = db\<lparr>db_jobs := update_where (\<lambda>x. job_id x = job_id r) (recover_row now) (db_jobs db)\<rparr>
      in if job_attempt_count r < 4
         then create_system_log e n (2 * n + 1) (job_id r) ''warning''
                (''Job attempt '' @ str_int (job_attempt_count r) @
                 '' was recovered from stale running state and queued for retry'')
                (snd (create_dispatch_event_if_absent c e n (2 * n) (job_id r) now db1))
         else create_system_log e n (2 * n) (job_id r) ''error''
                (''Job attempt '' @ str_int (job_attempt_count r) @
                 '' became a final failure during stale running recovery: '' @
                 RECOVERY_FINAL_FAILURE_MESSAGE) db1)"

lemma recover_stale_job_eq:
  assumes keys: "job_keys_ok db" and r: "recoverable db r"
  shows "recover_stale_job c e now n (to_job_execution_dto r) db =
    (Some (recovery_notification now r), recovered_db c e now n r db)"
proof -
  from r have in_jobs: "r \<in> set (db_jobs db)" and run: "job_status r = RUNNING" and ok: "job_ok r"
    by (auto simp: recoverable_def)
  from ok run obtain tok where tok: "job_execution_token r = Some tok" by (auto simp: job_ok_def)
  from r obtain u where lock: "lock_by_id (job_owner_id r) db = Some u"
    using lock_by_id_exists [of "job_owner_id r" db] by (auto simp: recoverable_def owner_exists_def)
  from ok have max: "recovery_max_total_attempts (to_job_execution_dto r) = 4"
    by (simp add: recovery_max_total_attempts_def job_ok_def)
  note hit = update_jobs_hit [OF keys in_jobs refl, where g = "recover_row now"]
  show ?thesis
  proof (cases "job_attempt_count r < 4")
    case True
    then show ?thesis
      by (simp add: recover_stale_job_def tok lock max Let_def recovery_notification_def recovered_db_def
          requeue_running_def hit recover_row_def run)
  next
    case False
    then show ?thesis
      by (simp add: recover_stale_job_def tok lock max Let_def recovery_notification_def recovered_db_def
          mark_failed_def hit recover_row_def run)
  qed
qed

lemma recovered_db_frame [simp]:
  "db_users (recovered_db c e now n r db) = db_users db"
  "db_jobs (recovered_db c e now n r db) =
     update_where (\<lambda>x. job_id x = job_id r) (recover_row now) (db_jobs db)"
  by (simp_all add: recovered_db_def Let_def)

fun recovered_all :: "codec \<Rightarrow> env \<Rightarrow> datetime \<Rightarrow> nat \<Rightarrow> job list \<Rightarrow> database \<Rightarrow> database" where
  "recovered_all c e now n [] db = db"
| "recovered_all c e now n (r # rs) db = recovered_all c e now (Suc n) rs (recovered_db c e now n r db)"

lemma recoverable_next:
  assumes "recoverable db r'" "job_id r' \<noteq> job_id r"
  shows "recoverable (recovered_db c e now n r db) r'"
  using assms by (force simp: recoverable_def owner_exists_def set_update_where)

lemma recovered_db_keys: "job_keys_ok db \<Longrightarrow> job_keys_ok (recovered_db c e now n r db)"
  by (simp add: job_keys_ok_def map_update_where)

lemma recover_jobs_eq:
  "job_keys_ok db \<Longrightarrow> distinct (map job_id rs) \<Longrightarrow> (\<And>r. r \<in> set rs \<Longrightarrow> recoverable db r) \<Longrightarrow>
    recover_jobs c e now n (map to_job_execution_dto rs) db =
      (map (recovery_notification now) rs, recovered_all c e now n rs db)"
proof (induction rs arbitrary: n db)
  case (Cons r rs)
  have "recoverable (recovered_db c e now n r db) r'" if "r' \<in> set rs" for r'
    using Cons.prems(2,3) that by (intro recoverable_next) (auto simp: image_iff)
  with Cons.IH [of "recovered_db c e now n r db" "Suc n"] Cons.prems show ?case
    by (simp add: recover_stale_job_eq recovered_db_keys)
qed simp

lemma update_where_key_insert:
  assumes "\<And>r. k (f r) = k r" and "i \<notin> I"
  shows "update_where (\<lambda>x. k x \<in> I) f (update_where (\<lambda>x. k x = i) f rs) =
    update_where (\<lambda>x. k x \<in> insert i I) f rs"
  using assms by (auto simp: update_where_def)

lemma recovered_all_jobs:
  "distinct (map job_id rs) \<Longrightarrow>
    db_jobs (recovered_all c e now n rs db) =
      update_where (\<lambda>x. job_id x \<in> job_id ` set rs) (recover_row now) (db_jobs db)"
proof (induction rs arbitrary: n db)
  case (Cons r rs)
  then show ?case
    using update_where_key_insert [of job_id "recover_row now" "job_id r" "job_id ` set rs" "db_jobs db"] by simp
qed (simp add: update_where_idle)

lemma recovered_all_users [simp]: "db_users (recovered_all c e now n rs db) = db_users db"
  by (induction rs arbitrary: n db) simp_all

text \<open>The outbox only grows, by fresh dispatch events of the requeued jobs.\<close>

lemma recovered_db_events:
  "db_outbox_events (recovered_db c e now n r db) = db_outbox_events db \<or>
   db_outbox_events (recovered_db c e now n r db) =
     db_outbox_events db @ [dispatch_event c e n (2 * n) (job_id r) now]"
  using create_if_absent_events [of c e n "2 * n" "job_id r" now
      "db\<lparr>db_jobs := update_where (\<lambda>x. job_id x = job_id r) (recover_row now) (db_jobs db)\<rparr>"]
  by (auto simp: recovered_db_def Let_def)

lemma recovered_db_awaits:
  assumes "job_attempt_count r < 4"
  shows "\<exists>ev \<in> set (db_outbox_events (recovered_db c e now n r db)). awaits_dispatch (job_id r) ev"
  using assms create_if_absent_awaits [of c e n "2 * n" "job_id r" now
      "db\<lparr>db_jobs := update_where (\<lambda>x. job_id x = job_id r) (recover_row now) (db_jobs db)\<rparr>"]
  by (simp add: recovered_db_def Let_def)

lemma recovered_all_events_keep:
  "set (db_outbox_events db) \<subseteq> set (db_outbox_events (recovered_all c e now n rs db))"
proof (induction rs arbitrary: n db)
  case (Cons r rs)
  then show ?case using recovered_db_events [of c e now n r db] by force
qed simp

lemma recovered_all_events_new:
  "ev \<in> set (db_outbox_events (recovered_all c e now n rs db)) \<Longrightarrow>
    ev \<in> set (db_outbox_events db) \<or>
    (\<exists>k r. r \<in> set rs \<and> n \<le> k \<and> k < n + length rs \<and> ev = dispatch_event c e k (2 * k) (job_id r) now)"
proof (induction rs arbitrary: n db)
  case (Cons r rs)
  from Cons.prems Cons.IH [of "Suc n" "recovered_db c e now n r db"]
  consider "ev \<in> set (db_outbox_events (recovered_db c e now n r db))"
    | k r' where "r' \<in> set rs" "Suc n \<le> k" "k < Suc n + length rs" "ev = dispatch_event c e k (2 * k) (job_id r') now"
    by auto
  then show ?case
  proof cases
    case 1
    then have "ev \<in> set (db_outbox_events db) \<or> ev = dispatch_event c e n (2 * n) (job_id r) now"
      using recovered_db_events [of c e now n r db] by auto
    moreover have "r \<in> set (r # rs) \<and> n \<le> n \<and> n < n + length (r # rs)" by simp
    ultimately show ?thesis by blast
  next
    case 2
    then show ?thesis by (intro disjI2 exI [of _ k] exI [of _ r']) auto
  qed
qed simp

lemma disjoint_insert_mono: "B \<subseteq> insert x A \<Longrightarrow> x \<notin> S \<Longrightarrow> S \<inter> A = {} \<Longrightarrow> S \<inter> B = {}"
  by blast

lemma recovered_all_events_distinct:
  "distinct (map ev_id (db_outbox_events db)) \<Longrightarrow> inj_on (uuid4 e) {n..<n + length rs} \<Longrightarrow>
   uuid4 e ` {n..<n + length rs} \<inter> ev_id ` set (db_outbox_events db) = {} \<Longrightarrow>
   distinct (map ev_id (db_outbox_events (recovered_all c e now n rs db)))"
proof (induction rs arbitrary: n db)
  case (Cons r rs)
  let ?I = "{Suc n..<Suc n + length rs}" and ?d = "recovered_db c e now n r db"
  have split: "{n..<n + length (r # rs)} = insert n ?I" by auto
  have fresh: "uuid4 e n \<notin> ev_id ` set (db_outbox_events db)" "uuid4 e n \<notin> uuid4 e ` ?I"
      "inj_on (uuid4 e) ?I" "uuid4 e ` ?I \<inter> ev_id ` set (db_outbox_events db) = {}"
    using Cons.prems(2,3) unfolding split inj_on_insert by auto
  have ids: "ev_id ` set (db_outbox_events ?d) \<subseteq> insert (uuid4 e n) (ev_id ` set (db_outbox_events db))"
    using recovered_db_events [of c e now n r db] by auto
  have "distinct (map ev_id (db_outbox_events ?d))"
    using recovered_db_events [of c e now n r db] Cons.prems(1) fresh(1) by auto
  moreover have "uuid4 e ` ?I \<inter> ev_id ` set (db_outbox_events ?d) = {}"
    using ids fresh(2,4) by (rule disjoint_insert_mono)
  ultimately show ?case
    unfolding recovered_all.simps by (intro Cons.IH fresh(3))
qed simp

lemma recovered_all_awaits:
  "r \<in> set rs \<Longrightarrow> job_attempt_count r < 4 \<Longrightarrow>
    \<exists>ev \<in> set (db_outbox_events (recovered_all c e now n rs db)). awaits_dispatch (job_id r) ev"
proof (induction rs arbitrary: n db)
  case (Cons a rs)
  show ?case
  proof (cases "r = a")
    case True
    with Cons.prems(2) show ?thesis
      using recovered_db_awaits [of a c e now n db]
        recovered_all_events_keep [of "recovered_db c e now n a db" c e now "Suc n" rs] by auto
  next
    case False
    with Cons.prems Cons.IH [of "Suc n" "recovered_db c e now n a db"] show ?thesis by simp
  qed
qed simp

lemma recovered_all_logs:
  "l \<in> set (db_job_logs (recovered_all c e now n rs db)) \<Longrightarrow>
    l \<in> set (db_job_logs db) \<or> log_job_id l \<in> job_id ` set rs"
proof (induction rs arbitrary: n db)
  case (Cons r rs)
  then consider "l \<in> set (db_job_logs (recovered_db c e now n r db))" | "log_job_id l \<in> job_id ` set rs" by fastforce
  then show ?case
    by cases (auto simp: recovered_db_def Let_def create_system_log_def add_log_def split: if_splits)
qed simp

section \<open>The batch\<close>

definition stale_rows :: "(uuid \<Rightarrow> bool) \<Rightarrow> datetime \<Rightarrow> int \<Rightarrow> database \<Rightarrow> job list" where
  "stale_rows locked now limit db =
     take (nat limit) (sort_key lease_order (filter (\<lambda>r. lease_expired now r \<and> \<not> locked (job_id r)) (db_jobs db)))"

lemma stale_rows_in:
  "r \<in> set (stale_rows locked now limit db) \<Longrightarrow>
    r \<in> set (db_jobs db) \<and> lease_expired now r \<and> \<not> locked (job_id r)"
  by (auto simp: stale_rows_def dest!: in_set_takeD)

lemma distinct_stale_rows: "job_keys_ok db \<Longrightarrow> distinct (map job_id (stale_rows locked now limit db))"
proof -
  assume "job_keys_ok db"
  then have "distinct (map job_id (sort_key lease_order (filter (\<lambda>r. lease_expired now r \<and> \<not> locked (job_id r)) (db_jobs db))))"
    by (auto simp: job_keys_ok_def distinct_map intro: inj_on_subset)
  then show ?thesis by (simp add: stale_rows_def take_map [symmetric] distinct_take)
qed

lemma stale_rows_recoverable:
  "db_ok c db \<Longrightarrow> r \<in> set (stale_rows locked now limit db) \<Longrightarrow> recoverable db r"
  using stale_rows_in [of r locked now limit db] db_ok_row [of c db r]
  by (auto simp: recoverable_def lease_expired_def)

lemma recover_due_batch_once_eq:
  assumes ok: "db_ok c db" and rs: "rs = stale_rows locked (clock_now e 0) (recovery_batch_size (rt_settings rt)) db"
  shows "recover_due_batch_once rt e locked db =
    settle (rs \<noteq> []) (commit_ok e 0) (int (length rs)) (recovered_all (rt_codec rt) e (clock_now e 0) 0 rs db)
      (map (recovery_notification (clock_now e 0)) rs) 0 db"
proof -
  have "claim_expired_running_jobs_for_update locked (clock_now e 0) (recovery_batch_size (rt_settings rt)) db =
      map to_job_execution_dto rs"
    by (simp add: claim_expired_running_jobs_for_update_def rs stale_rows_def select_where_def take_map)
  moreover have "recover_jobs (rt_codec rt) e (clock_now e 0) 0 (map to_job_execution_dto rs) db =
      (map (recovery_notification (clock_now e 0)) rs, recovered_all (rt_codec rt) e (clock_now e 0) 0 rs db)"
    using stale_rows_recoverable [OF ok] distinct_stale_rows [OF db_ok_keys [OF ok]] db_ok_keys [OF ok]
    by (intro recover_jobs_eq) (auto simp: rs)
  ultimately show ?thesis
    by (auto simp: recover_due_batch_once_def settle_def uow_defs Let_def)
qed

lemma recovered_all_evolves:
  assumes "job_keys_ok db" and "\<And>r. r \<in> set rs \<Longrightarrow> recoverable db r" and "distinct (map job_id rs)"
  shows "evolves {Fail, Requeue} db (recovered_all c e now n rs db)"
proof -
  have "moves_in {Fail, Requeue} r (recover_row now r)" if "r \<in> set (db_jobs db)" "job_id r \<in> job_id ` set rs" for r
  proof -
    from that(2) obtain r' where r': "r' \<in> set rs" "job_id r = job_id r'" by auto
    then have "r = r'" using assms(1,2) that(1) by (auto simp: recoverable_def intro: job_row_unique)
    with r'(1) assms(2) show ?thesis by (auto simp: recoverable_def intro: recover_row_moves)
  qed
  then show ?thesis
    unfolding evolves_def recovered_all_jobs [OF assms(3)] update_where_def
    by (auto simp: list.rel_map intro!: list.rel_refl_strong)
qed

end
