(* ===== verification/Job_Service.thy ===== *)
theory Job_Service
  imports Job_Worker Json_Text
begin

text \<open>
  \<^verbatim>\<open>src/app/application/services/jobs.py\<close>: creating a job once per idempotency key, reading and
  cancelling jobs with the caller's rights, and listing them by pages. The rate limiter, the
  page cache and the standard library's text functions are arguments.
\<close>

section \<open>Injected parts\<close>

text \<open>
  Functions of Python's standard library: \<^verbatim>\<open>json.loads\<close>, \<^verbatim>\<open>base64.urlsafe_b64encode\<close> and
  \<^verbatim>\<open>urlsafe_b64decode\<close>, \<^verbatim>\<open>datetime.isoformat\<close> and \<^verbatim>\<open>fromisoformat\<close>, \<^verbatim>\<open>str(uuid)\<close> and \<^verbatim>\<open>UUID(text)\<close>,
  \<^verbatim>\<open>hashlib.sha256(...).hexdigest()\<close>. \<open>None\<close> is a raised exception.
\<close>

record text_lib =
  tl_loads :: "string \<Rightarrow> json option"
  tl_b64encode :: "string \<Rightarrow> string"
  tl_b64decode :: "string \<Rightarrow> string option"
  tl_isoformat :: "datetime \<Rightarrow> string"
  tl_fromisoformat :: "json \<Rightarrow> datetime option"
  tl_str_uuid :: "uuid \<Rightarrow> string"
  tl_uuid :: "json \<Rightarrow> uuid option"
  tl_sha256 :: "string \<Rightarrow> string"

text \<open>Each pair is documented to be a round trip.\<close>

definition text_lib_ok :: "text_lib \<Rightarrow> bool" where
  "text_lib_ok lib \<longleftrightarrow>
     (\<forall>j. distinct_keys j \<longrightarrow> tl_loads lib (dumps j) = Some (sort_keys j)) \<and>
     (\<forall>s. tl_b64decode lib (tl_b64encode lib s) = Some s) \<and>
     (\<forall>t. tl_fromisoformat lib (JStr (tl_isoformat lib t)) = Some t) \<and>
     (\<forall>u. tl_uuid lib (JStr (tl_str_uuid lib u)) = Some u)"

text \<open>
  The rate limiter (\<^verbatim>\<open>CreateJobRateLimiter\<close>): \<open>reserve\<close> returns a reservation, nothing when it
  fails open, or raises; \<open>release\<close> gives a reservation back.
\<close>

record 's rate_limiter =
  reserve :: "uuid \<Rightarrow> 's \<Rightarrow> (exn + rate_limit_reservation option) \<times> 's"
  release :: "rate_limit_reservation \<Rightarrow> 's \<Rightarrow> 's"

text \<open>
  The page cache (\<^verbatim>\<open>src/app/application/caching/job_list_cache.py\<close>): a lookup may raise, storing and
  invalidating do not (their implementations catch everything).
\<close>

record 'c job_list_cache =
  get_page :: "uuid option \<Rightarrow> string option \<Rightarrow> int \<Rightarrow> 'c \<Rightarrow> exn + job_list_page_dto option"
  set_page :: "uuid option \<Rightarrow> string option \<Rightarrow> int \<Rightarrow> job_list_page_dto \<Rightarrow> 'c \<Rightarrow> 'c"
  invalidate_owner :: "uuid \<Rightarrow> 'c \<Rightarrow> 'c"

text \<open>What a service call does after its commit.\<close>

datatype effect = InvalidateOwner uuid | Notify notification

section \<open>Helpers\<close>

definition DEFAULT_LIST_LIMIT :: int where
  "DEFAULT_LIST_LIMIT = 20"

definition MAX_LIST_LIMIT :: int where
  "MAX_LIST_LIMIT = 100"

definition build_request_hash :: "text_lib \<Rightarrow> JobType \<Rightarrow> json_object \<Rightarrow> string" where
  "build_request_hash lib jtype payload =
     tl_sha256 lib (dumps (JObj [(''type'', JStr (JobType_value jtype)), (''payload'', JObj payload)]))"

definition normalize_limit :: "int option \<Rightarrow> int" where
  "normalize_limit limit =
     (case limit of None \<Rightarrow> DEFAULT_LIST_LIMIT | Some n \<Rightarrow> max 1 (min n MAX_LIST_LIMIT))"

definition encode_cursor :: "text_lib \<Rightarrow> job_list_cursor \<Rightarrow> string" where
  "encode_cursor lib cursor =
     tl_b64encode lib (dumps (JObj
       [(''v'', JInt 1), (''created_at'', JStr (tl_isoformat lib (cur_created_at cursor))),
        (''id'', JStr (tl_str_uuid lib (cur_job_id cursor)))]))"

text \<open>Python's \<^verbatim>\<open>decoded["v"] != 1\<close>: the integer 1 and \<^verbatim>\<open>true\<close> both equal 1.\<close>

definition equals_one :: "json \<Rightarrow> bool" where
  "equals_one j \<longleftrightarrow> j = JInt 1 \<or> j = JBool True"

definition decode_cursor :: "text_lib \<Rightarrow> string \<Rightarrow> exn + job_list_cursor" where
  "decode_cursor lib cursor =
     (case tl_b64decode lib cursor of
        None \<Rightarrow> Inl InvalidCursorError
      | Some payload \<Rightarrow>
          (case tl_loads lib payload of
             Some (JObj decoded) \<Rightarrow>
               (if set (map fst decoded) \<noteq> {''v'', ''created_at'', ''id''} then Inl InvalidCursorError
                else if \<not> equals_one (the (map_of decoded ''v'')) then Inl InvalidCursorError
                else (case (tl_fromisoformat lib (the (map_of decoded ''created_at'')),
                            tl_uuid lib (the (map_of decoded ''id''))) of
                        (Some t, Some i) \<Rightarrow> Inr (JobListCursor t i)
                      | _ \<Rightarrow> Inl InvalidCursorError))
           | _ \<Rightarrow> Inl InvalidCursorError))"

definition build_job_list_page :: "text_lib \<Rightarrow> stored_job_dto list \<Rightarrow> int \<Rightarrow> job_list_page_dto" where
  "build_job_list_page lib jobs limit =
     (let page_jobs = take (nat limit) jobs;
          next_cursor = (if int (length jobs) > limit
                         then Some (encode_cursor lib
                                (JobListCursor (sj_created_at (last page_jobs)) (sj_id (last page_jobs))))
                         else None)
      in \<lparr>page_items = map to_job_public_dto page_jobs, page_next_cursor = next_cursor\<rparr>)"

definition service_notification :: "job_public_dto \<Rightarrow> notification" where
  "service_notification job =
     \<lparr>nt_job_id = pub_id job, nt_owner_id = pub_owner_id job, nt_status = pub_status job,
      nt_attempt_count = pub_attempt_count job, nt_committed_at = pub_updated_at job,
      nt_cancel_requested_at = pub_cancel_requested_at job\<rparr>"

definition validate_existing_job :: "stored_job_dto \<Rightarrow> string \<Rightarrow> exn + job_public_dto" where
  "validate_existing_job existing_job request_hash =
     (if sj_request_hash existing_job \<noteq> request_hash then Inl IdempotencyConflictError
      else Inr (to_job_public_dto existing_job))"

definition load_existing_job :: "uuid \<Rightarrow> string \<Rightarrow> string \<Rightarrow> database \<Rightarrow> exn + job_public_dto" where
  "load_existing_job owner_id idempotency_key request_hash db =
     (case get_by_idempotency_key owner_id idempotency_key db of
        None \<Rightarrow> Inl (RuntimeError ''Expected an existing job after idempotency conflict'')
      | Some existing_job \<Rightarrow> validate_existing_job existing_job request_hash)"

definition load_existing_job_by_id :: "uuid \<Rightarrow> database \<Rightarrow> exn + job_public_dto" where
  "load_existing_job_by_id i db =
     (case get_by_id i db of
        None \<Rightarrow> Inl (ResourceNotFoundError ''Job not found'')
      | Some job \<Rightarrow> Inr (to_job_public_dto job))"

definition load_authorized_job_for_update ::
  "bool \<Rightarrow> current_user_dto \<Rightarrow> uuid \<Rightarrow> database \<Rightarrow> exn + stored_job_dto" where
  "load_authorized_job_for_update lock current_user i db =
     (let job = (if cu_role current_user = ADMIN
                 then (if lock then get_by_id_for_update i db else get_by_id i db)
                 else (if lock then get_by_id_for_owner_for_update i (cu_id current_user) db
                       else get_by_id_for_owner i (cu_id current_user) db))
      in case job of None \<Rightarrow> Inl (ResourceNotFoundError ''Job not found'') | Some j \<Rightarrow> Inr j)"

definition load_authorized_job :: "current_user_dto \<Rightarrow> uuid \<Rightarrow> database \<Rightarrow> exn + stored_job_dto" where
  "load_authorized_job current_user i db = load_authorized_job_for_update False current_user i db"

section \<open>Operations\<close>

text \<open>
  \<open>seen\<close> is the database when the existing job is looked up, \<open>db\<close> the one the insert meets:
  under READ COMMITTED another request may commit in between. The body leaves \<open>None\<close> when it
  falls through to the lookup after the transaction.
\<close>

definition create_job_body ::
  "runtime \<Rightarrow> text_lib \<Rightarrow> 's rate_limiter \<Rightarrow> env \<Rightarrow> current_user_dto \<Rightarrow> string \<Rightarrow> JobType \<Rightarrow> json_object
    \<Rightarrow> database \<Rightarrow> 's \<Rightarrow> unit_of_work
    \<Rightarrow> (exn + job_create_result_dto option) \<times> unit_of_work \<times> 's \<times> effect list" where
  "create_job_body rt lib rl e current_user idempotency_key jtype payload seen s u =
     (let request_hash = build_request_hash lib jtype payload in
      case get_by_idempotency_key (cu_id current_user) idempotency_key seen of
        Some existing_job \<Rightarrow>
          (case validate_existing_job existing_job request_hash of
             Inl x \<Rightarrow> (Inl x, u, s, [])
           | Inr job \<Rightarrow> (Inr (Some \<lparr>jcr_job = job, jcr_created = False\<rparr>), u, s, []))
      | None \<Rightarrow>
          (case reserve rl (cu_id current_user) s of
             (Inl x, s1) \<Rightarrow> (Inl x, u, s1, [])
           | (Inr reservation, s1) \<Rightarrow>
               (let released = (case reservation of None \<Rightarrow> s1 | Some r \<Rightarrow> release rl r s1);
                    (created, u1) = exec (create_pending_job (rt_driver rt) e (cu_id current_user) jtype payload
                                      idempotency_key request_hash (job_max_retries_setting (rt_settings rt))) u
                in case created of
                     Inl DuplicateJobIdempotencyKeyError \<Rightarrow>
                       (case rollback u1 of
                          Inl x \<Rightarrow> (Inl x, u1, released, [])
                        | Inr u2 \<Rightarrow> (Inr None, u2, released, []))
                   | Inl x \<Rightarrow> (Inl x, u1, released, [])
                   | Inr job \<Rightarrow>
                       (let u2 = exec_unit (create_job_created_log e 0 2 (sj_id job)) u1;
                            u3 = exec_unit (\<lambda>d. snd (create_dispatch_event (rt_codec rt) e 1 3 (sj_id job) (clock_now e 0) d)) u2
                        in case commit (commit_ok e 0) u3 of
                             Inl x \<Rightarrow> (Inl x, u3, released, [])
                           | Inr u4 \<Rightarrow>
                               (Inr (Some \<lparr>jcr_job = to_job_public_dto job, jcr_created = True\<rparr>), u4, s1,
                                [InvalidateOwner (cu_id current_user),
                                 Notify (service_notification (to_job_public_dto job))])))))"

definition create_job ::
  "runtime \<Rightarrow> text_lib \<Rightarrow> 's rate_limiter \<Rightarrow> env \<Rightarrow> current_user_dto \<Rightarrow> string \<Rightarrow> JobType \<Rightarrow> json_object
    \<Rightarrow> database \<Rightarrow> database \<Rightarrow> 's \<Rightarrow> (exn + job_create_result_dto) \<times> database \<times> 's \<times> effect list" where
  "create_job rt lib rl e current_user idempotency_key jtype payload seen db s =
     (case with_uow (create_job_body rt lib rl e current_user idempotency_key jtype payload seen s) db of
        (Inl x, db', out) \<Rightarrow> (Inl x, db', out)
      | (Inr (Some result), db', out) \<Rightarrow> (Inr result, db', out)
      | (Inr None, db', out) \<Rightarrow>
          (case load_existing_job (cu_id current_user) idempotency_key (build_request_hash lib jtype payload) db' of
             Inl x \<Rightarrow> (Inl x, db', out)
           | Inr job \<Rightarrow> (Inr \<lparr>jcr_job = job, jcr_created = False\<rparr>, db', out)))"

definition get_job_detail :: "current_user_dto \<Rightarrow> uuid \<Rightarrow> database \<Rightarrow> exn + job_public_dto" where
  "get_job_detail current_user i db =
     (case load_authorized_job current_user i db of
        Inl x \<Rightarrow> Inl x | Inr job \<Rightarrow> Inr (to_job_public_dto job))"

definition list_job_logs :: "current_user_dto \<Rightarrow> uuid \<Rightarrow> database \<Rightarrow> exn + job_log_entry_dto list" where
  "list_job_logs current_user i db =
     (case load_authorized_job current_user i db of
        Inl x \<Rightarrow> Inl x | Inr _ \<Rightarrow> Inr (list_entries_for_job i db))"

definition read_back :: "(database \<Rightarrow> exn + database) \<Rightarrow> uuid \<Rightarrow> database \<Rightarrow> exn + job_public_dto" where
  "read_back reread i db = (case reread db of Inl x \<Rightarrow> Inl x | Inr later \<Rightarrow> load_existing_job_by_id i later)"

text \<open>
  The two branches of \<^verbatim>\<open>cancel_job\<close> that change the job end alike: log, commit, invalidate,
  re-read, notify. The re-read is a transaction of its own after the COMMIT: \<open>reread\<close> is the database it
  meets, given the one just committed (others may have committed in between), or the exception it
  raises.
\<close>

definition cancel_finish ::
  "env \<Rightarrow> (database \<Rightarrow> exn + database) \<Rightarrow> stored_job_dto \<Rightarrow> string \<Rightarrow> unit_of_work
    \<Rightarrow> (exn + job_public_dto) \<times> unit_of_work \<times> effect list" where
  "cancel_finish e reread job text u =
     (let u1 = exec_unit (create_system_log e 0 0 (sj_id job) ''info'' text) u
      in case commit (commit_ok e 0) u1 of
           Inl x \<Rightarrow> (Inl x, u1, [])
         | Inr u2 \<Rightarrow>
             (case read_back reread (sj_id job) (uow_store u2) of
                Inl x \<Rightarrow> (Inl x, u2, [InvalidateOwner (sj_owner_id job)])
              | Inr refreshed \<Rightarrow>
                  (Inr refreshed, u2,
                   [InvalidateOwner (sj_owner_id job), Notify (service_notification refreshed)])))"

definition cancel_job ::
  "env \<Rightarrow> current_user_dto \<Rightarrow> uuid \<Rightarrow> (database \<Rightarrow> exn + database) \<Rightarrow> database
    \<Rightarrow> (exn + job_public_dto) \<times> database \<times> effect list" where
  "cancel_job e current_user i reread db =
     (let now = clock_now e 0 in
      with_uow (\<lambda>u.
        case load_authorized_job_for_update True current_user i (uow_session u) of
          Inl x \<Rightarrow> (Inl x, u, [])
        | Inr job \<Rightarrow>
            (if sj_status job \<in> {PENDING, QUEUED}
             then let (cancelled, u1) = exec (cancel_pending_or_queued (sj_id job) now) u
                  in if cancelled then cancel_finish e reread job ''Job cancelled before execution'' u1
                     else (Inr (to_job_public_dto job), u1, [])
             else if sj_status job = RUNNING
             then let (requested, u1) = exec (request_running_cancellation (sj_id job) now) u
                  in if requested then cancel_finish e reread job ''Job cancellation requested'' u1
                     else (Inr (to_job_public_dto job), u1, [])
             else if sj_status job \<in> {COMPLETED, FAILED} then (Inl JobNotCancellableError, u, [])
             else (Inr (to_job_public_dto job), u, []))) db)"

definition list_scope :: "current_user_dto \<Rightarrow> uuid option" where
  "list_scope current_user = (if cu_role current_user = ADMIN then None else Some (cu_id current_user))"

text \<open>
  \<open>between\<close> is what other clients do to the cache after this call has read the database and before
  it stores its page.
\<close>

definition list_jobs ::
  "text_lib \<Rightarrow> 'c job_list_cache \<Rightarrow> ('c \<Rightarrow> 'c) \<Rightarrow> current_user_dto \<Rightarrow> string option \<Rightarrow> int option \<Rightarrow> database \<Rightarrow> 'c
    \<Rightarrow> (exn + job_list_page_dto) \<times> 'c" where
  "list_jobs lib cache between current_user cursor limit db s =
     (let normalized_limit = normalize_limit limit in
      case get_page cache (list_scope current_user) cursor normalized_limit s of
        Inl x \<Rightarrow> (Inl x, s)
      | Inr (Some page) \<Rightarrow> (Inr page, s)
      | Inr None \<Rightarrow>
          (case (case cursor of None \<Rightarrow> Inr None | Some c \<Rightarrow> map_sum id Some (decode_cursor lib c)) of
             Inl x \<Rightarrow> (Inl x, s)
           | Inr decoded_cursor \<Rightarrow>
               (let jobs = (if cu_role current_user = ADMIN
                            then list_all_keyset decoded_cursor (normalized_limit + 1) db
                            else list_for_owner_keyset (cu_id current_user) decoded_cursor (normalized_limit + 1) db);
                    page = build_job_list_page lib jobs normalized_limit
                in (Inr page, set_page cache (list_scope current_user) cursor normalized_limit page (between s)))))"

lemma request_object:
  "sort_keys (JObj [(''type'', JStr a), (''payload'', v)]) = JObj [(''payload'', sort_keys v), (''type'', JStr a)]"
  by (simp add: list_less_def lexord_simps)

section \<open>Creation in closed form\<close>

definition created_db :: "runtime \<Rightarrow> env \<Rightarrow> job \<Rightarrow> database \<Rightarrow> database" where
  "created_db rt e r db =
     add_event (dispatch_event (rt_codec rt) e 1 3 (job_id r) (clock_now e 0))
       (create_job_created_log e 0 2 (job_id r) (add_job r db))"

definition released :: "'s rate_limiter \<Rightarrow> rate_limit_reservation option \<Rightarrow> 's \<Rightarrow> 's" where
  "released rl reservation s = (case reservation of None \<Rightarrow> s | Some r \<Rightarrow> release rl r s)"

definition replay :: "exn + job_public_dto \<Rightarrow> exn + job_create_result_dto" where
  "replay r = map_sum id (\<lambda>job. \<lparr>jcr_job = job, jcr_created = False\<rparr>) r"

lemma replay_uncreated: "replay x = Inr result \<Longrightarrow> \<not> jcr_created result"
  by (cases x) (auto simp: replay_def)

lemma create_job_existing:
  assumes "get_by_idempotency_key (cu_id user) key seen = Some existing"
  shows "create_job rt lib rl e user key t payload seen db s =
    (replay (validate_existing_job existing (build_request_hash lib t payload)), db, s, [])"
  using assms by (simp add: create_job_def create_job_body_def replay_def uow_defs Let_def split: sum.split)

lemma create_job_limited:
  assumes "get_by_idempotency_key (cu_id user) key seen = None" and "reserve rl (cu_id user) s = (Inl x, s1)"
  shows "create_job rt lib rl e user key t payload seen db s = (Inl x, db, s1, [])"
  using assms by (simp add: create_job_def create_job_body_def uow_defs Let_def)

lemma create_job_insert:
  assumes "get_by_idempotency_key (cu_id user) key seen = None" and "reserve rl (cu_id user) s = (Inr res, s1)"
    and r: "r = pending_row e (cu_id user) t payload key (build_request_hash lib t payload) (job_max_retries_setting (rt_settings rt))"
  shows "create_job rt lib rl e user key t payload seen db s =
    (if jobs_data_error r then (Inl DataError, db, released rl res s1, [])
     else case jobs_insert_violation r db of
       None \<Rightarrow>
         (if commit_ok e 0
          then (Inr \<lparr>jcr_job = to_job_public_dto (to_stored_job_dto r), jcr_created = True\<rparr>, created_db rt e r db, s1,
                [InvalidateOwner (cu_id user), Notify (service_notification (to_job_public_dto (to_stored_job_dto r)))])
          else (Inl DatabaseError, db, released rl res s1, []))
     | Some v \<Rightarrow>
         (if is_duplicate_job_idempotency_key_error (rt_driver rt v)
          then (replay (load_existing_job (cu_id user) key (build_request_hash lib t payload) db), db, released rl res s1, [])
          else (Inl (IntegrityError v), db, released rl res s1, [])))"
proof (cases "jobs_insert_violation r db")
  case None
  with assms show ?thesis
    by (auto simp: create_job_def create_job_body_def create_pending_job_def created_db_def released_def
        create_dispatch_event_def uow_defs Let_def split: sum.split)
next
  case (Some v)
  with assms show ?thesis
    by (auto simp: create_job_def create_job_body_def create_pending_job_def released_def replay_def
        uow_defs Let_def split: sum.split)
qed

lemma create_job_cases:
  assumes call: "create_job rt lib rl e user key t payload seen db s = (res, db', s', eff)"
  obtains (created) r where
      "r = pending_row e (cu_id user) t payload key (build_request_hash lib t payload) (job_max_retries_setting (rt_settings rt))"
      "jobs_insert_violation r db = None" "db' = created_db rt e r db"
      "res = Inr \<lparr>jcr_job = to_job_public_dto (to_stored_job_dto r), jcr_created = True\<rparr>"
      "eff = [InvalidateOwner (cu_id user), Notify (service_notification (to_job_public_dto (to_stored_job_dto r)))]"
    | (idle) "db' = db" "eff = []" "\<And>result. res = Inr result \<Longrightarrow> \<not> jcr_created result"
proof (cases "get_by_idempotency_key (cu_id user) key seen")
  case None
  obtain r1 s1 where r1: "reserve rl (cu_id user) s = (r1, s1)" by (metis surj_pair)
  show ?thesis
  proof (cases r1)
    case (Inl x)
    then show ?thesis using call create_job_limited [OF None r1 [unfolded Inl], of rt lib e t payload db] idle by auto
  next
    case (Inr x)
    show ?thesis
      using call created idle unfolding create_job_insert [OF None r1 [unfolded Inr] refl]
      by (auto dest: replay_uncreated split: option.splits if_splits)
  qed
next
  case (Some ex)
  then show ?thesis using call idle by (auto simp: create_job_existing dest: replay_uncreated)
qed

lemma created_result:
  assumes call: "create_job rt lib rl e user key t payload seen db s = (Inr res, db', s', eff)" and new: "jcr_created res"
  obtains r where "jobs_insert_violation r db = None" "db' = created_db rt e r db" "job_owner_id r = cu_id user"
    "job_idempotency_key r = key" "job_request_hash r = build_request_hash lib t payload"
    "jcr_job res = to_job_public_dto (to_stored_job_dto r)"
  using call
proof (cases rule: create_job_cases)
  case (created r)
  then show ?thesis by (intro that [of r]) simp_all
qed (use new in auto)

lemma created_lookup:
  assumes "jobs_insert_violation r db = None"
  shows "get_by_idempotency_key (job_owner_id r) (job_idempotency_key r) (created_db rt e r db) = Some (to_stored_job_dto r)"
proof -
  have "scalar_where (\<lambda>x. job_owner_id x = job_owner_id r \<and> job_idempotency_key x = job_idempotency_key r) (db_jobs db) = None"
    using assms by (auto simp: scalar_where_None_iff jobs_insert_violation_def split: if_splits)
  then show ?thesis
    by (simp add: get_by_idempotency_key_def created_db_def add_job_def scalar_where_append) (simp add: scalar_where_def)
qed

section \<open>Reading and cancelling in closed form\<close>

definition may_access :: "current_user_dto \<Rightarrow> job \<Rightarrow> bool" where
  "may_access user r \<longleftrightarrow> cu_role user = ADMIN \<or> job_owner_id r = cu_id user"

lemma load_authorized_eq:
  assumes "job_keys_ok db" and "r \<in> set (db_jobs db)" and "job_id r = i"
  shows "load_authorized_job_for_update lock user i db =
    (if may_access user r then Inr (to_stored_job_dto r) else Inl (ResourceNotFoundError ''Job not found''))"
proof -
  have "scalar_where (\<lambda>x. job_id x = i) (db_jobs db) = Some r"
    using assms by (simp add: job_lookup_iff)
  moreover have "scalar_where (\<lambda>x. job_id x = i \<and> job_owner_id x = cu_id user) (db_jobs db) =
      (if job_owner_id r = cu_id user then Some r else None)"
    using assms by (simp add: scalar_where_key_and job_keys_ok_def)
  ultimately show ?thesis
    by (simp add: load_authorized_job_for_update_def may_access_def get_by_id_def get_by_id_for_update_def
        get_by_id_for_owner_def get_by_id_for_owner_for_update_def)
qed

lemma load_authorized_missing:
  assumes "\<not> job_exists db i"
  shows "load_authorized_job_for_update lock user i db = Inl (ResourceNotFoundError ''Job not found'')"
proof -
  have none: "scalar_where (\<lambda>x. job_id x = i \<and> q x) (db_jobs db) = None" for q
    using assms by (auto simp: scalar_where_None_iff job_exists_def)
  show ?thesis using none [of "\<lambda>_. True"] none
    by (simp add: load_authorized_job_for_update_def get_by_id_def get_by_id_for_update_def
        get_by_id_for_owner_def get_by_id_for_owner_for_update_def)
qed

text \<open>The row a cancellation leaves, \<open>None\<close> when there is nothing to change.\<close>

definition cancel_row :: "datetime \<Rightarrow> job \<Rightarrow> job option" where
  "cancel_row now r =
     (if job_status r \<in> {PENDING, QUEUED}
      then Some (r\<lparr>job_status := CANCELLED, job_worker_id := None, job_execution_token := None,
                  job_lease_expires_at := None, job_finished_at := Some now, job_updated_at := now\<rparr>)
      else if job_status r = RUNNING \<and> job_cancel_requested_at r = None
      then Some (r\<lparr>job_cancel_requested_at := Some now, job_updated_at := now\<rparr>)
      else None)"

definition put_row :: "job \<Rightarrow> database \<Rightarrow> database" where
  "put_row r' db = db\<lparr>db_jobs := update_where (\<lambda>x. job_id x = job_id r') (\<lambda>_. r') (db_jobs db)\<rparr>"

definition cancel_log :: "job \<Rightarrow> string" where
  "cancel_log r = (if job_status r = RUNNING then ''Job cancellation requested'' else ''Job cancelled before execution'')"

lemma put_row_lookup:
  assumes "job_keys_ok db" and "r \<in> set (db_jobs db)" and "job_id r' = job_id r"
  shows "scalar_where (\<lambda>x. job_id x = job_id r) (db_jobs (put_row r' db)) = Some r'"
proof -
  have "scalar_where (\<lambda>x. job_id x = job_id r) (db_jobs db) = Some r"
    using assms by (simp add: job_lookup_iff)
  then show ?thesis
    unfolding put_row_def using assms(3) by (simp add: scalar_where_update)
qed

definition cancelled_db :: "env \<Rightarrow> job \<Rightarrow> job \<Rightarrow> database \<Rightarrow> database" where
  "cancelled_db e r r' db = create_system_log e 0 0 (job_id r) ''info'' (cancel_log r) (put_row r' db)"

lemma cancelled_db_jobs [simp]: "db_jobs (cancelled_db e r r' db) = db_jobs (put_row r' db)"
  by (simp add: cancelled_db_def)

text \<open>Reading back at once finds the row just written.\<close>

lemma read_back_own:
  assumes "job_keys_ok db" and "r \<in> set (db_jobs db)" and "job_id r' = job_id r" and "reread (cancelled_db e r r' db) = Inr (cancelled_db e r r' db)"
  shows "read_back reread (job_id r) (cancelled_db e r r' db) = Inr (to_job_public_dto (to_stored_job_dto r'))"
  using put_row_lookup [OF assms(1-3)] assms(4) by (simp add: read_back_def load_existing_job_by_id_def get_by_id_def)

lemma cancel_job_changes:
  assumes keys: "job_keys_ok db" and r: "r \<in> set (db_jobs db)" "job_id r = i" and acc: "may_access user r"
    and row: "cancel_row (clock_now e 0) r = Some r'"
  shows "cancel_job e user i reread db =
    (if commit_ok e 0
     then (read_back reread i (cancelled_db e r r' db), cancelled_db e r r' db,
           InvalidateOwner (job_owner_id r) #
           (case read_back reread i (cancelled_db e r r' db) of
              Inl x \<Rightarrow> [] | Inr job \<Rightarrow> [Notify (service_notification job)]))
     else (Inl DatabaseError, db, []))"
proof -
  note hit = update_jobs_hit [OF keys r, where g = "\<lambda>_. r'"]
  have id: "job_id r' = i" using row r(2) by (auto simp: cancel_row_def split: if_splits)
  have auth: "load_authorized_job_for_update True user i db = Inr (to_stored_job_dto r)"
    using load_authorized_eq [OF keys r] acc by simp
  consider "job_status r \<in> {PENDING, QUEUED}" | "job_status r = RUNNING" "job_cancel_requested_at r = None"
    using row by (auto simp: cancel_row_def split: if_splits)
  then show ?thesis
  proof cases
    case 1
    then have "cancel_pending_or_queued i (clock_now e 0) db = (True, put_row r' db)"
      using row unfolding cancel_pending_or_queued_def put_row_def id by (intro hit) (auto simp: cancel_row_def)
    with 1 show ?thesis using r(2)
      by (auto simp: cancel_job_def cancel_finish_def auth cancel_log_def cancelled_db_def uow_defs Let_def split: sum.split)
  next
    case 2
    then have "request_running_cancellation i (clock_now e 0) db = (True, put_row r' db)"
      using row unfolding request_running_cancellation_def put_row_def id by (intro hit) (auto simp: cancel_row_def)
    with 2 show ?thesis using r(2)
      by (auto simp: cancel_job_def cancel_finish_def auth cancel_log_def cancelled_db_def uow_defs Let_def split: sum.split)
  qed
qed

lemma cancel_job_idle:
  assumes keys: "job_keys_ok db" and r: "r \<in> set (db_jobs db)" "job_id r = i" and acc: "may_access user r"
    and row: "cancel_row (clock_now e 0) r = None"
  shows "cancel_job e user i reread db =
    (if job_status r \<in> {COMPLETED, FAILED} then (Inl JobNotCancellableError, db, [])
     else (Inr (to_job_public_dto (to_stored_job_dto r)), db, []))"
proof -
  have auth: "load_authorized_job_for_update True user i db = Inr (to_stored_job_dto r)"
    using load_authorized_eq [OF keys r] acc by simp
  have miss: "request_running_cancellation i now db = (False, db)"
    if "job_cancel_requested_at r \<noteq> None" for now
  proof -
    have "\<not> fst (request_running_cancellation i now db)"
    proof
      assume "fst (request_running_cancellation i now db)"
      then have "\<exists>x \<in> set (db_jobs db). job_id x = i \<and> job_status x = RUNNING \<and> job_cancel_requested_at x = None"
        unfolding request_running_cancellation_def by (subst (asm) fst_update_jobs [OF keys, where i = i]) simp_all
      then show False using that r(2) job_row_unique [OF keys r(1)] by metis
    qed
    moreover from this have "snd (request_running_cancellation i now db) = db"
      unfolding request_running_cancellation_def by (intro update_jobs_miss [OF keys, where i = i]) simp_all
    ultimately show ?thesis by (simp add: prod_eq_iff)
  qed
  show ?thesis
  proof (cases "job_status r = RUNNING")
    case True
    with row have "job_cancel_requested_at r \<noteq> None" by (auto simp: cancel_row_def split: if_splits)
    from True miss [OF this] r(2) show ?thesis
      by (simp add: cancel_job_def auth uow_defs Let_def)
  next
    case False
    with row show ?thesis
      by (auto simp: cancel_row_def cancel_job_def auth uow_defs Let_def split: if_splits)
  qed
qed

lemma cancel_job_denied:
  assumes "load_authorized_job_for_update True user i db = Inl x"
  shows "cancel_job e user i reread db = (Inl x, db, [])"
  using assms by (simp add: cancel_job_def uow_defs Let_def)

end
