(* ===== verification/Rate_Limiter.thy ===== *)
theory Rate_Limiter
  imports Job_Service
begin

text \<open>
  \<^verbatim>\<open>src/app/infrastructure/redis/rate_limiter.py\<close>: a fixed-window counter in Redis, reserved
  before a job is inserted and given back when the insert does not happen. The locale is the
  contract \<open>create_job\<close> relies on; it is interpreted on the Redis limiter.
\<close>

section \<open>The Redis counters and the two scripts\<close>

text \<open>A counter with the server time (in seconds) at which it expires.\<close>

record counter =
  ct_value :: nat
  ct_expires_at :: int

type_synonym counters = "string \<rightharpoonup> counter"

definition live :: "int \<Rightarrow> counters \<Rightarrow> string \<Rightarrow> counter option" where
  "live now s k = (case s k of None \<Rightarrow> None | Some c \<Rightarrow> if now < ct_expires_at c then Some c else None)"

definition KEY_EXPIRY_MARGIN_SECONDS :: int where
  "KEY_EXPIRY_MARGIN_SECONDS = 5"

text \<open>\<^verbatim>\<open>CREATE_JOB_RATE_LIMIT_SCRIPT\<close>: \<^verbatim>\<open>INCR\<close>, and \<^verbatim>\<open>EXPIRE\<close> for a new counter; returns the count and the TTL.\<close>

definition reserve_script :: "int \<Rightarrow> string \<Rightarrow> int \<Rightarrow> counters \<Rightarrow> (nat \<times> int) \<times> counters" where
  "reserve_script now key expiry s =
     (let current = (case live now s key of None \<Rightarrow> 1 | Some c \<Rightarrow> ct_value c + 1);
          expires_at = (case live now s key of
                          None \<Rightarrow> now + expiry
                        | Some c \<Rightarrow> if current = 1 then now + expiry else ct_expires_at c)
      in ((current, expires_at - now), s(key \<mapsto> \<lparr>ct_value = current, ct_expires_at = expires_at\<rparr>)))"

text \<open>\<^verbatim>\<open>RELEASE_CREATE_JOB_RATE_LIMIT_SCRIPT\<close>.\<close>

definition release_script :: "int \<Rightarrow> string \<Rightarrow> counters \<Rightarrow> nat \<times> counters" where
  "release_script now key s =
     (case live now s key of
        None \<Rightarrow> (0, s)
      | Some c \<Rightarrow>
          if ct_value c \<le> 1 then (0, s(key := None))
          else (ct_value c - 1, s(key \<mapsto> c\<lparr>ct_value := ct_value c - 1\<rparr>)))"

section \<open>The limiter\<close>

text \<open>How a call to Redis ends: answered, or raised without or after taking effect.\<close>

datatype redis_call = Replied | RaisedBefore | RaisedAfter

text \<open>
  The inputs of one pair of calls: the limiter's clock, the server's time at either call and
  how either call ends.
\<close>

record redis_io =
  io_now :: datetime
  io_reserve_time :: int
  io_reserve :: redis_call
  io_release_time :: int
  io_release :: redis_call

definition build_window_key :: "(uuid \<Rightarrow> string) \<Rightarrow> settings \<Rightarrow> uuid \<Rightarrow> datetime \<Rightarrow> string \<times> int" where
  "build_window_key str_uuid cfg uid now =
     (let now_epoch = int_timestamp now;
          window_size = create_job_rate_window_seconds cfg;
          window_start_epoch = now_epoch - (now_epoch mod window_size);
          reset_epoch = window_start_epoch + window_size
      in (''rate:create-job:'' @ str_uuid uid @ '':'' @ str_int window_start_epoch, reset_epoch))"

definition limiter_reserve ::
  "(uuid \<Rightarrow> string) \<Rightarrow> settings \<Rightarrow> redis_io \<Rightarrow> uuid \<Rightarrow> counters
    \<Rightarrow> (exn + rate_limit_reservation option) \<times> counters" where
  "limiter_reserve str_uuid cfg io uid s =
     (let now = io_now io;
          (key, reset_epoch) = build_window_key str_uuid cfg uid now;
          expiry_seconds = create_job_rate_window_seconds cfg + KEY_EXPIRY_MARGIN_SECONDS;
          retry_after_seconds = max (reset_epoch - int_timestamp now) 0;
          (raw_result, s1) = reserve_script (io_reserve_time io) key expiry_seconds s
      in case io_reserve io of
           RaisedBefore \<Rightarrow> (Inr None, s)
         | RaisedAfter \<Rightarrow> (Inr None, s1)
         | Replied \<Rightarrow>
             (let used = int (fst raw_result);
                  remaining = max (create_job_rate_limit cfg - used) 0;
                  reservation = \<lparr>rl_key = key, rl_limit = create_job_rate_limit cfg, rl_used = used,
                                 rl_remaining = remaining, rl_retry_after_seconds = retry_after_seconds,
                                 rl_reset_epoch = reset_epoch\<rparr>
              in if used > create_job_rate_limit cfg
                 then (Inl (RateLimitExceededError (rl_limit reservation) (rl_retry_after_seconds reservation)
                              (rl_reset_epoch reservation)), s1)
                 else (Inr (Some reservation), s1)))"

definition limiter_release :: "redis_io \<Rightarrow> rate_limit_reservation \<Rightarrow> counters \<Rightarrow> counters" where
  "limiter_release io reservation s =
     (case io_release io of
        RaisedBefore \<Rightarrow> s
      | _ \<Rightarrow> snd (release_script (io_release_time io) (rl_key reservation) s))"

definition RedisCreateJobRateLimiter :: "(uuid \<Rightarrow> string) \<Rightarrow> settings \<Rightarrow> redis_io \<Rightarrow> counters rate_limiter" where
  "RedisCreateJobRateLimiter str_uuid cfg io =
     \<lparr>reserve = limiter_reserve str_uuid cfg io, release = limiter_release io\<rparr>"

section \<open>The contract\<close>

text \<open>
  What \<open>create_job\<close> relies on: a reservation that is given back leaves every counter as it was, and a
  limiter that could not answer has counted nothing. \<open>usage\<close> is read when the call is over.
\<close>

locale reservation_contract =
  fixes rl :: "'s rate_limiter" and usage :: "string \<Rightarrow> 's \<Rightarrow> nat"
  assumes give_back: "reserve rl i s = (Inr (Some r), s') \<Longrightarrow> usage k (release rl r s') = usage k s"
    and reserve_open: "reserve rl i s = (Inr None, s') \<Longrightarrow> usage k s' = usage k s"
begin

lemma released_restores:
  assumes "reserve rl i s = (Inr res, s1)"
  shows "usage k (released rl res s1) = usage k s"
  using assms give_back reserve_open by (cases res) (auto simp: released_def)

text \<open>A creation that creates nothing costs nothing, unless the limiter itself refused it.\<close>

lemma uncreated_is_free:
  assumes call: "create_job rt lib rl e user key t payload seen db s = (res, db', s', eff)"
    and accepted: "\<not> (\<exists>x s1. get_by_idempotency_key (cu_id user) key seen = None \<and>
      reserve rl (cu_id user) s = (Inl x, s1))"
    and uncreated: "\<not> (\<exists>result. res = Inr result \<and> jcr_created result)"
  shows "usage k s' = usage k s \<and> db' = db \<and> eff = []"
proof (cases "get_by_idempotency_key (cu_id user) key seen")
  case None
  with accepted obtain res1 s1 where r: "reserve rl (cu_id user) s = (Inr res1, s1)"
    by (metis surj_pair sum.exhaust)
  show ?thesis
    using call uncreated released_restores [OF r, of k] unfolding create_job_insert [OF None r refl]
    by (auto split: option.splits if_splits)
next
  case (Some ex)
  then show ?thesis using call by (simp add: create_job_existing)
qed

end

definition usage_at :: "int \<Rightarrow> string \<Rightarrow> counters \<Rightarrow> nat" where
  "usage_at now k s = (case live now s k of None \<Rightarrow> 0 | Some c \<Rightarrow> ct_value c)"

lemma usage_reserve_script:
  assumes "0 < expiry"
  shows "usage_at now key (snd (reserve_script now key expiry s)) = Suc (usage_at now key s)"
    and "k \<noteq> key \<Longrightarrow> usage_at now' k (snd (reserve_script now key expiry s)) = usage_at now' k s"
    and "fst (fst (reserve_script now key expiry s)) = Suc (usage_at now key s)"
  using assms by (auto simp: usage_at_def reserve_script_def live_def Let_def split: option.splits if_splits)

text \<open>A reservation given back at a later time, seen from then: also when the counter has expired meanwhile.\<close>

lemma usage_give_back:
  assumes "now \<le> now'"
  shows "usage_at now' k (snd (release_script now' key (snd (reserve_script now key expiry s)))) = usage_at now' k s"
  using assms
  by (auto simp: usage_at_def release_script_def reserve_script_def live_def Let_def split: option.splits if_splits)

section \<open>The Redis limiter keeps the contract\<close>

text \<open>Redis answers both calls, at server times \<open>t\<close> and \<open>d\<close> seconds later.\<close>

definition answering :: "datetime \<Rightarrow> int \<Rightarrow> nat \<Rightarrow> redis_io" where
  "answering now t d =
     \<lparr>io_now = now, io_reserve_time = t, io_reserve = Replied, io_release_time = t + int d, io_release = Replied\<rparr>"

lemma answering_all:
  "io_reserve io = Replied \<Longrightarrow> io_release io = Replied \<Longrightarrow> io_reserve_time io \<le> io_release_time io \<Longrightarrow>
    io = answering (io_now io) (io_reserve_time io) (nat (io_release_time io - io_reserve_time io))"
  by (cases io) (simp add: answering_def)

interpretation redis_limiter: reservation_contract
  "RedisCreateJobRateLimiter str_uuid cfg (answering now t d)" "usage_at (t + int d)"
  for str_uuid cfg now t d
proof unfold_locales
  fix i s r s' k
  show "reserve (RedisCreateJobRateLimiter str_uuid cfg (answering now t d)) i s = (Inr (Some r), s') \<Longrightarrow>
      usage_at (t + int d) k (release (RedisCreateJobRateLimiter str_uuid cfg (answering now t d)) r s') = usage_at (t + int d) k s"
    using usage_give_back [of t "t + int d"]
    by (auto simp: RedisCreateJobRateLimiter_def limiter_reserve_def limiter_release_def answering_def Let_def split_def split: if_splits)
  show "reserve (RedisCreateJobRateLimiter str_uuid cfg (answering now t d)) i s = (Inr None, s') \<Longrightarrow>
      usage_at (t + int d) k s' = usage_at (t + int d) k s"
    by (auto simp: RedisCreateJobRateLimiter_def limiter_reserve_def answering_def Let_def split_def split: if_splits)
qed

section \<open>The window\<close>

text \<open>
  Reservations of one user, one after the other: each with the limiter's clock and the server's time
  when it is made.
\<close>

fun reserve_all ::
  "(uuid \<Rightarrow> string) \<Rightarrow> settings \<Rightarrow> uuid \<Rightarrow> (datetime \<times> int) list \<Rightarrow> counters
    \<Rightarrow> (exn + rate_limit_reservation option) list \<times> counters" where
  "reserve_all str_uuid cfg uid [] s = ([], s)"
| "reserve_all str_uuid cfg uid ((now, t) # ts) s =
     (let (r, s1) = limiter_reserve str_uuid cfg (answering now t 0) uid s;
          (rs, s2) = reserve_all str_uuid cfg uid ts s1
      in (r # rs, s2))"

text \<open>The window of a time; requests of one window share a key, requests of different windows do not.\<close>

definition window_of :: "settings \<Rightarrow> datetime \<Rightarrow> int" where
  "window_of cfg now = int_timestamp now div create_job_rate_window_seconds cfg"

lemma build_window_key_eq:
  "fst (build_window_key str_uuid cfg uid now) =
    ''rate:create-job:'' @ str_uuid uid @ '':'' @ str_int (window_of cfg now * create_job_rate_window_seconds cfg)"
  by (simp add: build_window_key_def window_of_def Let_def minus_mod_eq_div_mult)

lemma str_int_inject: "str_int m = str_int n \<longleftrightarrow> m = n"
proof
  assume "str_int m = str_int n"
  moreover have "ends_number []" by (simp add: ends_number_def)
  ultimately have "Some (JInt m, [] :: string) = Some (JInt n, [])"
    using read_number_str_int [of "[]" m] read_number_str_int [of "[]" n] by simp
  then show "m = n" by simp
qed simp

lemma window_key_inject:
  assumes "1 \<le> create_job_rate_window_seconds cfg"
  shows "fst (build_window_key str_uuid cfg uid now) = fst (build_window_key str_uuid cfg uid now') \<longleftrightarrow>
    window_of cfg now = window_of cfg now'"
  using assms by (auto simp: build_window_key_eq str_int_inject)

lemma same_window_close:
  assumes "1 \<le> create_job_rate_window_seconds cfg" and "window_of cfg now = window_of cfg now'"
  shows "int_timestamp now' - int_timestamp now < create_job_rate_window_seconds cfg"
proof -
  let ?w = "create_job_rate_window_seconds cfg"
  have "int_timestamp now = window_of cfg now * ?w + int_timestamp now mod ?w"
    "int_timestamp now' = window_of cfg now' * ?w + int_timestamp now' mod ?w" by (simp_all add: window_of_def)
  moreover have "0 \<le> int_timestamp now mod ?w" "int_timestamp now' mod ?w < ?w" using assms(1) by simp_all
  ultimately show ?thesis using assms(2) by simp
qed

text \<open>One reservation against a counter that is live, and against one that is not.\<close>

lemma limiter_reserve_live:
  assumes "key = fst (build_window_key str_uuid cfg uid now)" and "s key = Some c" and "t < ct_expires_at c" and "1 \<le> ct_value c"
  shows "isl (fst (limiter_reserve str_uuid cfg (answering now t d) uid s)) \<longleftrightarrow> create_job_rate_limit cfg < 1 + int (ct_value c)"
    and "snd (limiter_reserve str_uuid cfg (answering now t d) uid s) key = Some (c\<lparr>ct_value := ct_value c + 1\<rparr>)"
  using assms by (auto simp: limiter_reserve_def answering_def reserve_script_def live_def Let_def split_def)

lemma limiter_reserve_new:
  assumes "key = fst (build_window_key str_uuid cfg uid now)" and "usage_at t key s = 0"
  shows "isl (fst (limiter_reserve str_uuid cfg (answering now t d) uid s)) \<longleftrightarrow> create_job_rate_limit cfg < 1"
    and "snd (limiter_reserve str_uuid cfg (answering now t d) uid s) key =
      Some \<lparr>ct_value = 1, ct_expires_at = t + (create_job_rate_window_seconds cfg + KEY_EXPIRY_MARGIN_SECONDS)\<rparr>"
  using assms
  by (auto simp: limiter_reserve_def answering_def reserve_script_def usage_at_def Let_def split_def split: option.splits)

lemma reserve_all_live:
  assumes "\<And>now t. (now, t) \<in> set ts \<Longrightarrow> fst (build_window_key str_uuid cfg uid now) = key \<and> t < ct_expires_at c"
    and "s key = Some c" and "1 \<le> ct_value c"
  shows "map isl (fst (reserve_all str_uuid cfg uid ts s)) =
    map (\<lambda>i. create_job_rate_limit cfg < 1 + int (ct_value c + i)) [0..<length ts]"
  using assms
proof (induction ts arbitrary: s c)
  case (Cons a ts)
  obtain now t where a: "a = (now, t)" by fastforce
  note here = limiter_reserve_live [of key str_uuid cfg uid now s c t 0]
  let ?s = "snd (limiter_reserve str_uuid cfg (answering now t 0) uid s)"
  have key: "key = fst (build_window_key str_uuid cfg uid now)" "t < ct_expires_at c" using Cons.prems(1) [of now t] a by auto
  have "map isl (fst (reserve_all str_uuid cfg uid ts ?s)) =
      map (\<lambda>i. create_job_rate_limit cfg < 1 + int (ct_value (c\<lparr>ct_value := ct_value c + 1\<rparr>) + i)) [0..<length ts]"
    using Cons.prems here(2) [OF key(1) _ key(2)] by (intro Cons.IH) auto
  moreover have "[0..<Suc (length ts)] = 0 # map Suc [0..<length ts]" by (simp add: upt_conv_Cons map_Suc_upt del: upt_Suc)
  ultimately show ?case
    using here(1) [OF key(1) Cons.prems(2) key(2) Cons.prems(3)] by (simp add: a Let_def split_def algebra_simps del: upt_Suc)
qed simp

text \<open>
  All requests of one window: the counter lives until the last of them, provided the two clocks
  drift apart by no more than the margin.
\<close>

lemma reserve_all_window:
  assumes w: "1 \<le> create_job_rate_window_seconds cfg" and l: "1 \<le> create_job_rate_limit cfg"
    and same: "\<And>now t. (now, t) \<in> set ts \<Longrightarrow> window_of cfg now = k"
    and drift: "\<And>now t now' t'. (now, t) \<in> set ts \<Longrightarrow> (now', t') \<in> set ts \<Longrightarrow>
      t' - t \<le> int_timestamp now' - int_timestamp now + KEY_EXPIRY_MARGIN_SECONDS"
    and unused: "\<And>now t. (now, t) \<in> set ts \<Longrightarrow> usage_at t (fst (build_window_key str_uuid cfg uid now)) s = 0"
  shows "map isl (fst (reserve_all str_uuid cfg uid ts s)) = map (\<lambda>i. nat (create_job_rate_limit cfg) \<le> i) [0..<length ts]"
proof (cases ts)
  case (Cons a ts')
  obtain now t where a: "a = (now, t)" by fastforce
  define key where "key = fst (build_window_key str_uuid cfg uid now)"
  note first = limiter_reserve_new [OF key_def unused [of now t, folded key_def], of 0]
  let ?s = "snd (limiter_reserve str_uuid cfg (answering now t 0) uid s)"
  let ?c = "\<lparr>ct_value = 1, ct_expires_at = t + (create_job_rate_window_seconds cfg + KEY_EXPIRY_MARGIN_SECONDS)\<rparr>"
  have "fst (build_window_key str_uuid cfg uid now') = key \<and> t' < ct_expires_at ?c" if "(now', t') \<in> set ts'" for now' t'
  proof
    have now': "window_of cfg now = window_of cfg now'" using same [of now t] same [of now' t'] that Cons a by simp
    then show "fst (build_window_key str_uuid cfg uid now') = key" unfolding key_def by (simp add: window_key_inject [OF w])
    show "t' < ct_expires_at ?c" using drift [of now t now' t'] same_window_close [OF w now'] that Cons a by simp
  qed
  then have "map isl (fst (reserve_all str_uuid cfg uid ts' ?s)) =
      map (\<lambda>i. create_job_rate_limit cfg < 1 + int (ct_value ?c + i)) [0..<length ts']"
    using first(2) Cons a by (intro reserve_all_live) auto
  moreover have "[0..<Suc (length ts')] = 0 # map Suc [0..<length ts']" by (simp add: upt_conv_Cons map_Suc_upt del: upt_Suc)
  ultimately show ?thesis
    using first(1) l by (auto simp: Cons a Let_def split_def nat_le_iff simp del: upt_Suc)
qed simp

text \<open>The \<^verbatim>\<open>Retry-After\<close> of a refusal: positive, and within the window that is running.\<close>

lemma retry_after_bounds:
  assumes "1 \<le> create_job_rate_window_seconds cfg" and "build_window_key str_uuid cfg uid now = (key, reset)"
  shows "1 \<le> reset - int_timestamp now \<and> reset - int_timestamp now \<le> create_job_rate_window_seconds cfg \<and>
    (reset mod create_job_rate_window_seconds cfg = 0)"
proof -
  let ?w = "create_job_rate_window_seconds cfg" and ?n = "int_timestamp now"
  have r: "reset = ?n - ?n mod ?w + ?w" using assms(2) by (auto simp: build_window_key_def Let_def)
  have "0 \<le> ?n mod ?w" "?n mod ?w < ?w" using assms(1) by simp_all
  moreover have "reset mod ?w = 0" unfolding r by (simp add: mod_diff_left_eq [symmetric])
  ultimately show ?thesis by (simp add: r)
qed

lemma limiter_refusal:
  "reserve (RedisCreateJobRateLimiter str_uuid cfg io) i s = (Inl x, s1) \<Longrightarrow> \<exists>a b c. x = RateLimitExceededError a b c"
  by (auto simp: RedisCreateJobRateLimiter_def limiter_reserve_def Let_def split_def split: redis_call.splits if_splits)

lemma limiter_refused_counts:
  assumes "1 \<le> create_job_rate_window_seconds cfg"
    and "reserve (RedisCreateJobRateLimiter str_uuid cfg io) i s = (Inl x, s1)" and "io_reserve io = Replied"
  shows "usage_at (io_reserve_time io) (fst (build_window_key str_uuid cfg i (io_now io))) s1 =
    Suc (usage_at (io_reserve_time io) (fst (build_window_key str_uuid cfg i (io_now io))) s)"
  using assms usage_reserve_script(1) [of "create_job_rate_window_seconds cfg + KEY_EXPIRY_MARGIN_SECONDS" "io_reserve_time io"
      "fst (build_window_key str_uuid cfg i (io_now io))" s]
  by (auto simp: RedisCreateJobRateLimiter_def limiter_reserve_def KEY_EXPIRY_MARGIN_SECONDS_def Let_def split_def split: if_splits)

text \<open>Only the limiter refuses with \<^verbatim>\<open>RateLimitExceededError\<close>.\<close>

lemma create_job_refused:
  assumes "create_job rt lib rl e user key t payload seen db s = (Inl (RateLimitExceededError a b c), db', s', eff)"
  shows "\<exists>x s1. get_by_idempotency_key (cu_id user) key seen = None \<and> reserve rl (cu_id user) s = (Inl x, s1)"
proof (rule ccontr)
  assume no: "\<not> ?thesis"
  show False
  proof (cases "get_by_idempotency_key (cu_id user) key seen")
    case None
    with no obtain res1 s1 where r: "reserve rl (cu_id user) s = (Inr res1, s1)" by (metis surj_pair sum.exhaust)
    show ?thesis
      using assms unfolding create_job_insert [OF None r refl]
      by (auto simp: replay_def load_existing_job_def validate_existing_job_def split: option.splits if_splits)
  next
    case (Some ex)
    then show ?thesis using assms by (auto simp: create_job_existing replay_def validate_existing_job_def split: if_splits)
  qed
qed

text \<open>What a refusal tells the client: the limit, and a time to wait that ends with the window.\<close>

lemma refusal_headers:
  assumes w: "1 \<le> create_job_rate_window_seconds cfg" and "Inl x \<in> set (fst (reserve_all str_uuid cfg uid ts s))"
  shows "\<exists>now \<in> fst ` set ts. \<exists>retry. x = RateLimitExceededError (create_job_rate_limit cfg) retry (int_timestamp now + retry) \<and>
    1 \<le> retry \<and> retry \<le> create_job_rate_window_seconds cfg"
  using assms(2)
proof (induction ts arbitrary: s)
  case (Cons a ts)
  obtain now t where a: "a = (now, t)" by fastforce
  show ?case
  proof (cases "fst (limiter_reserve str_uuid cfg (answering now t 0) uid s) = Inl x")
    case True
    obtain key reset where key: "build_window_key str_uuid cfg uid now = (key, reset)" by fastforce
    from retry_after_bounds [OF w key] True show ?thesis
      by (auto simp: a limiter_reserve_def answering_def key Let_def split_def split: if_splits)
  next
    case False
    with Cons show ?thesis by (fastforce simp: a Let_def split_def)
  qed
qed simp

end
