(* ===== verification/Auth_Service.thy ===== *)
theory Auth_Service
  imports Job_Service
begin

text \<open>
  \<^verbatim>\<open>src/app/application/services/auth.py\<close> and \<^verbatim>\<open>src/app/core/security.py\<close>: registration, login, the
  access token and the identity behind a token, and the creation of administrators. Hashing of
  passwords (pwdlib) and signing of tokens (PyJWT) are parameters.
\<close>

section \<open>Passwords and tokens\<close>

datatype jwt_result = Decoded json_object | ExpiredSignature | InvalidToken

text \<open>
  \<open>sl_hash\<close> takes the random salt it uses; \<open>sl_verify\<close> may raise on a hash it does not know.
  \<open>sl_jwt_decode\<close> is given the current time, which PyJWT reads itself. \<open>sl_fromtimestamp\<close> is
  \<^verbatim>\<open>datetime.fromtimestamp(value, UTC)\<close>, \<open>sl_str\<close> is \<^verbatim>\<open>str\<close> on a value that is not a string.
\<close>

record security_lib =
  sl_hash :: "nat \<Rightarrow> string \<Rightarrow> string"
  sl_verify :: "string \<Rightarrow> string \<Rightarrow> exn + bool"
  sl_jwt_encode :: "json_object \<Rightarrow> string \<Rightarrow> string"
  sl_jwt_decode :: "datetime \<Rightarrow> string \<Rightarrow> string \<Rightarrow> jwt_result"
  sl_fromtimestamp :: "json \<Rightarrow> exn + datetime"
  sl_str :: "json \<Rightarrow> string"

text \<open>
  Documented behaviour: a password verifies against its own hash; a token with just the five claims of the
  program, strings and for \<^verbatim>\<open>iat\<close> and \<^verbatim>\<open>exp\<close> integers, that was signed with the secret decodes to its claims from the
  second \<^verbatim>\<open>iat\<close> until the second \<^verbatim>\<open>exp\<close> and is expired afterwards.
\<close>

definition five_claims :: "string \<Rightarrow> string \<Rightarrow> int \<Rightarrow> int \<Rightarrow> string \<Rightarrow> json_object" where
  "five_claims sub role iat until jti =
     [(''sub'', JStr sub), (''role'', JStr role), (''iat'', JInt iat), (''exp'', JInt until), (''jti'', JStr jti)]"

definition security_lib_ok :: "security_lib \<Rightarrow> bool" where
  "security_lib_ok sec \<longleftrightarrow>
     (\<forall>n p. sl_verify sec p (sl_hash sec n p) = Inr True) \<and>
     (\<forall>now secret sub role iat exp jti. timedelta_seconds iat \<le> now \<longrightarrow>
        sl_jwt_decode sec now (sl_jwt_encode sec (five_claims sub role iat exp jti) secret) secret =
          (if timedelta_seconds exp \<le> now then ExpiredSignature else Decoded (five_claims sub role iat exp jti))) \<and>
     (\<forall>n. 0 \<le> n \<longrightarrow> n < 253402300800 \<longrightarrow> sl_fromtimestamp sec (JInt n) = Inr (timedelta_seconds n))"

definition normalize_email :: "string \<Rightarrow> string" where
  "normalize_email email = py_lower (py_strip email)"

record access_token_payload =
  at_subject :: uuid
  at_role :: UserRole
  at_issued_at :: datetime
  at_expires_at :: datetime
  at_jwt_id :: string

definition create_access_token ::
  "security_lib \<Rightarrow> text_lib \<Rightarrow> settings \<Rightarrow> datetime \<Rightarrow> uuid \<Rightarrow> uuid \<Rightarrow> UserRole \<Rightarrow> string \<times> datetime" where
  "create_access_token sec lib cfg now jti uid role =
     (let issued_at = now;
          expires_at = issued_at + timedelta_seconds (60 * access_token_ttl_minutes cfg);
          payload = [(''sub'', JStr (tl_str_uuid lib uid)), (''role'', JStr (UserRole_value role)),
                     (''iat'', JInt (int_timestamp issued_at)), (''exp'', JInt (int_timestamp expires_at)),
                     (''jti'', JStr (tl_str_uuid lib jti))]
      in (sl_jwt_encode sec payload (jwt_secret cfg), expires_at))"

text \<open>\<^verbatim>\<open>uuid.UUID(value)\<close> calls a string method on its argument.\<close>

fun py_uuid :: "text_lib \<Rightarrow> json \<Rightarrow> exn + uuid" where
  "py_uuid lib (JStr s) = or_value_error (tl_uuid lib) (JStr s)"
| "py_uuid lib _ = Inl (AttributeError ''replace'')"

fun py_role :: "json \<Rightarrow> exn + UserRole" where
  "py_role (JStr s) = UserRole_of_value s"
| "py_role _ = Inl (ValueError ''not a valid UserRole'')"

fun py_str :: "security_lib \<Rightarrow> json \<Rightarrow> string" where
  "py_str sec (JStr s) = s"
| "py_str sec j = sl_str sec j"

text \<open>\<^verbatim>\<open>except (KeyError, TypeError, ValueError)\<close>\<close>

fun as_invalid_token :: "exn + 'a \<Rightarrow> exn + 'a" where
  "as_invalid_token (Inl (KeyError _)) = Inl (AuthenticationError ''Access token is invalid'')"
| "as_invalid_token (Inl (TypeError _)) = Inl (AuthenticationError ''Access token is invalid'')"
| "as_invalid_token (Inl (ValueError _)) = Inl (AuthenticationError ''Access token is invalid'')"
| "as_invalid_token r = r"

definition decode_access_token ::
  "security_lib \<Rightarrow> text_lib \<Rightarrow> settings \<Rightarrow> datetime \<Rightarrow> string \<Rightarrow> exn + access_token_payload" where
  "decode_access_token sec lib cfg now token =
     (case sl_jwt_decode sec now token (jwt_secret cfg) of
        ExpiredSignature \<Rightarrow> Inl (AuthenticationError ''Access token has expired'')
      | InvalidToken \<Rightarrow> Inl (AuthenticationError ''Access token is invalid'')
      | Decoded payload \<Rightarrow>
          as_invalid_token (
            bind_result (bind_result (dict_item ''sub'' payload) (py_uuid lib)) (\<lambda>subject.
            bind_result (bind_result (dict_item ''role'' payload) py_role) (\<lambda>role.
            bind_result (bind_result (dict_item ''iat'' payload) (sl_fromtimestamp sec)) (\<lambda>issued_at.
            bind_result (bind_result (dict_item ''exp'' payload) (sl_fromtimestamp sec)) (\<lambda>expires_at.
            bind_result (dict_item ''jti'' payload) (\<lambda>jti.
            Inr \<lparr>at_subject = subject, at_role = role, at_issued_at = issued_at, at_expires_at = expires_at,
                 at_jwt_id = py_str sec jti\<rparr>)))))))"

section \<open>The service\<close>

record login_result_dto =
  lr_access_token :: string
  lr_token_type :: string
  lr_expires_at :: datetime

definition to_user_public_dto :: "user \<Rightarrow> user_public_dto" where
  "to_user_public_dto u =
     \<lparr>upd_id = user_id u, upd_email = user_email u, upd_role = user_role u, upd_is_active = user_is_active u,
      upd_created_at = user_created_at u, upd_updated_at = user_updated_at u\<rparr>"

text \<open>
  \<open>seen\<close> is the database when the e-mail is looked up, \<open>db\<close> the one the insert meets: another
  registration may commit in between.
\<close>

definition register_user ::
  "security_lib \<Rightarrow> driver \<Rightarrow> env \<Rightarrow> nat \<Rightarrow> string \<Rightarrow> string \<Rightarrow> database \<Rightarrow> database \<Rightarrow> (exn + user_public_dto) \<times> database" where
  "register_user sec driver e salt email password seen db =
     (let normalized_email = normalize_email email;
          password_hash = sl_hash sec salt password
      in case with_uow (\<lambda>u.
           if get_by_email normalized_email seen \<noteq> None then (Inl DuplicateEmailError, u, ())
           else let (r, u1) = exec (create_user driver e normalized_email password_hash USER True) u
                in case r of
                     Inl x \<Rightarrow> (Inl x, u1, ())
                   | Inr user \<Rightarrow>
                       (case commit (commit_ok e 0) u1 of
                          Inl x \<Rightarrow> (Inl x, u1, ())
                        | Inr u2 \<Rightarrow> (Inr user, u2, ()))) db of
         (r, db', _) \<Rightarrow> (map_sum id to_user_public_dto r, db'))"

definition login_user ::
  "security_lib \<Rightarrow> text_lib \<Rightarrow> settings \<Rightarrow> datetime \<Rightarrow> uuid \<Rightarrow> string \<Rightarrow> string \<Rightarrow> database \<Rightarrow> exn + login_result_dto" where
  "login_user sec lib cfg now jti email password db =
     (case get_by_email (normalize_email email) db of
        None \<Rightarrow> Inl (AuthenticationError ''Invalid email or password'')
      | Some u \<Rightarrow>
          bind_result (sl_verify sec password (user_password_hash u)) (\<lambda>verified.
          if \<not> verified then Inl (AuthenticationError ''Invalid email or password'')
          else if \<not> user_is_active u then Inl InactiveUserError
          else let (token, expires_at) = create_access_token sec lib cfg now jti (user_id u) (user_role u)
               in Inr \<lparr>lr_access_token = token, lr_token_type = ''bearer'', lr_expires_at = expires_at\<rparr>))"

definition get_current_user ::
  "security_lib \<Rightarrow> text_lib \<Rightarrow> settings \<Rightarrow> datetime \<Rightarrow> string \<Rightarrow> database \<Rightarrow> exn + current_user_dto" where
  "get_current_user sec lib cfg now access_token db =
     bind_result (decode_access_token sec lib cfg now access_token) (\<lambda>claims.
     case users_get_by_id (at_subject claims) db of
       None \<Rightarrow> Inl (AuthenticationError ''Access token is invalid'')
     | Some u \<Rightarrow>
         if \<not> user_is_active u then Inl InactiveUserError
         else Inr \<lparr>cu_id = user_id u, cu_email = user_email u, cu_role = user_role u, cu_is_active = user_is_active u\<rparr>)"

definition service_create_or_update_admin ::
  "security_lib \<Rightarrow> env \<Rightarrow> nat \<Rightarrow> string \<Rightarrow> string \<Rightarrow> database \<Rightarrow> (exn + user_public_dto) \<times> database" where
  "service_create_or_update_admin sec e salt email password db =
     (let normalized_email = normalize_email email;
          password_hash = sl_hash sec salt password
      in case with_uow (\<lambda>u.
           let (r, u1) = exec (create_or_update_admin e normalized_email password_hash) u
           in case r of
                Inl x \<Rightarrow> (Inl x, u1, ())
              | Inr user \<Rightarrow>
                  (case commit (commit_ok e 0) u1 of
                     Inl x \<Rightarrow> (Inl x, u1, ())
                   | Inr u2 \<Rightarrow> (Inr user, u2, ()))) db of
         (r, db', _) \<Rightarrow> (map_sum id to_user_public_dto r, db'))"

section \<open>Lemmas\<close>

lemma int_timestamp_le: "0 \<le> t \<Longrightarrow> timedelta_seconds (int_timestamp t) \<le> t"
  by (simp add: timedelta_seconds_def int_timestamp_def)

text \<open>The years \<^verbatim>\<open>datetime\<close> can represent end with 9999.\<close>

lemma int_timestamp_range:
  assumes "0 \<le> t" and "t < timedelta_seconds 253402300800"
  shows "0 \<le> int_timestamp t \<and> int_timestamp t < 253402300800"
proof -
  have "t div 1000000 < 253402300800" using assms(2) by (simp add: timedelta_seconds_def)
  with assms(1) show ?thesis by (simp add: int_timestamp_def)
qed

lemma decode_created_token:
  assumes sec: "security_lib_ok sec" and lib: "text_lib_ok lib"
    and times: "0 \<le> now" "now \<le> t" "1 \<le> access_token_ttl_minutes cfg"
      "now + timedelta_seconds (60 * access_token_ttl_minutes cfg) < timedelta_seconds 253402300800"
    and token: "create_access_token sec lib cfg now jti uid role = (token, expires_at)"
  shows "expires_at = now + timedelta_seconds (60 * access_token_ttl_minutes cfg) \<and>
    (if timedelta_seconds (int_timestamp expires_at) \<le> t
     then decode_access_token sec lib cfg t token = Inl (AuthenticationError ''Access token has expired'')
     else \<exists>claims. decode_access_token sec lib cfg t token = Inr claims \<and> at_subject claims = uid \<and> at_role claims = role)"
proof -
  let ?claims = "[(''sub'', JStr (tl_str_uuid lib uid)), (''role'', JStr (UserRole_value role)),
    (''iat'', JInt (int_timestamp now)), (''exp'', JInt (int_timestamp expires_at)), (''jti'', JStr (tl_str_uuid lib jti))]"
  have exp: "expires_at = now + timedelta_seconds (60 * access_token_ttl_minutes cfg)"
    and tok: "token = sl_jwt_encode sec ?claims (jwt_secret cfg)"
    using token by (auto simp: create_access_token_def Let_def)
  have "timedelta_seconds (int_timestamp now) \<le> t" using int_timestamp_le [OF times(1)] times(2) by simp
  then have dec: "sl_jwt_decode sec t token (jwt_secret cfg) =
      (if timedelta_seconds (int_timestamp expires_at) \<le> t then ExpiredSignature else Decoded ?claims)"
    using sec unfolding security_lib_ok_def five_claims_def tok by simp
  have "sl_fromtimestamp sec (JInt (int_timestamp x)) = Inr (timedelta_seconds (int_timestamp x))" if "x \<in> {now, expires_at}" for x
  proof -
    have "0 \<le> x" "x < timedelta_seconds 253402300800" using times that by (auto simp: exp timedelta_seconds_def)
    then show ?thesis using int_timestamp_range sec unfolding security_lib_ok_def by blast
  qed
  moreover have "tl_uuid lib (JStr (tl_str_uuid lib uid)) = Some uid" using lib by (simp add: text_lib_ok_def)
  ultimately show ?thesis
    by (simp add: exp decode_access_token_def dec dict_item_def or_value_error_def)
qed

text \<open>A scope that makes one write and commits, with its outcome spelled out.\<close>

lemma with_uow_write:
  "with_uow (\<lambda>u. case exec f u of
        (Inl x, u1) \<Rightarrow> (Inl x, u1, ())
      | (Inr v, u1) \<Rightarrow> (case commit ok u1 of Inl x \<Rightarrow> (Inl x, u1, ()) | Inr u2 \<Rightarrow> (Inr v, u2, ()))) db =
     (case f db of
        (Inl x, _) \<Rightarrow> (Inl x, db, ())
      | (Inr v, db') \<Rightarrow> if ok then (Inr v, db', ()) else (Inl DatabaseError, db, ()))"
proof -
  obtain r d where "f db = (r, d)" by fastforce
  then show ?thesis by (cases r) (simp_all add: uow_defs)
qed

lemma register_user_eq:
  "register_user sec d e salt email pw seen db =
     (if get_by_email (normalize_email email) seen \<noteq> None then (Inl DuplicateEmailError, db)
      else case create_user d e (normalize_email email) (sl_hash sec salt pw) USER True db of
             (Inl x, _) \<Rightarrow> (Inl x, db)
           | (Inr u, db') \<Rightarrow> if commit_ok e 0 then (Inr (to_user_public_dto u), db') else (Inl DatabaseError, db))"
proof (cases "get_by_email (normalize_email email) seen")
  case None
  then show ?thesis by (simp add: register_user_def with_uow_write Let_def split: prod.split sum.split)
qed (simp add: register_user_def uow_defs)

lemma service_create_or_update_admin_eq:
  "service_create_or_update_admin sec e salt email pw db =
     (case create_or_update_admin e (normalize_email email) (sl_hash sec salt pw) db of
        (Inl x, _) \<Rightarrow> (Inl x, db)
      | (Inr u, db') \<Rightarrow> if commit_ok e 0 then (Inr (to_user_public_dto u), db') else (Inl DatabaseError, db))"
  by (simp add: service_create_or_update_admin_def with_uow_write Let_def split: prod.split sum.split)

lemma register_user_created:
  assumes "register_user sec d e salt email pw seen db = (Inr dto, db')"
  obtains u where "dto = to_user_public_dto u" "db' = add_user u db" "users_insert_violation u db = None"
    "user_email u = normalize_email email" "user_password_hash u = sl_hash sec salt pw" "user_role u = USER" "user_is_active u"
  using assms by (auto simp: register_user_eq create_user_def Let_def split: if_splits option.splits)

lemma duplicate_email_recognised:
  assumes "driver_reports_unique d"
  shows "is_duplicate_email_integrity_error (d (UniqueViolation ''uq_users_email''))"
proof -
  let ?c = "''uq_users_email''"
  have "py_contains ''users'' (pre @ ?c @ post)" "py_contains ''email'' (pre @ ?c @ post)" for pre post
    using py_contains_append [of "''users''" "pre @ ''uq_''" "''_email'' @ post"]
      py_contains_append [of "''email''" "pre @ ''uq_users_''" post] by simp_all
  with assms show ?thesis
    by (auto simp: driver_reports_unique_def is_duplicate_email_integrity_error_def Let_def split: option.split
        dest!: spec [of _ ?c])
qed

text \<open>The account operations touch the \<^verbatim>\<open>users\<close> table only, keep its keys unique and remove nobody.\<close>

definition accounts_only :: "database \<Rightarrow> database \<Rightarrow> bool" where
  "accounts_only db db' \<longleftrightarrow>
     db_jobs db' = db_jobs db \<and> db_outbox_events db' = db_outbox_events db \<and> db_job_logs db' = db_job_logs db \<and>
     user_id ` set (db_users db) \<subseteq> user_id ` set (db_users db') \<and> (user_keys_ok db \<longrightarrow> user_keys_ok db')"

lemma accounts_only_refl [simp]: "accounts_only db db"
  by (simp add: accounts_only_def)

lemma register_user_accounts:
  "register_user sec d e salt email pw seen db = (res, db') \<Longrightarrow> accounts_only db db'"
  using create_user_keys_ok [of db d e "normalize_email email" "sl_hash sec salt pw" USER True]
  by (auto simp: accounts_only_def register_user_eq create_user_def Let_def split: if_splits option.splits)

lemma create_or_update_admin_frame:
  assumes "create_or_update_admin e m h db = (res, db')"
  shows "accounts_only db db'"
proof (cases "get_by_email m db")
  case None
  then show ?thesis using assms create_or_update_admin_keys_ok [of db e m h]
    by (auto simp: accounts_only_def create_or_update_admin_def Let_def split: option.splits)
next
  case (Some u)
  define u1 where "u1 = u\<lparr>user_password_hash := h, user_role := ADMIN, user_is_active := True\<rparr>"
  define u2 where "u2 = (if u1 = u then u else u1\<lparr>user_updated_at := utc_now e 0\<rparr>)"
  have "user_id u2 = user_id u" by (simp add: u1_def u2_def)
  moreover have "db' = db\<lparr>db_users := update_where (\<lambda>x. user_id x = user_id u) (\<lambda>_. u2) (db_users db)\<rparr>"
    using assms Some unfolding create_or_update_admin_def Let_def u2_def u1_def by auto
  moreover have "map user_id (update_where (\<lambda>x. user_id x = user_id u) (\<lambda>_. u2) (db_users db)) = map user_id (db_users db)"
    using \<open>user_id u2 = user_id u\<close> by (intro map_update_where) simp
  then have "user_id ` set (update_where (\<lambda>x. user_id x = user_id u) (\<lambda>_. u2) (db_users db)) = user_id ` set (db_users db)"
    by (metis list.set_map)
  ultimately show ?thesis
    using assms create_or_update_admin_keys_ok [of db e m h] by (auto simp: accounts_only_def)
qed

lemma admin_accounts:
  "service_create_or_update_admin sec e salt email pw db = (res, db') \<Longrightarrow> accounts_only db db'"
  using create_or_update_admin_frame [of e "normalize_email email" "sl_hash sec salt pw" db]
  by (auto simp: service_create_or_update_admin_eq split: prod.splits sum.splits if_splits)

end
