(* ===== verification/System_Model.thy ===== *)
theory System_Model
  imports Outbox_Publisher Stale_Recovery Rate_Limiter Auth_Service
begin

text \<open>
  The running system: the database, the execute queue and dead-letter queue of RabbitMQ, the
  rate limit counters, and the executions in flight in the workers. Its steps are the
  transactions of the services and workers in any order, with every failure the code admits: a
  COMMIT that fails, a publish that raises before or after the broker took the message, a
  cancellation check that fails, a worker that dies in the middle of an execution, a message from
  elsewhere. The publisher records a failed publish in a second transaction; until then the failure
  waits in \<open>sys_failures\<close> (and stays there when the publisher dies first).
\<close>

section \<open>State and steps\<close>

record flight =
  fl_message :: message
  fl_claim :: execution_claim
  fl_polls :: "poll list"

record system =
  sys_db :: database
  sys_queue :: "message list"
  sys_dead :: "message list"
  sys_flights :: "flight list"
  sys_counters :: counters
  sys_failures :: "(outbox_event \<times> string) list"

definition initial_system :: system where
  "initial_system = \<lparr>sys_db = empty_database, sys_queue = [], sys_dead = [], sys_flights = [], sys_counters = Map.empty,
     sys_failures = []\<rparr>"

text \<open>
  The first \<open>n\<close> draws of \<^verbatim>\<open>uuid4\<close> are new: distinct, and different from the event
  identifiers and execution tokens in use. (Identifiers of users and jobs need no such
  assumption, the primary keys reject a repetition.)
\<close>

definition used_uuids :: "system \<Rightarrow> uuid set" where
  "used_uuids s =
     ev_id ` set (db_outbox_events (sys_db s)) \<union>
     {tok. \<exists>r \<in> set (db_jobs (sys_db s)). job_execution_token r = Some tok} \<union>
     (\<lambda>fl. cl_execution_token (fl_claim fl)) ` set (sys_flights s)"

definition fresh :: "nat \<Rightarrow> env \<Rightarrow> system \<Rightarrow> bool" where
  "fresh n e s \<longleftrightarrow> inj_on (uuid4 e) {..<n} \<and> uuid4 e ` {..<n} \<inter> used_uuids s = {}"

inductive step :: "runtime \<Rightarrow> text_lib \<Rightarrow> system \<Rightarrow> system \<Rightarrow> bool" for rt lib where
  register: "register_user sec (rt_driver rt) e salt email password seen (sys_db s) = (res, db') \<Longrightarrow>
     step rt lib s (s\<lparr>sys_db := db'\<rparr>)"
| create_admin: "service_create_or_update_admin sec e salt email password (sys_db s) = (res, db') \<Longrightarrow>
     step rt lib s (s\<lparr>sys_db := db'\<rparr>)"
| create: "fresh 2 e s \<Longrightarrow>
     create_job rt lib (RedisCreateJobRateLimiter (tl_str_uuid lib) (rt_settings rt) io) e user key t payload seen
       (sys_db s) (sys_counters s) = (res, db', counters', eff) \<Longrightarrow>
     step rt lib s (s\<lparr>sys_db := db', sys_counters := counters'\<rparr>)"
| cancel: "cancel_job e user i reread (sys_db s) = (res, db', eff) \<Longrightarrow>
     step rt lib s (s\<lparr>sys_db := db'\<rparr>)"
| publish: "process_claimed_event rt e locked pr i (sys_db s) = (res, db', ms) \<Longrightarrow>
     step rt lib s (s\<lparr>sys_db := db', sys_queue := sys_queue s @ ms,
       sys_failures := sys_failures s @ publish_failures res\<rparr>)"
| publish_failed: "sys_failures s = fs @ (ev, er) # fs' \<Longrightarrow> record_failure e ev er (sys_db s) = (res, db', ms) \<Longrightarrow>
     step rt lib s (s\<lparr>sys_db := db', sys_failures := fs @ fs'\<rparr>)"
| receive_acked: "fresh 2 e s \<Longrightarrow> sys_queue s = q @ msg # q' \<Longrightarrow>
     receive_message rt w e msg (sys_db s) = (Settled Ack, db', ns) \<Longrightarrow>
     step rt lib s (s\<lparr>sys_db := db', sys_queue := q @ q'\<rparr>)"
| receive_rejected: "sys_queue s = q @ msg # q' \<Longrightarrow>
     receive_message rt w e msg (sys_db s) = (Settled Reject, db', ns) \<Longrightarrow>
     step rt lib s (s\<lparr>sys_db := db', sys_queue := q @ q', sys_dead := sys_dead s @ [msg]\<rparr>)"
| receive_unsettled: "sys_queue s = q @ msg # q' \<Longrightarrow>
     receive_message rt w e msg (sys_db s) = (Unsettled x, db', ns) \<Longrightarrow>
     step rt lib s (s\<lparr>sys_db := db'\<rparr>)"
| receive_claimed: "fresh 2 e s \<Longrightarrow> sys_queue s = q @ msg # q' \<Longrightarrow>
     receive_message rt w e msg (sys_db s) = (Claimed claim, db', ns) \<Longrightarrow>
     step rt lib s (s\<lparr>sys_db := db', sys_queue := q @ q',
       sys_flights := sys_flights s @ [\<lparr>fl_message = msg, fl_claim = claim, fl_polls = []\<rparr>]\<rparr>)"
| poll: "sys_flights s = fs @ fl # fs' \<Longrightarrow> run_handler rt (fl_claim fl) (fl_polls fl) = Suspended \<Longrightarrow>
     step rt lib s (s\<lparr>sys_flights := fs @
       fl\<lparr>fl_polls := fl_polls fl @ [poll_answer ok (fl_claim fl) (sys_db s)]\<rparr> # fs'\<rparr>)"
| finish: "fresh 1 e s \<Longrightarrow> sys_flights s = fs @ fl # fs' \<Longrightarrow>
     execute_claim rt e (fl_claim fl) (fl_polls fl) (sys_db s) = Some (Inr (), db', ns) \<Longrightarrow>
     step rt lib s (s\<lparr>sys_db := db', sys_flights := fs @ fs'\<rparr>)"
| finish_raised: "fresh 1 e s \<Longrightarrow> sys_flights s = fs @ fl # fs' \<Longrightarrow>
     execute_claim rt e (fl_claim fl) (fl_polls fl) (sys_db s) = Some (Inl x, db', ns) \<Longrightarrow>
     step rt lib s (s\<lparr>sys_db := db', sys_flights := fs @ fs', sys_queue := sys_queue s @ [fl_message fl]\<rparr>)"
| crash: "sys_flights s = fs @ fl # fs' \<Longrightarrow>
     step rt lib s (s\<lparr>sys_flights := fs @ fs', sys_queue := sys_queue s @ [fl_message fl]\<rparr>)"
| recover: "fresh (nat (recovery_batch_size (rt_settings rt))) e s \<Longrightarrow>
     recover_due_batch_once rt e locked (sys_db s) = (res, db', ns) \<Longrightarrow>
     step rt lib s (s\<lparr>sys_db := db'\<rparr>)"
| foreign_message: "step rt lib s (s\<lparr>sys_queue := sys_queue s @ [msg]\<rparr>)"

inductive_cases step_cases: "step rt lib s s'"

definition reachable :: "runtime \<Rightarrow> text_lib \<Rightarrow> system \<Rightarrow> bool" where
  "reachable rt lib s \<longleftrightarrow> (step rt lib)\<^sup>*\<^sup>* initial_system s"

section \<open>The invariant\<close>

text \<open>A claim agrees with the row as long as the row carries its token.\<close>

definition claim_ok :: "database \<Rightarrow> execution_claim \<Rightarrow> bool" where
  "claim_ok db cl \<longleftrightarrow>
     je_max_retries (cl_job cl) = 3 \<and> 1 \<le> cl_attempt_number cl \<and> cl_attempt_number cl \<le> 4 \<and>
     (\<forall>r \<in> set (db_jobs db). job_execution_token r = Some (cl_execution_token cl) \<longrightarrow>
        job_attempt_count r = cl_attempt_number cl \<and> job_id r = je_id (cl_job cl))"

definition tokens_ok :: "system \<Rightarrow> bool" where
  "tokens_ok s \<longleftrightarrow> distinct (map (\<lambda>fl. cl_execution_token (fl_claim fl)) (sys_flights s)) \<and>
     (\<forall>fl \<in> set (sys_flights s). claim_ok (sys_db s) (fl_claim fl))"

definition capacity_ok :: "settings \<Rightarrow> database \<Rightarrow> bool" where
  "capacity_ok cfg db \<longleftrightarrow> (\<forall>ow. count_running_for_owner ow db \<le> max 0 (job_max_running_per_user cfg))"

text \<open>A message that dispatches job \<open>i\<close>.\<close>

definition carries :: "codec \<Rightarrow> uuid \<Rightarrow> message \<Rightarrow> bool" where
  "carries c i msg \<longleftrightarrow> (\<exists>m. model_validate_json c (msg_body msg) = Inr m \<and> dm_job_id m = i)"

definition awaits :: "uuid \<Rightarrow> database \<Rightarrow> bool" where
  "awaits i db \<longleftrightarrow> (\<exists>ev \<in> set (db_outbox_events db). awaits_dispatch i ev)"

definition row_dispatched :: "codec \<Rightarrow> database \<Rightarrow> message list \<Rightarrow> job \<Rightarrow> bool" where
  "row_dispatched c db q r \<longleftrightarrow>
     (job_status r = PENDING \<longrightarrow> awaits (job_id r) db) \<and>
     (job_status r = QUEUED \<longrightarrow> awaits (job_id r) db \<or> (\<exists>msg \<in> set q. carries c (job_id r) msg))"

definition dispatch_ok :: "codec \<Rightarrow> system \<Rightarrow> bool" where
  "dispatch_ok c s \<longleftrightarrow> (\<forall>r \<in> set (db_jobs (sys_db s)). row_dispatched c (sys_db s) (sys_queue s) r)"

definition system_ok :: "runtime \<Rightarrow> system \<Rightarrow> bool" where
  "system_ok rt s \<longleftrightarrow>
     db_ok (rt_codec rt) (sys_db s) \<and> tokens_ok s \<and> capacity_ok (rt_settings rt) (sys_db s) \<and>
     dispatch_ok (rt_codec rt) s"

lemma initial_ok: "system_ok rt initial_system"
  by (simp add: system_ok_def initial_system_def empty_database_def db_ok_def jobs_ok_def job_keys_ok_def
      user_keys_ok_def events_ok_def logs_ok_def tokens_ok_def capacity_ok_def dispatch_ok_def
      count_running_for_owner_def rowcount_def)

section \<open>Effects of transactions\<close>

text \<open>
  \<open>safe c L I db db'\<close>: the jobs follow moves in \<open>L\<close>, the other tables stay well-formed, no
  awaiting dispatch event is lost, and every pending or queued job awaits dispatch or was in
  that status before, except possibly those in \<open>I\<close>.
\<close>

definition safe :: "codec \<Rightarrow> move set \<Rightarrow> uuid set \<Rightarrow> database \<Rightarrow> database \<Rightarrow> bool" where
  "safe c L I db db' \<longleftrightarrow>
     evolves L db db' \<and> db_users db' = db_users db \<and>
     distinct (map ev_id (db_outbox_events db')) \<and>
     (\<forall>ev \<in> set (db_outbox_events db'). event_ok c db ev) \<and>
     (\<forall>l \<in> set (db_job_logs db'). job_exists db (log_job_id l)) \<and>
     (\<forall>i. awaits i db \<longrightarrow> awaits i db') \<and>
     (\<forall>r' \<in> set (db_jobs db'). job_status r' \<in> {PENDING, QUEUED} \<longrightarrow>
        job_id r' \<in> I \<or> awaits (job_id r') db' \<or>
        (\<exists>r \<in> set (db_jobs db). job_id r = job_id r' \<and> job_status r = job_status r'))"

lemma safe_db_ok: "db_ok c db \<Longrightarrow> safe c L I db db' \<Longrightarrow> db_ok c db'"
  unfolding safe_def by (rule db_ok_evolves) auto

lemma safe_refl: "db_ok c db \<Longrightarrow> safe c L I db db"
  by (auto simp: safe_def db_ok_def events_ok_def logs_ok_def)

lemma safe_mono: "safe c L I db db' \<Longrightarrow> L \<subseteq> L' \<Longrightarrow> I \<subseteq> I' \<Longrightarrow> safe c L' I' db db'"
  by (auto simp: safe_def intro: evolves_mono)

lemma safe_log: "safe c L I db d \<Longrightarrow> job_exists db i \<Longrightarrow> safe c L I db (create_system_log e n k i lv m d)"
  by (auto simp: safe_def create_system_log_def add_log_def awaits_def intro: evolves_jobs_cong)

lemma awaits_same_events: "db_outbox_events d' = db_outbox_events d \<Longrightarrow> awaits i d' \<longleftrightarrow> awaits i d"
  by (simp add: awaits_def)

lemma safe_event:
  assumes c: "codec_ok c" and d: "safe c L I db d" and i: "job_exists db i"
    and new: "uuid4 e n \<notin> ev_id ` set (db_outbox_events d)"
  shows "safe c L (I - {i}) db (snd (create_dispatch_event_if_absent c e n k i t d))"
proof -
  let ?d = "snd (create_dispatch_event_if_absent c e n k i t d)"
  have ok: "event_ok c db (dispatch_event c e n k i t)"
    using i model_validate_dispatch_event [OF c, of e n k i t]
    by (simp add: event_ok_def dispatch_event_def Let_def)
  have here: "awaits i ?d" using create_if_absent_awaits by (simp add: awaits_def)
  have keep: "awaits j ?d" if "awaits j d" for j
    using that create_if_absent_keeps by (fastforce simp: awaits_def)
  have "distinct (map ev_id (db_outbox_events ?d))" "\<forall>ev \<in> set (db_outbox_events ?d). event_ok c db ev"
    using create_if_absent_events [of c e n k i t d] d new ok by (auto simp: safe_def)
  then show ?thesis
    using d here keep by (auto simp: safe_def intro: evolves_jobs_cong)
qed

text \<open>A conditional update of one row: its moves, and which rows it can queue.\<close>

lemma safe_update:
  assumes ok: "db_ok c db" and ev: "evolves L db (snd (update_jobs p f db))"
    and one: "\<And>r. r \<in> set (db_jobs db) \<Longrightarrow> p r \<Longrightarrow> job_id (f r) = job_id r \<and> (job_status (f r) \<in> {PENDING, QUEUED} \<longrightarrow> job_id r \<in> I)"
  shows "safe c L I db (snd (update_jobs p f db))"
proof -
  have "job_id r' \<in> I \<or> (\<exists>r \<in> set (db_jobs db). job_id r = job_id r' \<and> job_status r = job_status r')"
    if "r' \<in> set (update_where p f (db_jobs db))" "job_status r' \<in> {PENDING, QUEUED}" for r'
    using that(1)
  proof (rule in_update_whereE)
    fix r assume "r \<in> set (db_jobs db)" and "r' = (if p r then f r else r)"
    with one [of r] that(2) show ?thesis by (cases "p r") auto
  qed
  then have rows: "\<forall>r' \<in> set (update_where p f (db_jobs db)). job_status r' \<in> {PENDING, QUEUED} \<longrightarrow>
      job_id r' \<in> I \<or> awaits (job_id r') (snd (update_jobs p f db)) \<or>
      (\<exists>r \<in> set (db_jobs db). job_id r = job_id r' \<and> job_status r = job_status r')"
    by blast
  have "awaits i db \<longrightarrow> awaits i (snd (update_jobs p f db))" for i by (simp add: awaits_def)
  with ok ev rows show ?thesis
    by (simp add: safe_def db_ok_def events_ok_def logs_ok_def) (simp add: snd_update_jobs)
qed

text \<open>An update that reports success found a row.\<close>

lemma hit_job_exists:
  assumes "fst (update_jobs p f db)" and "\<And>r. p r \<Longrightarrow> job_id r = i"
  shows "job_exists db i"
proof -
  from assms(1) have "filter p (db_jobs db) \<noteq> []" by (auto simp: update_jobs_def rowcount_def)
  then obtain r where "r \<in> set (db_jobs db)" "p r" by (metis filter_False)
  with assms(2) show ?thesis by (auto simp: job_exists_def)
qed

section \<open>The worker's transactions\<close>

lemma safe_settle:
  assumes "db_ok c db" and "changed \<Longrightarrow> safe c L I db db'" and "settle changed ok v db' ns w db = (res, d, out)"
  shows "safe c L I db d"
  using assms by (auto simp: settle_def safe_refl split: if_splits)

lemma settle_update_safe:
  assumes ok: "db_ok c db" and "evolves L db (snd (update_jobs p f db))" and i: "\<And>r. p r \<Longrightarrow> job_id r = i"
    and "\<And>r. job_id (f r) = job_id r \<and> job_status (f r) \<notin> {PENDING, QUEUED}"
    and run: "settle (fst (update_jobs p f db)) b v (create_system_log e n k i lv m (snd (update_jobs p f db))) ns w db =
      (res, d, out)"
  shows "safe c L {} db d"
  using ok _ run
proof (rule safe_settle)
  assume "fst (update_jobs p f db)"
  then have "job_exists db i" using i by (rule hit_job_exists)
  with assms show "safe c L {} db (create_system_log e n k i lv m (snd (update_jobs p f db)))"
    by (intro safe_log safe_update) auto
qed

lemma worker_mark_completed_safe:
  assumes "db_ok c db" and run: "worker_mark_completed e cl db = (res, d, ns)"
  shows "safe c {Complete} {} db d"
  by (rule settle_update_safe [OF assms(1) mark_completed_evolves [unfolded mark_completed_def] _ _
        run [unfolded worker_mark_completed_eq mark_completed_def]]) auto

lemma worker_mark_cancelled_safe:
  assumes "db_ok c db" and run: "worker_mark_cancelled e cl db = (res, d, ns)"
  shows "safe c {CancelRunning} {} db d"
  by (rule settle_update_safe [OF assms(1) mark_cancelled_evolves [unfolded mark_cancelled_def] _ _
        run [unfolded worker_mark_cancelled_eq mark_cancelled_def]]) auto

lemma worker_mark_failed_safe:
  assumes "db_ok c db" and run: "worker_mark_failed e cl er db = (res, d, ns)"
  shows "safe c {Fail} {} db d"
  by (rule settle_update_safe [OF assms(1) mark_failed_evolves [unfolded mark_failed_def] _ _
        run [unfolded worker_mark_failed_eq mark_failed_def]]) auto

lemma retry_backoff_defined: "1 \<le> n \<Longrightarrow> n \<le> 3 \<Longrightarrow> \<exists>d. retry_backoff_seconds n = Inr d"
proof -
  assume "1 \<le> n" "n \<le> 3"
  then consider "n = 1" | "n = 2" | "n = 3" by linarith
  then show ?thesis by cases (simp_all add: retry_backoff_seconds_def RETRY_BACKOFF_SECONDS_BY_ATTEMPT_def)
qed

lemma schedule_retry_safe:
  assumes c: "codec_ok (rt_codec rt)" and ok: "db_ok (rt_codec rt) db" and cl: "claim_ok db cl" "cl_attempt_number cl \<le> 3"
    and new: "uuid4 e 0 \<notin> ev_id ` set (db_outbox_events db)"
    and run: "schedule_retry rt e cl er db = (res, d, ns)"
  shows "safe (rt_codec rt) {Requeue} {} db d"
proof -
  from cl obtain delay where delay: "retry_backoff_seconds (cl_attempt_number cl) = Inr delay"
    using retry_backoff_defined [of "cl_attempt_number cl"] by (auto simp: claim_ok_def)
  let ?i = "je_id (cl_job cl)"
  let ?upd = "requeue_running ?i (cl_execution_token cl) (clock_now e 0) (truncate_job_error er) db"
  show ?thesis
    using ok _ run [unfolded schedule_retry_eq [OF delay]]
  proof (rule safe_settle)
    assume hit: "fst ?upd"
    have ev: "evolves {Requeue} db (snd ?upd)"
      by (rule requeue_running_evolves) (use cl in \<open>force simp: claim_ok_def\<close>)
    have upd: "safe (rt_codec rt) {Requeue} {?i} db (snd ?upd)"
      using ev unfolding requeue_running_def by (intro safe_update [OF ok]) auto
    have ex: "job_exists db ?i"
      using hit unfolding requeue_running_def by (rule hit_job_exists) simp
    have "uuid4 e 0 \<notin> ev_id ` set (db_outbox_events (snd ?upd))"
      using new by (simp add: requeue_running_def)
    from safe_log [OF safe_event [OF c upd ex this] ex]
    show "safe (rt_codec rt) {Requeue} {} db (retry_db rt e cl er delay db)"
      unfolding retry_db_def by simp
  qed
qed

lemma max_total_attempts_claim: "claim_ok db cl \<Longrightarrow> max_total_attempts (cl_job cl) = 4"
  by (simp add: claim_ok_def max_total_attempts_def MAX_TOTAL_JOB_ATTEMPTS_def)

text \<open>The labels an execution can end with.\<close>

definition end_moves :: "move set" where
  "end_moves = {Complete, Fail, Requeue, CancelRunning}"

lemma finalize_failure_safe:
  assumes "codec_ok (rt_codec rt)" "db_ok (rt_codec rt) db" "claim_ok db cl"
    and "uuid4 e 0 \<notin> ev_id ` set (db_outbox_events db)" and "finalize_failure rt e cl er db = (res, d, ns)"
  shows "safe (rt_codec rt) {Fail, Requeue} {} db d"
proof (cases "cl_attempt_number cl \<ge> 4")
  case True
  with assms show ?thesis
    using worker_mark_failed_safe [of "rt_codec rt" db e cl er] max_total_attempts_claim [OF assms(3)]
    by (auto simp: finalize_failure_def intro: safe_mono)
next
  case False
  with assms show ?thesis
    using schedule_retry_safe [of rt db cl e er] max_total_attempts_claim [OF assms(3)]
    by (auto simp: finalize_failure_def intro: safe_mono)
qed

lemma execute_claim_safe:
  assumes "codec_ok (rt_codec rt)" "db_ok (rt_codec rt) db" "claim_ok db cl"
    and "uuid4 e 0 \<notin> ev_id ` set (db_outbox_events db)" and "execute_claim rt e cl polls db = Some (res, d, ns)"
  shows "safe (rt_codec rt) end_moves {} db d"
proof -
  have sub: "{Complete} \<subseteq> end_moves" "{CancelRunning} \<subseteq> end_moves" "{Fail} \<subseteq> end_moves" "{Fail, Requeue} \<subseteq> end_moves"
    by (auto simp: end_moves_def)
  have "(\<exists>er. finalize_failure rt e cl er db = (res, d, ns)) \<or> (\<exists>er. worker_mark_failed e cl er db = (res, d, ns)) \<or>
      worker_mark_cancelled e cl db = (res, d, ns) \<or> worker_mark_completed e cl db = (res, d, ns)"
    using assms(5) by (auto simp: execute_claim_def split: run.splits exn.splits)
  then show ?thesis
    using finalize_failure_safe [OF assms(1-4)] worker_mark_failed_safe [OF assms(2)]
      worker_mark_cancelled_safe [OF assms(2)] worker_mark_completed_safe [OF assms(2)] sub
    by (meson safe_mono subset_refl)
qed

section \<open>Claiming, cancelling, recovering\<close>

lemma defer_db_safe:
  assumes c: "codec_ok (rt_codec rt)" and ok: "db_ok (rt_codec rt) db" and i: "job_exists db i"
    and new: "uuid4 e 1 \<notin> ev_id ` set (db_outbox_events db)"
  shows "safe (rt_codec rt) {} {} db (defer_db rt e i db) \<and> awaits i (defer_db rt e i db)"
proof -
  let ?t = "clock_now e 0 + timedelta_seconds CAPACITY_DEFER_SECONDS"
  let ?d = "snd (create_dispatch_event_if_absent (rt_codec rt) e 1 0 i ?t db)"
  have "safe (rt_codec rt) {} ({} - {i}) db ?d"
    by (rule safe_event [OF c safe_refl [OF ok] i new])
  then have "safe (rt_codec rt) {} {} db ?d" by simp
  moreover have "awaits i ?d" using create_if_absent_awaits by (simp add: awaits_def)
  moreover have "defer_db rt e i db = ?d \<or> (\<exists>m. defer_db rt e i db = create_system_log e 0 1 i ''info'' m ?d)"
    by (auto simp: defer_db_def split: prod.split option.split)
  ultimately show ?thesis
    using i by (auto intro: safe_log simp: awaits_def)
qed

lemma start_db_safe:
  assumes ok: "db_ok c db" and r: "r \<in> set (db_jobs db)" "job_status r = QUEUED"
  shows "safe c {Start (uuid4 e 0)} {} db (start_db rt w e (job_id r) db)"
proof -
  let ?upd = "mark_running (job_id r) w (uuid4 e 0) (clock_now e 0)
    (clock_now e 0 + timedelta_seconds (job_lease_seconds (rt_settings rt))) db"
  have row: "x = r" if "x \<in> set (db_jobs db)" "job_id x = job_id r" for x
    using job_row_unique [OF db_ok_keys [OF ok] that(1) r(1) that(2)] .
  have "job_attempt_count r + 1 \<le> 4" using db_ok_row [OF ok r(1)] r(2) by (simp add: job_ok_def)
  then have "evolves {Start (uuid4 e 0)} db (snd ?upd)"
    by (intro mark_running_evolves) (use row in auto)
  then have "safe c {Start (uuid4 e 0)} {} db (snd ?upd)"
    unfolding mark_running_def by (intro safe_update [OF ok]) auto
  moreover have "job_exists db (job_id r)" using r(1) by (auto simp: job_exists_def)
  ultimately show ?thesis unfolding start_db_def by (rule safe_log)
qed

lemma put_row_evolves:
  assumes keys: "job_keys_ok db" and r: "r \<in> set (db_jobs db)" and m: "moves l r r'" and l: "l \<in> L"
  shows "evolves L db (put_row r' db)"
proof -
  have id: "job_id r' = job_id r" using moves_identity [OF m] by (simp add: same_identity_def)
  have "moves l x r'" if "x \<in> set (db_jobs db)" "job_id x = job_id r'" for x
    using job_row_unique [OF keys that(1) r] that(2) id m by simp
  then show ?thesis unfolding put_row_def by (rule update_where_evolves [OF _ l])
qed

lemma in_put_row:
  "x \<in> set (db_jobs (put_row r' db)) \<Longrightarrow> x = r' \<or> x \<in> set (db_jobs db)"
  by (auto simp: put_row_def set_update_where)

lemma put_row_safe:
  assumes ok: "db_ok c db" and r: "r \<in> set (db_jobs db)" and m: "moves l r r'" "l \<in> L"
    and idle: "job_status r' \<notin> {PENDING, QUEUED}"
  shows "safe c L {} db (put_row r' db)"
proof -
  have "awaits (job_id x) (put_row r' db) \<or> (\<exists>y \<in> set (db_jobs db). job_id y = job_id x \<and> job_status y = job_status x)"
    if "x \<in> set (db_jobs (put_row r' db))" "job_status x \<in> {PENDING, QUEUED}" for x
    using in_put_row [OF that(1)] that(2) idle by blast
  moreover have "db_users (put_row r' db) = db_users db" "db_outbox_events (put_row r' db) = db_outbox_events db"
      "db_job_logs (put_row r' db) = db_job_logs db"
    by (simp_all add: put_row_def)
  ultimately show ?thesis
    using ok put_row_evolves [OF db_ok_keys [OF ok] r m]
    by (simp add: safe_def db_ok_def events_ok_def logs_ok_def awaits_def)
qed

lemma cancel_row_moves:
  "cancel_row now r = Some r' \<Longrightarrow> (moves CancelIdle r r' \<or> moves RequestCancel r r') \<and> job_status r' \<notin> {PENDING, QUEUED}"
  by (auto simp: cancel_row_def intro: moves.intros split: if_splits)

lemma cancel_job_safe:
  assumes ok: "db_ok c db" and run: "cancel_job e user i reread db = (res, d, eff)"
  shows "safe c {CancelIdle, RequestCancel} {} db d"
proof (cases "load_authorized_job_for_update True user i db")
  case (Inl x)
  then show ?thesis using run safe_refl [OF ok] by (simp add: cancel_job_denied)
next
  case (Inr j)
  then obtain r where r: "r \<in> set (db_jobs db)" "job_id r = i"
    using load_authorized_missing [of db i True user] by (auto simp: job_exists_def)
  with Inr have acc: "may_access user r"
    using load_authorized_eq [OF db_ok_keys [OF ok] r, of True user] by (auto split: if_splits)
  show ?thesis
  proof (cases "cancel_row (clock_now e 0) r")
    case None
    then show ?thesis
      using run cancel_job_idle [OF db_ok_keys [OF ok] r acc None] safe_refl [OF ok] by (auto split: if_splits)
  next
    case (Some r')
    have "safe c {CancelIdle, RequestCancel} {} db (put_row r' db)"
      using cancel_row_moves [OF Some] put_row_safe [OF ok r(1), of _ r' "{CancelIdle, RequestCancel}"] by auto
    then have "safe c {CancelIdle, RequestCancel} {} db (cancelled_db e r r' db)"
      unfolding cancelled_db_def using r by (intro safe_log) (auto simp: job_exists_def)
    then show ?thesis
      using run cancel_job_changes [OF db_ok_keys [OF ok] r acc Some] safe_refl [OF ok] by (auto split: if_splits)
  qed
qed

lemma recovered_all_safe:
  assumes c: "codec_ok c" and ok: "db_ok c db" and rs: "\<And>r. r \<in> set rs \<Longrightarrow> recoverable db r" "distinct (map job_id rs)"
    and new: "inj_on (uuid4 e) {..<length rs}" "uuid4 e ` {..<length rs} \<inter> ev_id ` set (db_outbox_events db) = {}"
  shows "safe c {Fail, Requeue} {} db (recovered_all c e now 0 rs db)"
proof -
  let ?d = "recovered_all c e now 0 rs db"
  have ex: "job_exists db (job_id r)" if "r \<in> set rs" for r
    using rs(1) [OF that] by (auto simp: job_exists_def recoverable_def)
  have old: "event_ok c db ev" if "ev \<in> set (db_outbox_events db)" for ev
    using ok that by (simp add: db_ok_def events_ok_def)
  have events: "event_ok c db ev" if "ev \<in> set (db_outbox_events ?d)" for ev
  proof -
    from recovered_all_events_new [OF that] consider "ev \<in> set (db_outbox_events db)"
      | k r where "r \<in> set rs" "ev = dispatch_event c e k (2 * k) (job_id r) now" by blast
    then show ?thesis
    proof cases
      case 2
      then show ?thesis using ex [OF 2(1)] model_validate_dispatch_event [OF c, of e k "2 * k" "job_id r" now]
        by (simp add: event_ok_def) (simp add: dispatch_event_def Let_def)
    qed (rule old)
  qed
  have logs: "job_exists db (log_job_id l)" if "l \<in> set (db_job_logs ?d)" for l
    using recovered_all_logs [OF that] ex ok by (auto simp: db_ok_def logs_ok_def)
  have keep: "awaits i ?d" if "awaits i db" for i
    using that recovered_all_events_keep by (fastforce simp: awaits_def)
  have rows: "awaits (job_id r') ?d \<or> (\<exists>r \<in> set (db_jobs db). job_id r = job_id r' \<and> job_status r = job_status r')"
    if r': "r' \<in> set (db_jobs ?d)" "job_status r' \<in> {PENDING, QUEUED}" for r'
    using r'(1) [unfolded recovered_all_jobs [OF rs(2)]]
  proof (rule in_update_whereE)
    fix r assume r: "r \<in> set (db_jobs db)" and eq: "r' = (if job_id r \<in> job_id ` set rs then recover_row now r else r)"
    show ?thesis
    proof (cases "job_id r \<in> job_id ` set rs")
      case True
      then obtain x where x: "x \<in> set rs" "job_id x = job_id r" by auto
      have "x = r" using rs(1) [OF x(1)] job_row_unique [OF db_ok_keys [OF ok] _ r x(2)] by (auto simp: recoverable_def)
      moreover have "job_attempt_count r < 4" using True eq r'(2) by (auto split: if_splits)
      ultimately show ?thesis using recovered_all_awaits [of x rs] x eq True by (simp add: awaits_def)
    qed (use eq r in auto)
  qed
  have "evolves {Fail, Requeue} db ?d" using db_ok_keys [OF ok] rs by (rule recovered_all_evolves)
  moreover have "distinct (map ev_id (db_outbox_events ?d))"
    using ok new by (intro recovered_all_events_distinct) (simp_all add: db_ok_def events_ok_def atLeast0LessThan)
  ultimately show ?thesis using events logs keep rows by (simp add: safe_def)
qed

lemma disjoint_mono_left: "A \<subseteq> B \<Longrightarrow> B \<inter> C = {} \<Longrightarrow> A \<inter> C = {}"
  by blast

lemma recover_due_batch_once_safe:
  assumes c: "codec_ok (rt_codec rt)" and ok: "db_ok (rt_codec rt) db"
    and new: "inj_on (uuid4 e) {..<nat (recovery_batch_size (rt_settings rt))}"
      "uuid4 e ` {..<nat (recovery_batch_size (rt_settings rt))} \<inter> ev_id ` set (db_outbox_events db) = {}"
    and run: "recover_due_batch_once rt e locked db = (res, d, ns)"
  shows "safe (rt_codec rt) {Fail, Requeue} {} db d"
proof -
  let ?rs = "stale_rows locked (clock_now e 0) (recovery_batch_size (rt_settings rt)) db"
  have "length ?rs \<le> nat (recovery_batch_size (rt_settings rt))" by (simp add: stale_rows_def)
  then have sub: "{..<length ?rs} \<subseteq> {..<nat (recovery_batch_size (rt_settings rt))}" by auto
  have "inj_on (uuid4 e) {..<length ?rs}" by (rule inj_on_subset [OF new(1) sub])
  moreover have "uuid4 e ` {..<length ?rs} \<inter> ev_id ` set (db_outbox_events db) = {}"
    using image_mono [OF sub, of "uuid4 e"] new(2) by (rule disjoint_mono_left)
  ultimately have batch: "safe (rt_codec rt) {Fail, Requeue} {} db (recovered_all (rt_codec rt) e (clock_now e 0) 0 ?rs db)"
    using stale_rows_recoverable [OF ok] distinct_stale_rows [OF db_ok_keys [OF ok]]
    by (intro recovered_all_safe [OF c ok]) auto
  show ?thesis
    by (rule safe_settle [OF ok _ run [unfolded recover_due_batch_once_eq [OF ok refl]]]) (rule batch)
qed

section \<open>Creating\<close>

lemma jobs_insert_violation_None:
  assumes "jobs_insert_violation r db = None"
  shows "0 \<le> job_attempt_count r \<and> job_max_retries r = 3 \<and> \<not> job_exists db (job_id r) \<and>
    idempotency_pair r \<notin> idempotency_pair ` set (db_jobs db) \<and> owner_exists db r"
  using assms unfolding jobs_insert_violation_def job_exists_def owner_exists_def idempotency_pair_def
  by (auto split: if_splits)

text \<open>Whatever a creation answers, it changes nothing or adds one new row with its log and event.\<close>

lemma create_job_db:
  assumes "create_job rt lib rl e user key t payload seen db s = (res, db', s', eff)"
  shows "db' = db \<or>
    (\<exists>r. r = pending_row e (cu_id user) t payload key (build_request_hash lib t payload) (job_max_retries_setting (rt_settings rt)) \<and>
      jobs_insert_violation r db = None \<and> db' = created_db rt e r db)"
  using assms by (cases rule: create_job_cases) auto

lemma created_db_sel [simp]:
  "db_users (created_db rt e r db) = db_users db" "db_jobs (created_db rt e r db) = db_jobs db @ [r]"
  "db_outbox_events (created_db rt e r db) =
     db_outbox_events db @ [dispatch_event (rt_codec rt) e 1 3 (job_id r) (clock_now e 0)]"
  by (simp_all add: created_db_def add_job_def)

lemma created_db_logs:
  "l \<in> set (db_job_logs (created_db rt e r db)) \<Longrightarrow> l \<in> set (db_job_logs db) \<or> log_job_id l = job_id r"
  by (auto simp: created_db_def create_job_created_log_def add_log_def add_job_def)

lemma created_db_ok:
  assumes c: "codec_ok (rt_codec rt)" and ok: "db_ok (rt_codec rt) db" and v: "jobs_insert_violation r db = None" and r: "new_job r"
    and new: "uuid4 e 1 \<notin> ev_id ` set (db_outbox_events db)"
  shows "db_ok (rt_codec rt) (created_db rt e r db)"
proof -
  let ?d = "created_db rt e r db"
  note none = jobs_insert_violation_None [OF v]
  have more: "job_exists ?d i \<longleftrightarrow> job_exists db i \<or> i = job_id r" for i
    by (auto simp: job_exists_def)
  have "jobs_ok ?d"
    using ok none new_job_ok [OF r]
    by (auto simp: db_ok_def jobs_ok_def job_keys_ok_def owner_exists_def job_exists_def)
  moreover have "event_ok (rt_codec rt) ?d ev" if "ev \<in> set (db_outbox_events ?d)" for ev
  proof (cases "ev \<in> set (db_outbox_events db)")
    case True
    then show ?thesis using ok by (auto simp: db_ok_def events_ok_def event_ok_def more)
  next
    case False
    with that have "ev = dispatch_event (rt_codec rt) e 1 3 (job_id r) (clock_now e 0)" by simp
    then show ?thesis using model_validate_dispatch_event [OF c, of e 1 3 "job_id r" "clock_now e 0"]
      by (simp add: event_ok_def more) (simp add: dispatch_event_def Let_def)
  qed
  moreover have "job_exists ?d (log_job_id l)" if "l \<in> set (db_job_logs ?d)" for l
    using created_db_logs [OF that] ok by (auto simp: more db_ok_def logs_ok_def)
  ultimately show ?thesis
    using ok new by (auto simp: db_ok_def events_ok_def logs_ok_def user_keys_ok_def)
qed

lemma pending_row_new: "mr = 3 \<Longrightarrow> new_job (pending_row e ow t p k h mr)"
  by (simp add: new_job_def pending_row_def)

section \<open>Publishing\<close>

lemma mark_published_events:
  "ev \<in> set (db_outbox_events (mark_published i now db)) \<Longrightarrow>
    \<exists>ev0 \<in> set (db_outbox_events db). ev_id ev = ev_id ev0 \<and> ev_aggregate_id ev = ev_aggregate_id ev0 \<and>
      ev_event_type ev = ev_event_type ev0 \<and> ev_payload ev = ev_payload ev0"
  by (fastforce simp: mark_published_def elim: in_update_whereE split: if_splits)

lemma record_publish_failure_events:
  "ev \<in> set (db_outbox_events (record_publish_failure e k i er t db)) \<Longrightarrow>
    \<exists>ev0 \<in> set (db_outbox_events db). ev_id ev = ev_id ev0 \<and> ev_aggregate_id ev = ev_aggregate_id ev0 \<and>
      ev_event_type ev = ev_event_type ev0 \<and> ev_payload ev = ev_payload ev0"
  by (fastforce simp: record_publish_failure_def elim: in_update_whereE split: if_splits)

lemma event_ok_same:
  "ev_aggregate_id ev = ev_aggregate_id ev0 \<Longrightarrow> ev_event_type ev = ev_event_type ev0 \<Longrightarrow> ev_payload ev = ev_payload ev0 \<Longrightarrow>
    event_ok c db ev \<longleftrightarrow> event_ok c db ev0"
  by (simp add: event_ok_def)

lemma map_ev_id_update:
  "map ev_id (db_outbox_events (mark_published i now db)) = map ev_id (db_outbox_events db)"
  "map ev_id (db_outbox_events (record_publish_failure e k i er t db)) = map ev_id (db_outbox_events db)"
  by (simp_all add: mark_published_def record_publish_failure_def map_update_where)

lemma record_publish_failure_safe:
  assumes ok: "db_ok c db"
  shows "safe c {} {} db (record_publish_failure e k i er t db)"
proof -
  let ?d = "record_publish_failure e k i er t db"
  have "event_ok c db ev" if "ev \<in> set (db_outbox_events ?d)" for ev
    using record_publish_failure_events [OF that] ok event_ok_same by (metis db_ok_def events_ok_def)
  moreover have "awaits j ?d" if aw: "awaits j db" for j
  proof -
    from aw obtain ev where ev: "ev \<in> set (db_outbox_events db)" "awaits_dispatch j ev" by (auto simp: awaits_def)
    let ?f = "\<lambda>ev. if ev_id ev = i \<and> ev_published_at ev = None
      then ev\<lparr>ev_publish_attempts := ev_publish_attempts ev + 1, ev_last_error := Some er,
               ev_available_at := t, ev_updated_at := utc_now e k\<rparr> else ev"
    have "?f ev \<in> set (db_outbox_events ?d)"
      using ev(1) by (auto simp: record_publish_failure_def update_where_def)
    moreover have "awaits_dispatch j (?f ev)" using ev(2) by (simp add: awaits_dispatch_def)
    ultimately show ?thesis by (auto simp only: awaits_def)
  qed
  ultimately show ?thesis
    using ok map_ev_id_update(2) [of e k i er t db]
    by (auto simp: safe_def db_ok_def events_ok_def logs_ok_def intro: evolves_same_jobs)
qed

text \<open>Marking the event that was read as published takes away that dispatch only.\<close>

lemma mark_published_awaits:
  assumes "distinct (map ev_id (db_outbox_events db))" and "ev \<in> set (db_outbox_events db)"
    and "j \<noteq> ev_aggregate_id ev" and "awaits j db"
  shows "awaits j (mark_published (ev_id ev) now db)"
proof -
  from assms(4) obtain ev' where ev': "ev' \<in> set (db_outbox_events db)" "awaits_dispatch j ev'" by (auto simp: awaits_def)
  then have "ev' \<noteq> ev" using assms(3) by (auto simp: awaits_dispatch_def)
  then have "ev_id ev' \<noteq> ev_id ev" using key_unique [OF assms(1) ev'(1) assms(2)] by blast
  with ev' have "ev' \<in> set (db_outbox_events (mark_published (ev_id ev) now db))"
    by (auto simp: mark_published_def set_update_where)
  with ev'(2) show ?thesis by (auto simp: awaits_def)
qed

lemma mark_published_ok:
  assumes "db_ok c db" shows "db_ok c (mark_published i now db)"
proof (rule db_ok_evolves [OF assms, of "{}"])
  show "evolves {} db (mark_published i now db)" by (simp add: evolves_same_jobs)
  show "distinct (map ev_id (db_outbox_events (mark_published i now db)))"
    using assms by (simp add: map_ev_id_update db_ok_def events_ok_def)
  show "event_ok c db ev" if "ev \<in> set (db_outbox_events (mark_published i now db))" for ev
    using mark_published_events [OF that] assms event_ok_same by (metis db_ok_def events_ok_def)
qed (use assms in \<open>simp_all add: db_ok_def logs_ok_def\<close>)

lemma discard_ok:
  assumes ok: "db_ok c db" and ev: "ev \<in> set (db_outbox_events db)"
  shows "db_ok c (discard_non_dispatchable_event e ev st db)"
proof -
  let ?m = "''Dispatch skipped because job is not dispatchable (status='' @ JobStatus_value st @ '')''"
  have "job_exists db (ev_aggregate_id ev)" using ok ev by (auto simp: db_ok_def events_ok_def event_ok_def)
  then have "safe c {} {} db (create_system_log e 0 0 (ev_aggregate_id ev) ''info'' ?m db)"
    by (rule safe_log [OF safe_refl [OF ok]])
  from mark_published_ok [OF safe_db_ok [OF ok this]] show ?thesis
    by (simp add: discard_non_dispatchable_event_def)
qed

text \<open>What processing one event can do on a well-formed database.\<close>

lemma publish_outcomes:
  assumes ok: "db_ok (rt_codec rt) db" and run: "process_claimed_event rt e locked pr i db = (res, d, ms)"
  obtains (same) "d = db"
  | (discarded) ev r where "ev \<in> set (db_outbox_events db)" "r \<in> set (db_jobs db)" "job_id r = ev_aggregate_id ev"
      "job_status r \<notin> {PENDING, QUEUED}" "d = discard_non_dispatchable_event e ev (job_status r) db" "ms = []"
  | (dispatched) ev r m where "ev \<in> set (db_outbox_events db)" "r \<in> set (db_jobs db)" "job_id r = ev_aggregate_id ev"
      "job_status r \<in> {PENDING, QUEUED}" "model_validate (rt_codec rt) (ev_payload ev) = Inr m" "dm_job_id m = ev_aggregate_id ev"
      "d = mark_published (ev_id ev) (clock_now e 1) (queued_db e r db)" "ms = [dispatch_amqp_message (rt_codec rt) ev m]"
proof (cases "get_by_id_for_update_unpublished locked i db")
  case None
  then show ?thesis using run same by (simp add: event_skip)
next
  case (Some ev)
  then have ev: "ev \<in> set (db_outbox_events db)"
    by (auto simp: get_by_id_for_update_unpublished_def dest: scalar_where_SomeD)
  with ok obtain m where m: "model_validate (rt_codec rt) (ev_payload ev) = Inr m" "dm_job_id m = ev_aggregate_id ev"
    and "job_exists db (ev_aggregate_id ev)"
    by (auto simp: db_ok_def events_ok_def event_ok_def)
  then obtain r where r: "r \<in> set (db_jobs db)" "job_id r = ev_aggregate_id ev" by (auto simp: job_exists_def)
  have "scalar_where (\<lambda>x. job_id x = ev_aggregate_id ev) (db_jobs db) = Some r"
    using r by (simp add: job_lookup_iff db_ok_keys [OF ok])
  then have look: "get_by_id_for_update (ev_aggregate_id ev) db = Some (to_stored_job_dto r)"
    by (simp add: get_by_id_for_update_def)
  show ?thesis
  proof (cases "job_status r \<in> {PENDING, QUEUED}")
    case True
    show ?thesis
      using run event_dispatch [OF db_ok_keys [OF ok] Some r True m(1), of e pr]
        same dispatched [OF ev r True m]
      by (cases pr) (auto split: if_splits)
  next
    case False
    then have "sj_status (to_stored_job_dto r) \<notin> {PENDING, QUEUED}" by simp
    from run event_discard [OF Some look this, of rt e pr] same discarded [OF ev r False]
    show ?thesis by (auto split: if_splits)
  qed
qed

section \<open>Preservation of the invariant\<close>

lemma claim_ok_quiet:
  assumes ok: "db_ok c db'" and ev: "evolves L db db'" and quiet: "\<And>l. l \<in> L \<Longrightarrow> quiet l" and cl: "claim_ok db cl"
  shows "claim_ok db' cl"
proof -
  have "job_attempt_count r' = cl_attempt_number cl \<and> job_id r' = je_id (cl_job cl)"
    if r': "r' \<in> set (db_jobs db')" "job_execution_token r' = Some (cl_execution_token cl)" for r'
  proof -
    from ev r'(1) obtain r where r: "r \<in> set (db_jobs db)" "moves_in L r r'" by (rule evolves_back)
    have "job_status r' = RUNNING" using db_ok_row [OF ok r'(1)] r'(2) by (auto simp: job_ok_def)
    with moves_in_quiet [OF r(2) quiet] moves_in_identity [OF r(2)] r(1) r'(2) cl show ?thesis
      by (auto simp: claim_ok_def same_identity_def)
  qed
  with cl show ?thesis by (simp add: claim_ok_def)
qed

lemma capacity_quiet:
  assumes "evolves L db db'" and "\<And>l. l \<in> L \<Longrightarrow> quiet l" and "capacity_ok cfg db"
  shows "capacity_ok cfg db'"
proof -
  have "count_running_for_owner ow db' \<le> count_running_for_owner ow db" for ow
    unfolding count_running_for_owner_def
    by (rule of_nat_mono, rule evolves_running_mono [OF assms(1)]) (rule assms(2))
  with assms(3) show ?thesis unfolding capacity_ok_def by (meson order_trans)
qed

lemma system_ok_quiet:
  assumes ok: "system_ok rt s" and db: "db_ok (rt_codec rt) (sys_db s')" and ev: "evolves L (sys_db s) (sys_db s')"
    and quiet: "\<And>l. l \<in> L \<Longrightarrow> quiet l"
    and flights: "distinct (map (\<lambda>fl. cl_execution_token (fl_claim fl)) (sys_flights s'))"
      "fl_claim ` set (sys_flights s') \<subseteq> fl_claim ` set (sys_flights s)"
    and disp: "dispatch_ok (rt_codec rt) s'"
  shows "system_ok rt s'"
proof -
  have "claim_ok (sys_db s') (fl_claim fl)" if "fl \<in> set (sys_flights s')" for fl
  proof (rule claim_ok_quiet [OF db ev quiet])
    from that flights(2) obtain fl0 where "fl0 \<in> set (sys_flights s)" "fl_claim fl = fl_claim fl0" by auto
    with ok show "claim_ok (sys_db s) (fl_claim fl)" by (simp add: system_ok_def tokens_ok_def)
  qed
  with ok db flights(1) disp capacity_quiet [OF ev quiet] show ?thesis
    by (simp add: system_ok_def tokens_ok_def)
qed

lemma dispatch_ok_safe:
  assumes "dispatch_ok c s" and "safe c L {} (sys_db s) (sys_db s')"
    and "\<And>r msg. r \<in> set (db_jobs (sys_db s')) \<Longrightarrow> job_status r = QUEUED \<Longrightarrow> msg \<in> set (sys_queue s) \<Longrightarrow>
      carries c (job_id r) msg \<Longrightarrow>
      awaits (job_id r) (sys_db s') \<or> (\<exists>msg \<in> set (sys_queue s'). carries c (job_id r) msg)"
  shows "dispatch_ok c s'"
  unfolding dispatch_ok_def row_dispatched_def
proof (intro ballI conjI impI)
  fix r' assume r': "r' \<in> set (db_jobs (sys_db s'))"
  have origin: "awaits (job_id r') (sys_db s') \<or>
      (\<exists>r \<in> set (db_jobs (sys_db s)). job_id r = job_id r' \<and> job_status r = job_status r')"
    if "job_status r' \<in> {PENDING, QUEUED}"
    using assms(2) r' that unfolding safe_def by blast
  have keep: "awaits j (sys_db s')" if "awaits j (sys_db s)" for j
    using assms(2) that by (simp add: safe_def)
  note old = assms(1) [unfolded dispatch_ok_def row_dispatched_def]
  show "awaits (job_id r') (sys_db s')" if "job_status r' = PENDING"
    using origin old keep that by force
  show "awaits (job_id r') (sys_db s') \<or> (\<exists>msg \<in> set (sys_queue s'). carries c (job_id r') msg)"
    if st: "job_status r' = QUEUED"
  proof (cases "awaits (job_id r') (sys_db s')")
    case False
    with origin st obtain r where r: "r \<in> set (db_jobs (sys_db s))" "job_id r = job_id r'" "job_status r = QUEUED" by auto
    with old keep False have "\<exists>msg \<in> set (sys_queue s). carries c (job_id r') msg" by metis
    with assms(3) [OF r' st] show ?thesis by blast
  qed simp
qed

text \<open>The general case of a step: a safe transaction without a start, the queue only grows.\<close>

lemma system_ok_safe:
  assumes ok: "system_ok rt s" and safe: "safe (rt_codec rt) L {} (sys_db s) (sys_db s')"
    and quiet: "\<And>l. l \<in> L \<Longrightarrow> quiet l"
    and flights: "distinct (map (\<lambda>fl. cl_execution_token (fl_claim fl)) (sys_flights s'))"
      "fl_claim ` set (sys_flights s') \<subseteq> fl_claim ` set (sys_flights s)"
    and queue: "set (sys_queue s) \<subseteq> set (sys_queue s')"
  shows "system_ok rt s'"
proof (rule system_ok_quiet [OF ok _ _ quiet flights])
  show "db_ok (rt_codec rt) (sys_db s')" using ok safe by (auto simp: system_ok_def intro: safe_db_ok)
  show "evolves L (sys_db s) (sys_db s')" using safe by (simp add: safe_def)
  show "dispatch_ok (rt_codec rt) s'"
  proof (rule dispatch_ok_safe [OF _ safe])
    show "dispatch_ok (rt_codec rt) s" using ok by (simp add: system_ok_def)
  qed (use queue in blast)
qed

lemma system_ok_parts:
  assumes "system_ok rt s"
  shows "db_ok (rt_codec rt) (sys_db s)" "dispatch_ok (rt_codec rt) s" "capacity_ok (rt_settings rt) (sys_db s)"
    "distinct (map (\<lambda>fl. cl_execution_token (fl_claim fl)) (sys_flights s))"
    "fl \<in> set (sys_flights s) \<Longrightarrow> claim_ok (sys_db s) (fl_claim fl)"
  using assms by (auto simp: system_ok_def tokens_ok_def)

lemma fresh_event: "fresh n e s \<Longrightarrow> k < n \<Longrightarrow> uuid4 e k \<notin> ev_id ` set (db_outbox_events (sys_db s))"
  by (auto simp: fresh_def used_uuids_def disjoint_iff)

lemma fresh_token:
  assumes "fresh n e s" "k < n"
  shows "r \<in> set (db_jobs (sys_db s)) \<Longrightarrow> job_execution_token r \<noteq> Some (uuid4 e k)"
    and "fl \<in> set (sys_flights s) \<Longrightarrow> cl_execution_token (fl_claim fl) \<noteq> uuid4 e k"
  using assms by (auto simp: fresh_def used_uuids_def disjoint_iff)

lemma accounts_ok:
  assumes ok: "system_ok rt s" and run: "accounts_only (sys_db s) db'"
  shows "system_ok rt (s\<lparr>sys_db := db'\<rparr>)"
proof (rule system_ok_quiet [OF ok, of _ "{}"])
  have db': "db_jobs db' = db_jobs (sys_db s)" "db_outbox_events db' = db_outbox_events (sys_db s)"
      "db_job_logs db' = db_job_logs (sys_db s)" "user_id ` set (db_users (sys_db s)) \<subseteq> user_id ` set (db_users db')"
    using run by (auto simp: accounts_only_def)
  have "user_keys_ok db'" using run system_ok_parts(1) [OF ok] by (simp add: db_ok_def accounts_only_def)
  moreover have "owner_exists db' r" if "owner_exists (sys_db s) r" for r
    using that db'(4) by (force simp: owner_exists_def image_iff)
  ultimately show "db_ok (rt_codec rt) (sys_db (s\<lparr>sys_db := db'\<rparr>))"
    using system_ok_parts(1) [OF ok] db'(1-3)
    by (simp add: db_ok_def jobs_ok_def job_keys_ok_def events_ok_def event_ok_def logs_ok_def job_exists_def)
  show "evolves {} (sys_db s) (sys_db (s\<lparr>sys_db := db'\<rparr>))" by (simp add: evolves_same_jobs db')
  show "dispatch_ok (rt_codec rt) (s\<lparr>sys_db := db'\<rparr>)"
    using system_ok_parts(2) [OF ok] db' by (simp add: dispatch_ok_def row_dispatched_def awaits_def)
qed (use system_ok_parts(4) [OF ok] in simp_all)

lemma created_system_ok:
  assumes c: "codec_ok (rt_codec rt)" and ok: "system_ok rt s" and v: "jobs_insert_violation r (sys_db s) = None" and r: "new_job r"
    and new: "uuid4 e 1 \<notin> ev_id ` set (db_outbox_events (sys_db s))"
  shows "system_ok rt (s\<lparr>sys_db := created_db rt e r (sys_db s), sys_counters := cs\<rparr>)"
proof -
  let ?d = "created_db rt e r (sys_db s)"
  have here: "awaits (job_id r) ?d"
    using dispatch_event_awaits [of "job_id r" "rt_codec rt" e 1 3 "clock_now e 0"] by (auto simp: awaits_def)
  have keep: "awaits i (sys_db s) \<Longrightarrow> awaits i ?d" for i by (auto simp: awaits_def)
  have "db_ok (rt_codec rt) ?d" by (rule created_db_ok [OF c system_ok_parts(1) [OF ok] v r new])
  moreover have "claim_ok ?d (fl_claim fl)" if "fl \<in> set (sys_flights s)" for fl
    using system_ok_parts(5) [OF ok that] r by (auto simp: claim_ok_def new_job_def)
  moreover have "count_running_for_owner ow ?d = count_running_for_owner ow (sys_db s)" for ow
    using r by (simp add: count_running_for_owner_def rowcount_def new_job_def)
  moreover have "dispatch_ok (rt_codec rt) (s\<lparr>sys_db := ?d, sys_counters := cs\<rparr>)"
    using system_ok_parts(2) [OF ok] here keep by (auto simp: dispatch_ok_def row_dispatched_def)
  ultimately show ?thesis using ok by (simp add: system_ok_def tokens_ok_def capacity_ok_def)
qed

lemma create_ok:
  assumes c: "codec_ok (rt_codec rt)" and ok: "system_ok rt s" and fresh: "fresh 2 e s"
    and run: "create_job rt lib rl e user key t payload seen (sys_db s) cs = (res, db', cs', eff)"
  shows "system_ok rt (s\<lparr>sys_db := db', sys_counters := cs'\<rparr>)"
  using create_job_db [OF run]
proof (elim disjE exE conjE)
  assume "db' = sys_db s"
  with ok show ?thesis
    by (simp add: system_ok_def tokens_ok_def dispatch_ok_def)
next
  fix r assume r: "r = pending_row e (cu_id user) t payload key (build_request_hash lib t payload) (job_max_retries_setting (rt_settings rt))"
    and v: "jobs_insert_violation r (sys_db s) = None" and db': "db' = created_db rt e r (sys_db s)"
  have "new_job r" using jobs_insert_violation_None [OF v] unfolding r by (intro pending_row_new) simp
  with created_system_ok [OF c ok v] fresh_event [OF fresh, of 1] db' show ?thesis by simp
qed

lemma receive_outcomes:
  assumes ok: "db_ok c db" and run: "receive_message rt w e msg db = (rcv, d, ns)"
  obtains (invalid) "rcv = Settled Reject" "d = db" "\<And>i. \<not> carries (rt_codec rt) i msg"
  | (raised) x where "rcv = Unsettled x" "d = db"
  | (ignored) i where "rcv = Settled Ack" "d = db" "\<And>j. carries (rt_codec rt) j msg \<Longrightarrow> j = i"
      "\<And>r. r \<in> set (db_jobs db) \<Longrightarrow> job_id r = i \<Longrightarrow> job_status r \<noteq> QUEUED"
  | (deferred) r where "rcv = Settled Ack" "r \<in> set (db_jobs db)" "job_status r = QUEUED" "d = defer_db rt e (job_id r) db"
      "\<And>j. carries (rt_codec rt) j msg \<Longrightarrow> j = job_id r"
  | (claimed) r where "rcv = Claimed (claim_of e r)" "r \<in> set (db_jobs db)" "job_status r = QUEUED"
      "d = start_db rt w e (job_id r) db" "\<And>j. carries (rt_codec rt) j msg \<Longrightarrow> j = job_id r"
      "count_running_for_owner (job_owner_id r) db < job_max_running_per_user (rt_settings rt)"
proof (cases "model_validate_json (rt_codec rt) (msg_body msg)")
  case (Inl x)
  then show ?thesis using run invalid by (simp add: receive_message_def carries_def)
next
  case (Inr m)
  then have car: "j = dm_job_id m" if "carries (rt_codec rt) j msg" for j using that by (auto simp: carries_def)
  show ?thesis
  proof (cases "scalar_where (\<lambda>r. job_id r = dm_job_id m) (db_jobs db)")
    case None
    then have "\<And>r. r \<in> set (db_jobs db) \<Longrightarrow> job_id r \<noteq> dm_job_id m" by (auto simp: scalar_where_None_iff)
    with run Inr None car show ?thesis by (intro ignored [of "dm_job_id m"]) (auto simp: receive_message_def claim_missing)
  next
    case (Some r)
    then have r: "r \<in> set (db_jobs db)" "job_id r = dm_job_id m" by (auto dest: scalar_where_SomeD)
    have uniq: "x = r" if "x \<in> set (db_jobs db)" "job_id x = dm_job_id m" for x
      using job_row_unique [OF db_ok_keys [OF ok] that(1) r(1)] that(2) r(2) by simp
    note run' = run [unfolded receive_message_def Inr, simplified, unfolded claim_execution_eq [OF ok r] settle_def]
    show ?thesis
    proof (cases "job_status r = QUEUED")
      case True
      then show ?thesis using run' r car deferred [of r] claimed [of r] raised by (auto split: if_splits)
    next
      case False
      then show ?thesis using run' car uniq by (intro ignored [of "dm_job_id m"]) auto
    qed
  qed
qed

text \<open>The database after a start: one row is running under a token nobody else has.\<close>

lemma start_rows:
  assumes "r' \<in> set (db_jobs (start_db rt w e i db))" and "job_execution_token r' = Some tok"
  shows "(tok = uuid4 e 0 \<and> job_id r' = i \<and> (\<exists>r \<in> set (db_jobs db). job_id r = i \<and> job_attempt_count r' = job_attempt_count r + 1)) \<or>
    r' \<in> set (db_jobs db)"
  using assms by (auto simp: start_db_def mark_running_def snd_update_jobs set_update_where)

lemma start_count:
  assumes keys: "job_keys_ok db" and r: "r \<in> set (db_jobs db)" "job_status r = QUEUED"
  shows "count_running_for_owner ow (start_db rt w e (job_id r) db) =
    count_running_for_owner ow db + (if ow = job_owner_id r then 1 else 0)"
proof -
  let ?p = "\<lambda>x. job_id x = job_id r \<and> job_status x = QUEUED"
  let ?q = "\<lambda>x. job_owner_id x = ow \<and> job_status x = RUNNING"
  obtain f where f: "db_jobs (start_db rt w e (job_id r) db) = update_where ?p f (db_jobs db)"
      "job_owner_id (f r) = job_owner_id r" "job_status (f r) = RUNNING"
    by (simp add: start_db_def mark_running_def snd_update_jobs)
  have "rowcount ?q (update_where ?p f (db_jobs db)) + of_bool (?q r) = rowcount ?q (db_jobs db) + of_bool (?q (f r))"
    by (rule count_update_one [where k = job_id]) (use keys r in \<open>auto simp: job_keys_ok_def\<close>)
  then show ?thesis using f(2,3) r(2) by (auto simp: count_running_for_owner_def f(1))
qed

lemma claimed_ok:
  assumes ok: "system_ok rt s" and fresh: "fresh 2 e s" and q: "sys_queue s = q @ msg # q'"
    and r: "r \<in> set (db_jobs (sys_db s))" "job_status r = QUEUED"
    and car: "\<And>j. carries (rt_codec rt) j msg \<Longrightarrow> j = job_id r"
    and room: "count_running_for_owner (job_owner_id r) (sys_db s) < job_max_running_per_user (rt_settings rt)"
  shows "system_ok rt (s\<lparr>sys_db := start_db rt w e (job_id r) (sys_db s), sys_queue := q @ q',
    sys_flights := sys_flights s @ [\<lparr>fl_message = msg, fl_claim = claim_of e r, fl_polls = []\<rparr>]\<rparr>)"
    (is "system_ok rt ?s")
proof -
  let ?d = "start_db rt w e (job_id r) (sys_db s)"
  note db = system_ok_parts(1) [OF ok] and keys = db_ok_keys [OF system_ok_parts(1) [OF ok]]
  have safe: "safe (rt_codec rt) {Start (uuid4 e 0)} {} (sys_db s) ?d" by (rule start_db_safe [OF db r])
  have row: "job_ok r" using db_ok_row [OF db r(1)] by simp
  have uniq: "x = r" if "x \<in> set (db_jobs (sys_db s))" "job_id x = job_id r" for x
    using job_row_unique [OF keys that(1) r(1) that(2)] .
  have "claim_ok ?d (fl_claim fl)" if "fl \<in> set (sys_flights s)" for fl
    using system_ok_parts(5) [OF ok that] fresh_token(2) [OF fresh _ that, of 0] start_rows [of _ rt w e "job_id r" "sys_db s"]
    unfolding claim_ok_def by (metis zero_less_numeral)
  moreover have "claim_ok ?d (claim_of e r)"
    using row r(2) uniq fresh_token(1) [OF fresh, of 0] start_rows [of _ rt w e "job_id r" "sys_db s"]
    by (fastforce simp: claim_ok_def claim_of_def job_ok_def)
  moreover have "uuid4 e 0 \<notin> (\<lambda>fl. cl_execution_token (fl_claim fl)) ` set (sys_flights s)"
    using fresh_token(2) [OF fresh, of 0] by force
  ultimately have "tokens_ok ?s"
    using system_ok_parts(4) [OF ok] by (auto simp: tokens_ok_def claim_of_def)
  moreover have "capacity_ok (rt_settings rt) ?d"
    using system_ok_parts(3) [OF ok] room by (auto simp: capacity_ok_def start_count [OF keys r])
  moreover have "dispatch_ok (rt_codec rt) ?s"
  proof (rule dispatch_ok_safe [OF system_ok_parts(2) [OF ok]])
    show "safe (rt_codec rt) {Start (uuid4 e 0)} {} (sys_db s) (sys_db ?s)" using safe by simp
    fix x m assume x: "x \<in> set (db_jobs (sys_db ?s))" "job_status x = QUEUED" and m: "m \<in> set (sys_queue s)" "carries (rt_codec rt) (job_id x) m"
    have "job_id x \<noteq> job_id r"
      using x uniq r(2) by (auto simp: start_db_def mark_running_def snd_update_jobs set_update_where)
    with m car q show "awaits (job_id x) (sys_db ?s) \<or> (\<exists>m \<in> set (sys_queue ?s). carries (rt_codec rt) (job_id x) m)"
      by auto
  qed
  ultimately show ?thesis using safe_db_ok [OF db safe] by (simp add: system_ok_def)
qed

text \<open>
  A message may be acknowledged after a transaction that starts nothing and leaves its job, if that
  is queued, awaiting dispatch.
\<close>

lemma acked_safe_ok:
  assumes ok: "system_ok rt s" and q: "sys_queue s = q @ msg # q'" and safe: "safe (rt_codec rt) {} {} (sys_db s) d"
    and car: "\<And>j. carries (rt_codec rt) j msg \<Longrightarrow> j = i"
    and st: "\<And>r. r \<in> set (db_jobs d) \<Longrightarrow> job_id r = i \<Longrightarrow> job_status r = QUEUED \<Longrightarrow> awaits i d"
  shows "system_ok rt (s\<lparr>sys_db := d, sys_queue := q @ q'\<rparr>)" (is "system_ok rt ?s")
proof -
  have "dispatch_ok (rt_codec rt) ?s"
  proof (rule dispatch_ok_safe [OF system_ok_parts(2) [OF ok]])
    show "safe (rt_codec rt) {} {} (sys_db s) (sys_db ?s)" using safe by simp
    fix x m assume "x \<in> set (db_jobs (sys_db ?s))" "job_status x = QUEUED" "m \<in> set (sys_queue s)" "carries (rt_codec rt) (job_id x) m"
    then show "awaits (job_id x) (sys_db ?s) \<or> (\<exists>m \<in> set (sys_queue ?s). carries (rt_codec rt) (job_id x) m)"
      using car st [of x] q by (cases "job_id x = i") auto
  qed
  then show ?thesis
    using safe_db_ok [OF system_ok_parts(1) [OF ok] safe] safe system_ok_parts(4) [OF ok]
    by (intro system_ok_quiet [OF ok, of _ "{}"]) (auto simp: safe_def)
qed

lemma acked_ok:
  assumes c: "codec_ok (rt_codec rt)" and ok: "system_ok rt s" and fresh: "fresh 2 e s" and q: "sys_queue s = q @ msg # q'"
    and run: "receive_message rt w e msg (sys_db s) = (Settled Ack, d, ns)"
  shows "system_ok rt (s\<lparr>sys_db := d, sys_queue := q @ q'\<rparr>)"
proof -
  note db = system_ok_parts(1) [OF ok]
  from db run show ?thesis
  proof (cases rule: receive_outcomes)
    case (ignored i)
    then show ?thesis using acked_safe_ok [OF ok q safe_refl [OF db], of i] by blast
  next
    case (deferred r)
    then show ?thesis
      using acked_safe_ok [OF ok q, of d "job_id r"] defer_db_safe [OF c db, of "job_id r" e] fresh_event [OF fresh, of 1]
      by (auto simp: job_exists_def)
  qed auto
qed

lemma queued_db_rows:
  assumes keys: "job_keys_ok db" and r: "r \<in> set (db_jobs db)"
    and x: "x \<in> set (db_jobs (queued_db e r db))"
  shows "x \<in> set (db_jobs db) \<and> (job_id x = job_id r \<longrightarrow> job_status r \<noteq> PENDING) \<or> job_id x = job_id r \<and> job_status x = QUEUED"
  using x job_row_unique [OF keys _ r]
  by (auto simp: queued_db_def mark_queued_def snd_update_jobs set_update_where split: if_splits)

lemma queued_db_safe:
  assumes "db_ok c db"
  shows "safe c {Queue} {job_id r} db (queued_db e r db)"
proof -
  have "safe c {Queue} {job_id r} db (snd (mark_queued (job_id r) (clock_now e 0) db))"
    using mark_queued_evolves [of db] unfolding mark_queued_def by (intro safe_update [OF assms]) auto
  then show ?thesis using safe_refl [OF assms] by (simp add: queued_db_def)
qed

lemma dispatched_ok:
  assumes c: "codec_ok (rt_codec rt)" and ok: "system_ok rt s" and ev: "ev \<in> set (db_outbox_events (sys_db s))"
    and r: "r \<in> set (db_jobs (sys_db s))" "job_id r = ev_aggregate_id ev" "job_status r \<in> {PENDING, QUEUED}"
    and m: "model_validate (rt_codec rt) (ev_payload ev) = Inr m" "dm_job_id m = ev_aggregate_id ev"
  shows "system_ok rt (s\<lparr>sys_db := mark_published (ev_id ev) now (queued_db e r (sys_db s)),
    sys_queue := sys_queue s @ [dispatch_amqp_message (rt_codec rt) ev m]\<rparr>)" (is "system_ok rt ?s")
proof -
  note db = system_ok_parts(1) [OF ok]
  let ?q = "queued_db e r (sys_db s)" and ?msg = "dispatch_amqp_message (rt_codec rt) ev m"
  note safe = queued_db_safe [OF db, of r e]
  have kind: "dm_kind m = ''dispatch''"
    using m(1) by (rule model_validate_kind)
  have car: "carries (rt_codec rt) (job_id r) ?msg"
    using model_validate_dump_json [OF c kind] m(2) r(2) by (simp add: carries_def dispatch_amqp_message_def)
  have keep: "awaits j (sys_db ?s)" if "awaits j (sys_db s)" "j \<noteq> job_id r" for j
    using mark_published_awaits [of ?q ev j now] db ev that r(2) by (simp add: db_ok_def events_ok_def awaits_def)
  have "row_dispatched (rt_codec rt) (sys_db ?s) (sys_queue ?s) x" if x: "x \<in> set (db_jobs (sys_db ?s))" for x
  proof (cases "job_id x = job_id r")
    case True
    have "x \<in> set (db_jobs ?q)" using x by simp
    then have "job_status x \<noteq> PENDING"
      using queued_db_rows [OF db_ok_keys [OF db] r(1), of x e] True job_row_unique [OF db_ok_keys [OF db] _ r(1)] by fastforce
    with True car show ?thesis by (auto simp: row_dispatched_def)
  next
    case False
    have "x \<in> set (db_jobs ?q)" using x by simp
    with False have "x \<in> set (db_jobs (sys_db s))"
      using queued_db_rows [OF db_ok_keys [OF db] r(1), of x e] by blast
    with system_ok_parts(2) [OF ok] keep False show ?thesis by (auto simp: dispatch_ok_def row_dispatched_def)
  qed
  then have "dispatch_ok (rt_codec rt) ?s" by (simp add: dispatch_ok_def)
  moreover have "evolves {Queue} (sys_db s) (sys_db ?s)" using safe by (auto simp: safe_def intro: evolves_jobs_cong)
  ultimately show ?thesis
    using mark_published_ok [OF safe_db_ok [OF db safe], of "ev_id ev" now] system_ok_parts(4) [OF ok]
    by (intro system_ok_quiet [OF ok, of _ "{Queue}"]) (auto simp: quiet_def)
qed

lemma discarded_ok:
  assumes ok: "system_ok rt s" and ev: "ev \<in> set (db_outbox_events (sys_db s))"
    and r: "r \<in> set (db_jobs (sys_db s))" "job_id r = ev_aggregate_id ev" "job_status r \<notin> {PENDING, QUEUED}"
  shows "system_ok rt (s\<lparr>sys_db := discard_non_dispatchable_event e ev (job_status r) (sys_db s)\<rparr>)" (is "system_ok rt ?s")
proof -
  note db = system_ok_parts(1) [OF ok]
  let ?d = "discard_non_dispatchable_event e ev (job_status r) (sys_db s)"
  have jobs: "db_jobs ?d = db_jobs (sys_db s)" by (simp add: discard_non_dispatchable_event_def)
  have keep: "awaits j ?d" if "awaits j (sys_db s)" "j \<noteq> job_id r" for j
    unfolding discard_non_dispatchable_event_def
    by (rule mark_published_awaits) (use db ev that r(2) in \<open>simp_all add: db_ok_def events_ok_def awaits_def\<close>)
  have "row_dispatched (rt_codec rt) ?d (sys_queue s) x" if x: "x \<in> set (db_jobs (sys_db s))" for x
  proof (cases "job_id x = job_id r")
    case True
    then have "x = r" using job_row_unique [OF db_ok_keys [OF db] x r(1)] by simp
    with r(3) show ?thesis by (auto simp: row_dispatched_def)
  next
    case False
    with x system_ok_parts(2) [OF ok] keep show ?thesis by (auto simp: dispatch_ok_def row_dispatched_def)
  qed
  then have "dispatch_ok (rt_codec rt) ?s" by (simp add: dispatch_ok_def jobs)
  then show ?thesis
    using discard_ok [OF db ev, of e "job_status r"] system_ok_parts(4) [OF ok]
    by (intro system_ok_quiet [OF ok, of _ "{}"]) (auto intro: evolves_same_jobs jobs)
qed

lemma system_ok_failures: "system_ok rt (s\<lparr>sys_failures := fs\<rparr>) = system_ok rt s"
  by (simp add: system_ok_def tokens_ok_def dispatch_ok_def)

lemma publish_ok:
  assumes c: "codec_ok (rt_codec rt)" and ok: "system_ok rt s"
    and run: "process_claimed_event rt e locked pr i (sys_db s) = (res, d, ms)"
  shows "system_ok rt (s\<lparr>sys_db := d, sys_queue := sys_queue s @ ms, sys_failures := fs\<rparr>)"
  using system_ok_parts(1) [OF ok] run
proof (cases rule: publish_outcomes)
  case same
  then show ?thesis
    using safe_refl [OF system_ok_parts(1) [OF ok]] system_ok_parts(4) [OF ok]
    by (intro system_ok_safe [OF ok, of "{}"]) auto
next
  case (discarded ev r)
  with discarded_ok [OF ok discarded(1-4), of e] show ?thesis by (simp add: system_ok_failures)
next
  case (dispatched ev r m)
  with dispatched_ok [OF c ok dispatched(1-6)] show ?thesis by (simp add: system_ok_failures)
qed

lemma publish_failed_ok:
  assumes ok: "system_ok rt s" and run: "record_failure e ev er (sys_db s) = (res, d, ms)"
  shows "system_ok rt (s\<lparr>sys_db := d, sys_failures := fs\<rparr>)"
proof -
  have "safe (rt_codec rt) {} {} (sys_db s) d"
    using run record_publish_failure_safe [OF system_ok_parts(1) [OF ok]] safe_refl [OF system_ok_parts(1) [OF ok]]
    by (auto simp: record_failure_eq publish_failure_db_def split: if_splits)
  then show ?thesis
    using system_ok_parts(4) [OF ok] by (intro system_ok_safe [OF ok, of "{}"]) auto
qed

lemma end_moves_quiet: "l \<in> end_moves \<Longrightarrow> quiet l"
  by (auto simp: end_moves_def quiet_def)

lemma finish_ok:
  assumes c: "codec_ok (rt_codec rt)" and ok: "system_ok rt s" and fresh: "fresh 1 e s"
    and fl: "sys_flights s = fs @ fl # fs'"
    and run: "execute_claim rt e (fl_claim fl) (fl_polls fl) (sys_db s) = Some (res, d, ns)"
  shows "system_ok rt (s\<lparr>sys_db := d, sys_flights := fs @ fs'\<rparr>)"
    and "system_ok rt (s\<lparr>sys_db := d, sys_flights := fs @ fs', sys_queue := sys_queue s @ [msg]\<rparr>)"
proof -
  have "claim_ok (sys_db s) (fl_claim fl)" using fl by (intro system_ok_parts(5) [OF ok]) simp
  with execute_claim_safe [OF c system_ok_parts(1) [OF ok] _ _ run] fresh_event [OF fresh, of 0]
  have safe: "safe (rt_codec rt) end_moves {} (sys_db s) d" by simp
  note rest = system_ok_safe [OF ok, of end_moves] end_moves_quiet system_ok_parts(4) [OF ok]
  show "system_ok rt (s\<lparr>sys_db := d, sys_flights := fs @ fs'\<rparr>)"
    by (rule rest(1)) (use safe rest(2-) fl in auto)
  show "system_ok rt (s\<lparr>sys_db := d, sys_flights := fs @ fs', sys_queue := sys_queue s @ [msg]\<rparr>)"
    by (rule rest(1)) (use safe rest(2-) fl in auto)
qed

text \<open>A step that leaves the database alone.\<close>

lemma same_db_ok:
  assumes "system_ok rt s" and "sys_db s' = sys_db s" and "set (sys_queue s) \<subseteq> set (sys_queue s')"
    and "distinct (map (\<lambda>fl. cl_execution_token (fl_claim fl)) (sys_flights s'))"
    and "fl_claim ` set (sys_flights s') \<subseteq> fl_claim ` set (sys_flights s)"
  shows "system_ok rt s'"
  using assms safe_refl [OF system_ok_parts(1) [OF assms(1)], of "{}" "{}"]
  by (intro system_ok_safe [OF assms(1), of "{}"]) auto

lemma rejected_ok:
  assumes ok: "system_ok rt s" and q: "sys_queue s = q @ msg # q'"
    and run: "receive_message rt w e msg (sys_db s) = (Settled Reject, d, ns)"
  shows "system_ok rt (s\<lparr>sys_db := d, sys_queue := q @ q', sys_dead := dead\<rparr>)" (is "system_ok rt ?s")
  using system_ok_parts(1) [OF ok] run
proof (cases rule: receive_outcomes)
  case invalid
  have "dispatch_ok (rt_codec rt) ?s"
    using invalid(2,3) q safe_refl [OF system_ok_parts(1) [OF ok], of "{}" "{}"]
    by (intro dispatch_ok_safe [OF system_ok_parts(2) [OF ok], of "{}"]) auto
  then show ?thesis
    using invalid(2) system_ok_parts(1,4) [OF ok]
    by (intro system_ok_quiet [OF ok, of _ "{}"]) auto
qed auto

theorem step_ok:
  assumes c: "codec_ok (rt_codec rt)" and "step rt lib s s'" and "system_ok rt s"
  shows "system_ok rt s'"
  using assms(2,3)
proof (induction rule: step.induct)
  case (cancel e user i reread s res db' eff)
  then show ?case
    using cancel_job_safe [OF system_ok_parts(1) [OF cancel.prems] cancel.hyps] system_ok_parts(4) [OF cancel.prems]
    by (intro system_ok_safe [OF cancel.prems, of "{CancelIdle, RequestCancel}"]) (auto simp: quiet_def)
next
  case (receive_unsettled s q msg q' w e x db' ns)
  have "db' = sys_db s"
    using system_ok_parts(1) [OF receive_unsettled.prems] receive_unsettled.hyps(2)
    by (cases rule: receive_outcomes) auto
  with receive_unsettled.prems show ?case by simp
next
  case (receive_claimed e s q msg q' w claim db' ns)
  show ?case
    using system_ok_parts(1) [OF receive_claimed.prems] receive_claimed.hyps(3)
  proof (cases rule: receive_outcomes)
    case (claimed r)
    then show ?thesis
      using claimed_ok [OF receive_claimed.prems receive_claimed.hyps(1,2) claimed(2,3,5,6)] by simp
  qed auto
next
  case (poll s fs fl fs' ok)
  then show ?case
    using system_ok_parts(4) [OF poll.prems] by (intro same_db_ok [OF poll.prems]) auto
next
  case (crash s fs fl fs')
  then show ?case
    using system_ok_parts(4) [OF crash.prems] by (intro same_db_ok [OF crash.prems]) auto
next
  case (recover e s locked res db' ns)
  have "safe (rt_codec rt) {Fail, Requeue} {} (sys_db s) db'"
    using recover.hyps by (intro recover_due_batch_once_safe [OF c system_ok_parts(1) [OF recover.prems]])
      (auto simp: fresh_def used_uuids_def)
  then show ?case
    using system_ok_parts(4) [OF recover.prems]
    by (intro system_ok_safe [OF recover.prems, of "{Fail, Requeue}"]) (auto simp: quiet_def)
next
  case (foreign_message s msg)
  then show ?case
    using system_ok_parts(4) [OF foreign_message.prems] by (intro same_db_ok [OF foreign_message.prems]) auto
qed (auto intro: accounts_ok register_user_accounts admin_accounts create_ok [OF c] publish_ok [OF c] publish_failed_ok acked_ok [OF c] rejected_ok finish_ok [OF c])

theorem reachable_system_ok:
  assumes "codec_ok (rt_codec rt)" and "reachable rt lib s"
  shows "system_ok rt s"
  using assms(2) unfolding reachable_def
  by (induction rule: rtranclp_induct) (auto intro: initial_ok step_ok [OF assms(1)])

end
