(* ===== verification/Fencing.thy ===== *)
theory Fencing
  imports System_Model
begin

text \<open>
  Execution tokens as fences. The four updates that end an execution share one contract,
  stated as a locale and interpreted on each of them: the update succeeds exactly when the row
  is running under the given token, changes nothing otherwise, and leaves no row with that
  token. Hence at most one of several attempts to end the same execution takes effect.
\<close>

section \<open>The contract of a fenced update\<close>

definition holds_token :: "uuid \<Rightarrow> uuid \<Rightarrow> database \<Rightarrow> bool" where
  "holds_token i tok db \<longleftrightarrow>
     (\<exists>r \<in> set (db_jobs db). job_id r = i \<and> job_status r = RUNNING \<and> job_execution_token r = Some tok)"

locale fenced_update =
  fixes upd :: "uuid \<Rightarrow> uuid \<Rightarrow> database \<Rightarrow> bool \<times> database"
  assumes hit_iff: "job_keys_ok db \<Longrightarrow> fst (upd i tok db) \<longleftrightarrow> holds_token i tok db"
    and miss_same: "job_keys_ok db \<Longrightarrow> \<not> fst (upd i tok db) \<Longrightarrow> snd (upd i tok db) = db"
    and keys_kept: "job_keys_ok db \<Longrightarrow> job_keys_ok (snd (upd i tok db))"
    and token_gone: "\<not> holds_token i tok (snd (upd i tok db))"
begin

lemma fenced_out: "job_keys_ok db \<Longrightarrow> \<not> holds_token i tok db \<Longrightarrow> upd i tok db = (False, db)"
  using hit_iff miss_same by (metis prod.collapse)

lemma second_fails: "job_keys_ok db \<Longrightarrow> upd i tok (snd (upd i tok db)) = (False, snd (upd i tok db))"
  by (intro fenced_out keys_kept token_gone)

end

text \<open>After any fenced update, every fenced update with the same token is refused.\<close>

locale fenced_pair = first: fenced_update upd + second: fenced_update upd' for upd upd'
begin

lemma loser_changes_nothing:
  "job_keys_ok db \<Longrightarrow> upd' i tok (snd (upd i tok db)) = (False, snd (upd i tok db))"
  by (intro second.fenced_out first.keys_kept first.token_gone)

end

text \<open>One UPDATE statement guarded by status and token has the contract.\<close>

lemma fenced_update_jobs:
  assumes "\<And>r. job_id (f r) = job_id r" and "\<And>r. job_execution_token (f r) = None"
  shows "fenced_update (\<lambda>i tok. update_jobs (\<lambda>r. job_id r = i \<and> job_status r = RUNNING \<and> job_execution_token r = Some tok) f)"
proof
  fix db i tok
  let ?p = "\<lambda>r. job_id r = i \<and> job_status r = RUNNING \<and> job_execution_token r = Some tok"
  show "job_keys_ok db \<Longrightarrow> fst (update_jobs ?p f db) \<longleftrightarrow> holds_token i tok db"
    by (subst fst_update_jobs [where i = i]) (auto simp: holds_token_def)
  show "job_keys_ok db \<Longrightarrow> \<not> fst (update_jobs ?p f db) \<Longrightarrow> snd (update_jobs ?p f db) = db"
    by (rule update_jobs_miss [where i = i]) auto
  show "job_keys_ok db \<Longrightarrow> job_keys_ok (snd (update_jobs ?p f db))"
    using assms(1) by (simp add: job_keys_ok_def snd_update_jobs map_update_where)
  show "\<not> holds_token i tok (snd (update_jobs ?p f db))"
    using assms(2) by (auto simp: holds_token_def snd_update_jobs set_update_where)
qed

interpretation completed: fenced_update "\<lambda>i tok. mark_completed i tok now" for now
  unfolding mark_completed_def by (rule fenced_update_jobs) simp_all

interpretation failed: fenced_update "\<lambda>i tok. mark_failed i tok now er" for now er
  unfolding mark_failed_def by (rule fenced_update_jobs) simp_all

interpretation requeued: fenced_update "\<lambda>i tok. requeue_running i tok now er" for now er
  unfolding requeue_running_def by (rule fenced_update_jobs) simp_all

interpretation cancelled: fenced_update "\<lambda>i tok. mark_cancelled i tok now" for now
  unfolding mark_cancelled_def by (rule fenced_update_jobs) simp_all

interpretation recovery_wins: fenced_pair
  "\<lambda>i tok. requeue_running i tok now er" "\<lambda>i tok. mark_completed i tok now'" for now er now'
  by unfold_locales

interpretation completion_wins: fenced_pair
  "\<lambda>i tok. mark_completed i tok now" "\<lambda>i tok. requeue_running i tok now' er" for now er now'
  by unfold_locales

section \<open>Executions that lost their token\<close>

lemma fenced_settle:
  "settle False ok v db' ns w db = (Inr w, db, [])"
  by (simp add: settle_def)

lemma fenced_transactions:
  assumes keys: "job_keys_ok db" and lost: "\<not> holds_token (je_id (cl_job cl)) (cl_execution_token cl) db"
  shows "worker_mark_completed e cl db = (Inr (), db, [])"
    and "worker_mark_cancelled e cl db = (Inr (), db, [])"
    and "worker_mark_failed e cl er db = (Inr (), db, [])"
    and "retry_backoff_seconds (cl_attempt_number cl) = Inr d \<Longrightarrow> schedule_retry rt e cl er db = (Inr (), db, [])"
  by (simp_all add: worker_mark_completed_eq worker_mark_cancelled_eq worker_mark_failed_eq schedule_retry_eq
      completed.fenced_out [OF assms] cancelled.fenced_out [OF assms] failed.fenced_out [OF assms]
      requeued.fenced_out [OF assms] fenced_settle)

lemma fenced_finalize:
  assumes "job_keys_ok db" and "\<not> holds_token (je_id (cl_job cl)) (cl_execution_token cl) db" and "claim_ok db cl"
  shows "finalize_failure rt e cl er db = (Inr (), db, [])"
proof (cases "cl_attempt_number cl \<ge> 4")
  case True
  then show ?thesis
    by (simp add: finalize_failure_def max_total_attempts_claim [OF assms(3)] fenced_transactions(3) [OF assms(1,2)])
next
  case False
  with assms(3) obtain d where "retry_backoff_seconds (cl_attempt_number cl) = Inr d"
    using retry_backoff_defined [of "cl_attempt_number cl"] by (auto simp: claim_ok_def)
  with False show ?thesis
    by (simp add: finalize_failure_def max_total_attempts_claim [OF assms(3)] fenced_transactions(4) [OF assms(1,2)])
qed

lemma fenced_execution:
  assumes "job_keys_ok db" and "\<not> holds_token (je_id (cl_job cl)) (cl_execution_token cl) db" and "claim_ok db cl"
    and "execute_claim rt e cl polls db = Some out"
  shows "out = (Inr (), db, [])"
  using assms(4) fenced_finalize [OF assms(1-3)] fenced_transactions(1-3) [OF assms(1,2)]
  by (auto simp: execute_claim_def split: run.splits exn.splits)

end
