(* ===== verification/System_History.thy ===== *)
theory System_History
  imports Fencing
begin

text \<open>
  What a whole run of the system does to one job: no row disappears, rows move only by the
  moves of \<open>Job_Lifecycle\<close>, and the columns that identify the job never change.
\<close>

section \<open>One step\<close>

text \<open>The job a delivery starts, if any: it was queued and its owner below the limit.\<close>

definition starts :: "runtime \<Rightarrow> database \<Rightarrow> database \<Rightarrow> bool" where
  "starts rt db db' \<longleftrightarrow>
     (\<exists>r \<in> set (db_jobs db). \<exists>w e. job_status r = QUEUED \<and> db' = start_db rt w e (job_id r) db \<and>
        count_running_for_owner (job_owner_id r) db < job_max_running_per_user (rt_settings rt))"

lemma receive_jobs:
  assumes ok: "system_ok rt s" and run: "receive_message rt w e msg (sys_db s) = (rcv, d, ns)"
  shows "evolves (Collect quiet) (sys_db s) d \<or> starts rt (sys_db s) d"
  using system_ok_parts(1) [OF ok] run
proof (cases rule: receive_outcomes)
  case (deferred r)
  then show ?thesis by (simp add: evolves_same_jobs)
next
  case (claimed r)
  then show ?thesis by (auto simp: starts_def)
qed auto

lemma publish_evolves:
  assumes ok: "system_ok rt s" and run: "process_claimed_event rt e locked pr i (sys_db s) = (res, d, ms)"
  shows "evolves (Collect quiet) (sys_db s) d"
  using system_ok_parts(1) [OF ok] run
proof (cases rule: publish_outcomes)
  case (discarded ev r)
  then show ?thesis by (auto simp: discard_non_dispatchable_event_def intro: evolves_same_jobs)
next
  case (dispatched ev r m)
  have "evolves {Queue} (sys_db s) (queued_db e r (sys_db s))"
    using queued_db_safe [OF system_ok_parts(1) [OF ok], of r e] by (simp add: safe_def)
  then have "evolves (Collect quiet) (sys_db s) (queued_db e r (sys_db s))" by (rule evolves_mono) (simp add: quiet_def)
  then show ?thesis using dispatched(7) by (auto intro: evolves_jobs_cong)
qed auto

lemma publish_failed_evolves:
  assumes "record_failure e ev er db = (res, d, ms)"
  shows "evolves (Collect quiet) db d"
proof -
  have "db_jobs d = db_jobs db" using assms by (auto simp: record_failure_eq publish_failure_db_def split: if_splits)
  then show ?thesis by (simp add: evolves_same_jobs)
qed

text \<open>Every step moves rows without starting one, inserts one new job, or starts one job.\<close>

lemma safe_quiet: "safe c L I db db' \<Longrightarrow> (\<And>l. l \<in> L \<Longrightarrow> quiet l) \<Longrightarrow> evolves (Collect quiet) db db'"
  by (auto simp: safe_def intro: evolves_mono)

lemma step_kinds:
  assumes c: "codec_ok (rt_codec rt)" and "step rt lib s s'" and "system_ok rt s"
  shows "evolves (Collect quiet) (sys_db s) (sys_db s') \<or>
    (\<exists>r. new_job r \<and> db_jobs (sys_db s') = db_jobs (sys_db s) @ [r]) \<or> starts rt (sys_db s) (sys_db s')"
  using assms(2,3)
proof (induction rule: step.induct)
  case (register sec e salt email password seen s res db')
  then have "db_jobs db' = db_jobs (sys_db s)" using register_user_accounts by (auto simp: accounts_only_def)
  then show ?case by (simp add: evolves_same_jobs)
next
  case (create_admin sec e salt email password s res db')
  then have "db_jobs db' = db_jobs (sys_db s)" using admin_accounts by (auto simp: accounts_only_def)
  then show ?case by (simp add: evolves_same_jobs)
next
  case (create e s io user key t payload seen res db' counters' eff)
  from create_job_db [OF create.hyps(2)] show ?case
  proof (elim disjE exE conjE)
    fix r assume r: "r = pending_row e (cu_id user) t payload key (build_request_hash lib t payload) (job_max_retries_setting (rt_settings rt))"
      and v: "jobs_insert_violation r (sys_db s) = None" and db': "db' = created_db rt e r (sys_db s)"
    have "new_job r" using jobs_insert_violation_None [OF v] unfolding r by (intro pending_row_new) simp
    with db' show ?thesis by auto
  qed simp
next
  case (cancel e user i reread s res db' eff)
  then have "safe (rt_codec rt) {CancelIdle, RequestCancel} {} (sys_db s) db'"
    using cancel_job_safe [OF system_ok_parts(1)] by auto
  then have "evolves (Collect quiet) (sys_db s) db'" by (rule safe_quiet) (auto simp: quiet_def)
  then show ?case by simp
next
  case (finish e s fs fl fs' db' ns)
  then have "safe (rt_codec rt) end_moves {} (sys_db s) db'"
    using execute_claim_safe [OF c system_ok_parts(1) [OF finish.prems] _ _ finish.hyps(3)]
      system_ok_parts(5) [OF finish.prems, of fl] fresh_event [OF finish.hyps(1), of 0] by simp
  then have "evolves (Collect quiet) (sys_db s) db'" by (rule safe_quiet) (rule end_moves_quiet)
  then show ?case by simp
next
  case (finish_raised e s fs fl fs' x db' ns)
  then have "safe (rt_codec rt) end_moves {} (sys_db s) db'"
    using execute_claim_safe [OF c system_ok_parts(1) [OF finish_raised.prems] _ _ finish_raised.hyps(3)]
      system_ok_parts(5) [OF finish_raised.prems, of fl] fresh_event [OF finish_raised.hyps(1), of 0] by simp
  then have "evolves (Collect quiet) (sys_db s) db'" by (rule safe_quiet) (rule end_moves_quiet)
  then show ?case by simp
next
  case (recover e s locked res db' ns)
  have "safe (rt_codec rt) {Fail, Requeue} {} (sys_db s) db'"
    using recover.hyps by (intro recover_due_batch_once_safe [OF c system_ok_parts(1) [OF recover.prems]])
      (auto simp: fresh_def used_uuids_def)
  then have "evolves (Collect quiet) (sys_db s) db'" by (rule safe_quiet) (auto simp: quiet_def)
  then show ?case by simp
qed (auto dest: receive_jobs publish_evolves publish_failed_evolves)

lemma step_jobs:
  assumes c: "codec_ok (rt_codec rt)" and step: "step rt lib s s'" and ok: "system_ok rt s"
  shows "evolves UNIV (sys_db s) (sys_db s') \<or>
    (\<exists>r. new_job r \<and> db_jobs (sys_db s') = db_jobs (sys_db s) @ [r])"
  using step_kinds [OF assms]
proof (elim disjE)
  assume "starts rt (sys_db s) (sys_db s')"
  then obtain r w e where "r \<in> set (db_jobs (sys_db s))" "job_status r = QUEUED" "sys_db s' = start_db rt w e (job_id r) (sys_db s)"
    by (auto simp: starts_def)
  with start_db_safe [OF system_ok_parts(1) [OF ok], of r e rt w] have "evolves {Start (uuid4 e 0)} (sys_db s) (sys_db s')"
    by (simp add: safe_def)
  then show ?thesis using evolves_mono by blast
qed (auto intro: evolves_mono)

text \<open>
  No step overtakes a running execution: its row stays under the same token, attempt and lease for
  as long as it is running.
\<close>

lemma running_row_kept:
  assumes c: "codec_ok (rt_codec rt)" and step: "step rt lib s s'" and ok: "system_ok rt s"
    and r: "r \<in> set (db_jobs (sys_db s))" "job_status r = RUNNING"
  shows "\<exists>r' \<in> set (db_jobs (sys_db s')). job_id r' = job_id r \<and> job_attempt_count r' = job_attempt_count r \<and>
    (job_status r' = RUNNING \<longrightarrow> job_execution_token r' = job_execution_token r \<and> job_lease_expires_at r' = job_lease_expires_at r)"
  using step_kinds [OF c step ok]
proof (elim disjE)
  assume "evolves (Collect quiet) (sys_db s) (sys_db s')"
  then obtain r' where "r' \<in> set (db_jobs (sys_db s'))" "moves_in (Collect quiet) r r'" using r(1) by (rule evolves_forth)
  with moves_in_quiet [of "Collect quiet" r r'] moves_in_identity [of "Collect quiet" r r'] show ?thesis
    by (auto simp: same_identity_def)
next
  assume "starts rt (sys_db s) (sys_db s')"
  then obtain x w e where x: "x \<in> set (db_jobs (sys_db s))" "job_status x = QUEUED" "sys_db s' = start_db rt w e (job_id x) (sys_db s)"
    by (auto simp: starts_def)
  have "r \<in> set (db_jobs (sys_db s'))"
    using r by (auto simp: x(3) start_db_def mark_running_def snd_update_jobs set_update_where)
  then show ?thesis by blast
qed (use r(1) in auto)

section \<open>A run\<close>

definition follows :: "job \<Rightarrow> system \<Rightarrow> bool" where
  "follows r s \<longleftrightarrow> (\<exists>r' \<in> set (db_jobs (sys_db s)). moves_in UNIV r r')"

lemma run_follows:
  assumes c: "codec_ok (rt_codec rt)" and ok: "system_ok rt s" and r: "r \<in> set (db_jobs (sys_db s))"
    and run: "(step rt lib)\<^sup>*\<^sup>* s s'"
  shows "follows r s' \<and> system_ok rt s'"
  using run
proof (induction rule: rtranclp_induct)
  case base
  then show ?case using ok r by (auto simp: follows_def)
next
  case (step s1 s2)
  then obtain r1 where r1: "r1 \<in> set (db_jobs (sys_db s1))" "moves_in UNIV r r1" by (auto simp: follows_def)
  have "\<exists>r2 \<in> set (db_jobs (sys_db s2)). moves_in UNIV r1 r2"
    using step_jobs [OF c step.hyps(2) conjunct2 [OF step.IH]]
  proof
    assume "evolves UNIV (sys_db s1) (sys_db s2)"
    then obtain r2 where "r2 \<in> set (db_jobs (sys_db s2))" "moves_in UNIV r1 r2"
      using r1(1) by (rule evolves_forth)
    then show ?thesis by blast
  qed (use r1(1) in auto)
  with r1(2) step.IH step_ok [OF c step.hyps(2)] show ?case
    by (auto simp: follows_def intro: moves_in_trans)
qed

end
