(* ===== verification/Execution_Outcomes.thy ===== *)
theory Execution_Outcomes
  imports Fencing
begin

text \<open>
  What the worker's transactions leave when they take effect: the row of the job, and the
  dispatch event of a retry.
\<close>

text \<open>An execution whose token is on the row, with the claim taken from that row.\<close>

definition live_execution :: "database \<Rightarrow> execution_claim \<Rightarrow> job \<Rightarrow> bool" where
  "live_execution db cl r \<longleftrightarrow>
     r \<in> set (db_jobs db) \<and> job_id r = je_id (cl_job cl) \<and> job_status r = RUNNING \<and>
     job_execution_token r = Some (cl_execution_token cl) \<and> claim_ok db cl"

text \<open>
  The transaction returns, sends one notification, and the row of job \<open>i\<close> in the committed
  database satisfies \<open>P\<close>.
\<close>

definition leaves :: "unit txn \<Rightarrow> uuid \<Rightarrow> (database \<Rightarrow> job \<Rightarrow> bool) \<Rightarrow> bool" where
  "leaves out i P \<longleftrightarrow>
     (case out of
        (Inr _, db', ns) \<Rightarrow> length ns = 1 \<and> (\<exists>r' \<in> set (db_jobs db'). job_id r' = i \<and> P db' r')
      | (Inl _, _, _) \<Rightarrow> False)"

lemma settle_leaves:
  "ok \<Longrightarrow> r' \<in> set (db_jobs db') \<Longrightarrow> job_id r' = i \<Longrightarrow> P db' r' \<Longrightarrow> leaves (settle True ok () db' [n] w db) i P"
  by (auto simp: leaves_def settle_def)

lemma updated_row_in:
  assumes "r \<in> set (db_jobs db)" and "job_id r = i"
  shows "g r \<in> set (update_where (\<lambda>x. job_id x = i) g (db_jobs db))"
  using assms by (auto simp: set_update_where)

definition retry_delay :: "int \<Rightarrow> int" where
  "retry_delay attempt = (if attempt = 1 then 5 else if attempt = 2 then 15 else 30)"

lemma retry_backoff_delay: "1 \<le> n \<Longrightarrow> n \<le> 3 \<Longrightarrow> retry_backoff_seconds n = Inr (retry_delay n)"
proof -
  assume "1 \<le> n" "n \<le> 3"
  then consider "n = 1" | "n = 2" | "n = 3" by linarith
  then show ?thesis
    by cases (simp_all add: retry_backoff_seconds_def RETRY_BACKOFF_SECONDS_BY_ATTEMPT_def retry_delay_def)
qed

lemma completed_outcome:
  assumes keys: "job_keys_ok db" and live: "live_execution db cl r" and ok: "commit_ok e 0"
  shows "leaves (worker_mark_completed e cl db) (job_id r)
    (\<lambda>db' r'. job_status r' = COMPLETED \<and> job_finished_at r' = Some (clock_now e 0) \<and> job_last_error r' = None)"
proof -
  from live have r: "r \<in> set (db_jobs db)" "job_id r = je_id (cl_job cl)" "job_status r = RUNNING"
    "job_execution_token r = Some (cl_execution_token cl)" by (auto simp: live_execution_def)
  let ?f = "\<lambda>r. r\<lparr>job_status := COMPLETED, job_worker_id := None, job_execution_token := None,
     job_lease_expires_at := None, job_finished_at := Some (clock_now e 0), job_last_error := None,
     job_updated_at := clock_now e 0\<rparr>"
  have "mark_completed (je_id (cl_job cl)) (cl_execution_token cl) (clock_now e 0) db =
      (True, db\<lparr>db_jobs := update_where (\<lambda>x. job_id x = je_id (cl_job cl)) ?f (db_jobs db)\<rparr>)"
    unfolding mark_completed_def by (rule update_jobs_hit [OF keys r(1,2)]) (simp_all add: r)
  then show ?thesis
    using updated_row_in [OF r(1,2), of ?f] ok r(2)
    by (simp add: worker_mark_completed_eq) (rule settle_leaves [of _ "?f r"], simp_all)
qed

lemma cancelled_outcome:
  assumes keys: "job_keys_ok db" and live: "live_execution db cl r" and ok: "commit_ok e 0"
  shows "leaves (worker_mark_cancelled e cl db) (job_id r)
    (\<lambda>db' r'. job_status r' = CANCELLED \<and> job_finished_at r' = Some (clock_now e 0))"
proof -
  from live have r: "r \<in> set (db_jobs db)" "job_id r = je_id (cl_job cl)" "job_status r = RUNNING"
    "job_execution_token r = Some (cl_execution_token cl)" by (auto simp: live_execution_def)
  let ?f = "\<lambda>r. r\<lparr>job_status := CANCELLED, job_worker_id := None, job_execution_token := None,
     job_lease_expires_at := None, job_finished_at := Some (clock_now e 0), job_updated_at := clock_now e 0\<rparr>"
  have "mark_cancelled (je_id (cl_job cl)) (cl_execution_token cl) (clock_now e 0) db =
      (True, db\<lparr>db_jobs := update_where (\<lambda>x. job_id x = je_id (cl_job cl)) ?f (db_jobs db)\<rparr>)"
    unfolding mark_cancelled_def by (rule update_jobs_hit [OF keys r(1,2)]) (simp_all add: r)
  then show ?thesis
    using updated_row_in [OF r(1,2), of ?f] ok r(2)
    by (simp add: worker_mark_cancelled_eq) (rule settle_leaves [of _ "?f r"], simp_all)
qed

lemma failed_outcome:
  assumes keys: "job_keys_ok db" and live: "live_execution db cl r" and ok: "commit_ok e 0"
  shows "leaves (worker_mark_failed e cl er db) (job_id r)
    (\<lambda>db' r'. job_status r' = FAILED \<and> job_finished_at r' = Some (clock_now e 0) \<and> job_last_error r' = Some (truncate_job_error er))"
proof -
  from live have r: "r \<in> set (db_jobs db)" "job_id r = je_id (cl_job cl)" "job_status r = RUNNING"
    "job_execution_token r = Some (cl_execution_token cl)" by (auto simp: live_execution_def)
  let ?f = "\<lambda>r. r\<lparr>job_status := FAILED, job_worker_id := None, job_execution_token := None,
     job_lease_expires_at := None, job_finished_at := Some (clock_now e 0), job_last_error := Some (truncate_job_error er),
     job_updated_at := clock_now e 0\<rparr>"
  have "mark_failed (je_id (cl_job cl)) (cl_execution_token cl) (clock_now e 0) (truncate_job_error er) db =
      (True, db\<lparr>db_jobs := update_where (\<lambda>x. job_id x = je_id (cl_job cl)) ?f (db_jobs db)\<rparr>)"
    unfolding mark_failed_def by (rule update_jobs_hit [OF keys r(1,2)]) (simp_all add: r)
  then show ?thesis
    using updated_row_in [OF r(1,2), of ?f] ok r(2)
    by (simp add: worker_mark_failed_eq) (rule settle_leaves [of _ "?f r"], simp_all)
qed

lemma retry_event:
  "\<exists>ev \<in> set (db_outbox_events (snd (create_dispatch_event_if_absent c e n k i t db))).
     awaits_dispatch i ev \<and> (ev \<in> set (db_outbox_events db) \<or> ev_available_at ev = t)"
proof (cases "scalar_where (awaits_dispatch i) (db_outbox_events db)")
  case None
  then show ?thesis
    by (simp add: create_dispatch_event_if_absent_def create_dispatch_event_def Let_def dispatch_event_awaits)
      (simp add: dispatch_event_def Let_def)
next
  case (Some ev)
  then show ?thesis
    by (auto simp: create_dispatch_event_if_absent_def dest: scalar_where_SomeD)
qed

lemma retried_outcome:
  assumes keys: "job_keys_ok db" and live: "live_execution db cl r" and ok: "commit_ok e 0" and early: "cl_attempt_number cl \<le> 3"
  shows "leaves (schedule_retry rt e cl er db) (job_id r)
    (\<lambda>db' r'. job_status r' = QUEUED \<and> job_attempt_count r' = cl_attempt_number cl \<and> job_type r' = job_type r \<and>
       db' = retry_db rt e cl er (retry_delay (cl_attempt_number cl)) db \<and> job_last_error r' = Some (truncate_job_error er) \<and>
       (\<exists>ev \<in> set (db_outbox_events db'). awaits_dispatch (job_id r) ev \<and>
          (ev \<in> set (db_outbox_events db) \<or>
           ev_available_at ev = clock_now e 0 + timedelta_seconds (retry_delay (cl_attempt_number cl)))))"
proof -
  from live have r: "r \<in> set (db_jobs db)" "job_id r = je_id (cl_job cl)" "job_status r = RUNNING"
    "job_execution_token r = Some (cl_execution_token cl)" "job_attempt_count r = cl_attempt_number cl"
    by (auto simp: live_execution_def claim_ok_def)
  let ?f = "\<lambda>r. r\<lparr>job_status := QUEUED, job_worker_id := None, job_execution_token := None,
     job_lease_expires_at := None, job_finished_at := None, job_last_error := Some (truncate_job_error er),
     job_updated_at := clock_now e 0\<rparr>"
  let ?d = "db\<lparr>db_jobs := update_where (\<lambda>x. job_id x = je_id (cl_job cl)) ?f (db_jobs db)\<rparr>"
  have upd: "requeue_running (je_id (cl_job cl)) (cl_execution_token cl) (clock_now e 0) (truncate_job_error er) db = (True, ?d)"
    unfolding requeue_running_def by (rule update_jobs_hit [OF keys r(1,2)]) (simp_all add: r)
  have delay: "retry_backoff_seconds (cl_attempt_number cl) = Inr (retry_delay (cl_attempt_number cl))"
    using early live by (intro retry_backoff_delay) (auto simp: live_execution_def claim_ok_def)
  show ?thesis
    using updated_row_in [OF r(1,2), of ?f] ok r(2,5)
      retry_event [of "rt_codec rt" e 0 0 "je_id (cl_job cl)"
        "clock_now e 0 + timedelta_seconds (retry_delay (cl_attempt_number cl))" ?d]
    by (simp add: schedule_retry_eq [OF delay] upd)
      (rule settle_leaves [of _ "?f r"], simp_all add: retry_db_def upd)
qed

lemma leaves_mono: "leaves out i P \<Longrightarrow> (\<And>d r. P d r \<Longrightarrow> Q d r) \<Longrightarrow> leaves out i Q"
  by (auto simp: leaves_def split: prod.splits sum.splits)

section \<open>Claims\<close>

lemma defer_db_awaits: "\<exists>ev \<in> set (db_outbox_events (defer_db rt e i db)). awaits_dispatch i ev"
  using create_if_absent_awaits [of "rt_codec rt" e 1 0 i "clock_now e 0 + timedelta_seconds CAPACITY_DEFER_SECONDS" db]
  by (simp add: defer_db_def split_def split: option.split)

lemma start_db_row:
  assumes "r \<in> set (db_jobs db)" and "job_status r = QUEUED"
  shows "\<exists>r' \<in> set (db_jobs (start_db rt w e (job_id r) db)). job_id r' = job_id r \<and> job_status r' = RUNNING \<and>
    job_attempt_count r' = job_attempt_count r + 1 \<and> job_execution_token r' = Some (uuid4 e 0) \<and>
    job_lease_expires_at r' = Some (clock_now e 0 + timedelta_seconds (job_lease_seconds (rt_settings rt)))"
proof -
  let ?lease = "clock_now e 0 + timedelta_seconds (job_lease_seconds (rt_settings rt))"
  let ?f = "\<lambda>r. r\<lparr>job_status := RUNNING, job_worker_id := Some w, job_execution_token := Some (uuid4 e 0),
     job_lease_expires_at := Some ?lease,
     job_started_at := (case job_started_at r of None \<Rightarrow> Some (clock_now e 0) | Some t \<Rightarrow> Some t),
     job_finished_at := None, job_last_error := None, job_attempt_count := job_attempt_count r + 1,
     job_updated_at := clock_now e 0\<rparr>"
  have "?f r \<in> set (db_jobs (start_db rt w e (job_id r) db))"
    using assms by (auto simp: start_db_def mark_running_def snd_update_jobs set_update_where)
  then show ?thesis by (rule rev_bexI) simp
qed

end
