(* ===== verification/Job_Listing.thy ===== *)
theory Job_Listing
  imports Job_Service
begin

text \<open>
  Paged listing as a client sees it: \<open>list_jobs\<close> called again and again with the cursor of the
  page before. When the cache holds nothing the pages are consecutive segments of the caller's jobs, newest
  first, and together they are exactly those jobs.
\<close>

definition NoOpJobListCache :: "'c job_list_cache" where
  "NoOpJobListCache = \<lparr>get_page = \<lambda>_ _ _ _. Inr None, set_page = \<lambda>_ _ _ _ s. s, invalidate_owner = \<lambda>_ s. s\<rparr>"

section \<open>Cursors\<close>

lemma cursor_object:
  "sort_keys (JObj [(''v'', JInt 1), (''created_at'', JStr a), (''id'', JStr b)]) =
     JObj [(''created_at'', JStr a), (''id'', JStr b), (''v'', JInt 1)]"
  by (simp add: list_less_def lexord_simps)

lemma decode_encode_cursor:
  assumes "text_lib_ok lib"
  shows "decode_cursor lib (encode_cursor lib cursor) = Inr cursor"
proof -
  have keys: "set (map fst [(''created_at'', x), (''id'', y), (''v'', z)]) = {''v'', ''created_at'', ''id''}" for x y z :: json
    by auto
  show ?thesis
    using assms keys by (simp add: text_lib_ok_def decode_cursor_def encode_cursor_def cursor_object equals_one_def del: sort_keys.simps)
qed

section \<open>One page\<close>

text \<open>The caller's jobs, newest first, and the cursor a client holds after \<open>k\<close> of them.\<close>

definition visible_jobs :: "current_user_dto \<Rightarrow> database \<Rightarrow> job list" where
  "visible_jobs user db = ordered_jobs (may_access user) db"

definition cursor_at :: "text_lib \<Rightarrow> current_user_dto \<Rightarrow> database \<Rightarrow> nat \<Rightarrow> string option" where
  "cursor_at lib user db k =
     (if k = 0 then None else Some (encode_cursor lib (row_cursor (visible_jobs user db ! (k - 1)))))"

lemma keyset_at:
  assumes "job_keys_ok db" and "k \<le> length (ordered_jobs p db)"
    and "c = (if k = 0 then None else Some (row_cursor (ordered_jobs p db ! (k - 1))))"
  shows "keyset_page p c limit db = take (nat limit) (drop k (ordered_jobs p db))"
proof (cases k)
  case 0
  with assms(3) show ?thesis by (simp add: keyset_page_first)
next
  case (Suc i)
  with assms show ?thesis using keyset_page_after [of db i p limit] by simp
qed

lemma scoped_rows:
  "(if cu_role user = ADMIN then list_all_keyset c m db else list_for_owner_keyset (cu_id user) c m db) =
     map to_stored_job_dto (keyset_page (may_access user) c m db)"
proof (cases "cu_role user = ADMIN")
  case True
  then have "may_access user = (\<lambda>r. True)" by (simp add: may_access_def fun_eq_iff)
  with True show ?thesis by (simp add: list_all_keyset_def)
next
  case False
  then have "may_access user = (\<lambda>r. job_owner_id r = cu_id user)" by (simp add: may_access_def fun_eq_iff)
  with False show ?thesis by (simp add: list_for_owner_keyset_def)
qed

lemma list_jobs_at:
  assumes lib: "text_lib_ok lib" and keys: "job_keys_ok db" and k: "k \<le> length (visible_jobs user db)"
    and limit: "1 \<le> n" "n \<le> 100"
  shows "list_jobs lib NoOpJobListCache id user (cursor_at lib user db k) (Some n) db s =
    (Inr \<lparr>page_items = map (\<lambda>r. to_job_public_dto (to_stored_job_dto r)) (take (nat n) (drop k (visible_jobs user db))),
          page_next_cursor = (if k + nat n < length (visible_jobs user db)
                              then cursor_at lib user db (k + nat n) else None)\<rparr>, s)"
proof -
  let ?xs = "visible_jobs user db"
  let ?c = "if k = 0 then None else Some (row_cursor (?xs ! (k - 1)))"
  have norm: "normalize_limit (Some n) = n" using limit by (simp add: normalize_limit_def MAX_LIST_LIMIT_def)
  have dec: "(case cursor_at lib user db k of None \<Rightarrow> Inr None | Some c \<Rightarrow> map_sum id Some (decode_cursor lib c)) = Inr ?c"
    by (simp add: cursor_at_def decode_encode_cursor [OF lib])
  have rows: "(if cu_role user = ADMIN then list_all_keyset ?c (n + 1) db
      else list_for_owner_keyset (cu_id user) ?c (n + 1) db) = map to_stored_job_dto (take (Suc (nat n)) (drop k ?xs))"
    unfolding scoped_rows visible_jobs_def
    using keyset_at [OF keys k [unfolded visible_jobs_def] refl, of "n + 1"] limit(1) by (simp add: nat_add_distrib)
  have last: "last (take (nat n) (map to_stored_job_dto (take (Suc (nat n)) (drop k ?xs)))) = to_stored_job_dto (?xs ! (k + nat n - 1))"
    if "k + nat n < length ?xs"
    using that limit(1) by (simp add: take_map last_map last_conv_nth min_def)
  have len: "n < int (length (map to_stored_job_dto (take (Suc (nat n)) (drop k ?xs)))) \<longleftrightarrow> k + nat n < length ?xs"
    using limit(1) by auto
  have "build_job_list_page lib (map to_stored_job_dto (take (Suc (nat n)) (drop k ?xs))) n =
      \<lparr>page_items = map (\<lambda>r. to_job_public_dto (to_stored_job_dto r)) (take (nat n) (drop k ?xs)),
       page_next_cursor = (if k + nat n < length ?xs then cursor_at lib user db (k + nat n) else None)\<rparr>"
    unfolding build_job_list_page_def Let_def len
    using last limit(1) by (simp add: cursor_at_def row_cursor_def take_map comp_def)
  then show ?thesis
    unfolding list_jobs_def Let_def norm dec NoOpJobListCache_def by (simp add: rows)
qed

section \<open>All pages\<close>

fun walk_pages ::
  "text_lib \<Rightarrow> current_user_dto \<Rightarrow> int \<Rightarrow> database \<Rightarrow> nat \<Rightarrow> string option \<Rightarrow> job_public_dto list" where
  "walk_pages lib user n db 0 cursor = []"
| "walk_pages lib user n db (Suc fuel) cursor =
     (case fst (list_jobs lib NoOpJobListCache id user cursor (Some n) db ()) of
        Inl _ \<Rightarrow> []
      | Inr page \<Rightarrow>
          page_items page @
          (case page_next_cursor page of
             None \<Rightarrow> []
           | Some c \<Rightarrow> walk_pages lib user n db fuel (Some c)))"

lemma walk_pages_at:
  assumes lib: "text_lib_ok lib" and keys: "job_keys_ok db" and limit: "1 \<le> n" "n \<le> 100"
  shows "k \<le> length (visible_jobs user db) \<Longrightarrow> length (visible_jobs user db) - k < fuel \<Longrightarrow>
    walk_pages lib user n db fuel (cursor_at lib user db k) =
      map (\<lambda>r. to_job_public_dto (to_stored_job_dto r)) (drop k (visible_jobs user db))"
proof (induction fuel arbitrary: k)
  case (Suc fuel)
  let ?xs = "visible_jobs user db"
  note page = list_jobs_at [OF lib keys Suc.prems(1) limit, of "()"]
  show ?case
  proof (cases "k + nat n < length ?xs")
    case True
    then have "walk_pages lib user n db fuel (cursor_at lib user db (k + nat n)) =
        map (\<lambda>r. to_job_public_dto (to_stored_job_dto r)) (drop (k + nat n) ?xs)"
      using Suc.prems limit(1) by (intro Suc.IH) auto
    moreover obtain c where "cursor_at lib user db (k + nat n) = Some c"
      using limit(1) by (simp add: cursor_at_def)
    moreover have "drop k ?xs = take (nat n) (drop k ?xs) @ drop (k + nat n) ?xs"
      by (metis add.commute append_take_drop_id drop_drop)
    ultimately show ?thesis using page True by (simp flip: map_append)
  next
    case False
    then have "take (nat n) (drop k ?xs) = drop k ?xs" by simp
    with page False show ?thesis by simp
  qed
qed simp

end
