(* ===== verification/Lock_Order.thy ===== *)
theory Lock_Order
  imports Domain_Model
begin

text \<open>
  The row locks of the transactions and their order. A transaction is the sequence of its
  \<^verbatim>\<open>SELECT ... FOR UPDATE\<close> and UPDATE statements as lock requests; it keeps every lock until it
  ends. The step relation interleaves any number of transactions.
\<close>

section \<open>Lock programs\<close>

datatype resource = OwnerRow uuid | JobRow uuid | EventRow uuid

text \<open>
  \<open>Wait\<close> blocks until the row is free, \<open>Skip\<close> (\<^verbatim>\<open>SKIP LOCKED\<close>) continues with the first program
  when it got the lock and with the second otherwise.
\<close>

datatype lock_program = Finished | Wait resource lock_program | Skip resource lock_program lock_program

text \<open>\<^verbatim>\<open>JobWorker._claim_execution\<close>: \<^verbatim>\<open>users.lock_by_id\<close>, then \<^verbatim>\<open>get_execution_candidate_for_update\<close>.\<close>

definition claim_locks :: "uuid \<Rightarrow> uuid \<Rightarrow> lock_program" where
  "claim_locks owner_id i = Wait (OwnerRow owner_id) (Wait (JobRow i) Finished)"

text \<open>The transactions that end an execution or poll for cancellation touch the job row only.\<close>

definition finish_locks :: "uuid \<Rightarrow> lock_program" where
  "finish_locks i = Wait (JobRow i) Finished"

text \<open>\<^verbatim>\<open>JobService.cancel_job\<close>.\<close>

definition cancel_locks :: "uuid \<Rightarrow> lock_program" where
  "cancel_locks i = Wait (JobRow i) Finished"

text \<open>\<^verbatim>\<open>OutboxPublisher._process_claimed_event_once\<close>: the event row, then the job row.\<close>

definition publish_locks :: "uuid \<Rightarrow> uuid \<Rightarrow> lock_program" where
  "publish_locks event_id i = Skip (EventRow event_id) (Wait (JobRow i) Finished) Finished"

text \<open>
  \<^verbatim>\<open>StaleRunningRecovery.recover_due_batch_once\<close>: the stale job rows that are free, then the
  owner of each of them. The second argument collects the owners of the rows locked so far.
\<close>

fun recovery_locks :: "(uuid \<times> uuid) list \<Rightarrow> uuid list \<Rightarrow> lock_program" where
  "recovery_locks [] [] = Finished"
| "recovery_locks [] (owner_id # owners) = Wait (OwnerRow owner_id) (recovery_locks [] owners)"
| "recovery_locks ((i, owner_id) # jobs) owners =
     Skip (JobRow i) (recovery_locks jobs (owners @ [owner_id])) (recovery_locks jobs owners)"

section \<open>Interleavings\<close>

record transaction =
  tx_held :: "resource list"
  tx_todo :: lock_program

definition start_transaction :: "lock_program \<Rightarrow> transaction" where
  "start_transaction p = \<lparr>tx_held = [], tx_todo = p\<rparr>"

definition held_by_other :: "transaction list \<Rightarrow> nat \<Rightarrow> resource \<Rightarrow> bool" where
  "held_by_other ts i x \<longleftrightarrow> (\<exists>j < length ts. j \<noteq> i \<and> x \<in> set (tx_held (ts ! j)))"

inductive lock_step :: "transaction list \<Rightarrow> transaction list \<Rightarrow> bool" where
  acquire: "i < length ts \<Longrightarrow> tx_todo (ts ! i) = Wait x p \<Longrightarrow> \<not> held_by_other ts i x \<Longrightarrow>
     lock_step ts (ts[i := \<lparr>tx_held = x # tx_held (ts ! i), tx_todo = p\<rparr>])"
| skip_acquire: "i < length ts \<Longrightarrow> tx_todo (ts ! i) = Skip x p q \<Longrightarrow> \<not> held_by_other ts i x \<Longrightarrow>
     lock_step ts (ts[i := \<lparr>tx_held = x # tx_held (ts ! i), tx_todo = p\<rparr>])"
| skip_locked: "i < length ts \<Longrightarrow> tx_todo (ts ! i) = Skip x p q \<Longrightarrow> held_by_other ts i x \<Longrightarrow>
     lock_step ts (ts[i := \<lparr>tx_held = tx_held (ts ! i), tx_todo = q\<rparr>])"
| end_transaction: "i < length ts \<Longrightarrow> tx_todo (ts ! i) = Finished \<Longrightarrow>
     lock_step ts (ts[i := \<lparr>tx_held = [], tx_todo = Finished\<rparr>])"

definition blocked :: "transaction list \<Rightarrow> nat \<Rightarrow> bool" where
  "blocked ts i \<longleftrightarrow> (case tx_todo (ts ! i) of Wait x p \<Rightarrow> held_by_other ts i x | _ \<Rightarrow> False)"

text \<open>Somebody waits, and everybody who has not ended waits.\<close>

definition deadlocked :: "transaction list \<Rightarrow> bool" where
  "deadlocked ts \<longleftrightarrow>
     (\<exists>i < length ts. blocked ts i) \<and>
     (\<forall>i < length ts. blocked ts i \<or> tx_todo (ts ! i) = Finished \<and> tx_held (ts ! i) = [])"

section \<open>Ordered programs never deadlock\<close>

fun ascending :: "(resource \<Rightarrow> nat) \<Rightarrow> resource set \<Rightarrow> lock_program \<Rightarrow> bool" where
  "ascending rank H Finished = True"
| "ascending rank H (Wait x p) = ((\<forall>y \<in> H. rank y < rank x) \<and> ascending rank (insert x H) p)"
| "ascending rank H (Skip x p q) = (ascending rank (insert x H) p \<and> ascending rank H q)"

definition all_ascending :: "(resource \<Rightarrow> nat) \<Rightarrow> transaction list \<Rightarrow> bool" where
  "all_ascending rank ts \<longleftrightarrow> (\<forall>t \<in> set ts. ascending rank (set (tx_held t)) (tx_todo t))"

lemma all_ascending_update:
  assumes "all_ascending rank ts" and "ascending rank (set (tx_held t)) (tx_todo t)"
  shows "all_ascending rank (ts[i := t])"
  using assms set_update_subset_insert [of ts i t] by (auto simp: all_ascending_def)

lemma lock_step_ascending: "lock_step ts ts' \<Longrightarrow> all_ascending rank ts \<Longrightarrow> all_ascending rank ts'"
proof (induction rule: lock_step.induct)
  case (acquire i ts x p)
  then have "ascending rank (set (tx_held (ts ! i))) (Wait x p)" by (metis all_ascending_def nth_mem)
  with acquire.prems show ?case by (intro all_ascending_update) auto
next
  case (skip_acquire i ts x p q)
  then have "ascending rank (set (tx_held (ts ! i))) (Skip x p q)" by (metis all_ascending_def nth_mem)
  with skip_acquire.prems show ?case by (intro all_ascending_update) auto
next
  case (skip_locked i ts x p q)
  then have "ascending rank (set (tx_held (ts ! i))) (Skip x p q)" by (metis all_ascending_def nth_mem)
  with skip_locked.prems show ?case by (intro all_ascending_update) auto
next
  case (end_transaction i ts)
  then show ?case by (intro all_ascending_update) auto
qed

text \<open>
  The transaction that waits for the row of highest rank waits for somebody who, being
  blocked too, waits for a row of still higher rank.
\<close>

lemma ascending_not_deadlocked:
  assumes asc: "all_ascending rank ts"
  shows "\<not> deadlocked ts"
proof
  assume dead: "deadlocked ts"
  define waits where "waits = (\<lambda>i x. i < length ts \<and> (\<exists>p. tx_todo (ts ! i) = Wait x p))"
  have higher: "\<exists>j y. waits j y \<and> rank x < rank y" if w: "waits i x" for i x
  proof -
    from w dead have "held_by_other ts i x"
      by (auto simp: waits_def deadlocked_def blocked_def dest!: spec [of _ i])
    then obtain j where j: "j < length ts" "x \<in> set (tx_held (ts ! j))" by (auto simp: held_by_other_def)
    with dead have "blocked ts j" by (auto simp: deadlocked_def dest!: spec [of _ j])
    then obtain y p where y: "tx_todo (ts ! j) = Wait y p" by (auto simp: blocked_def split: lock_program.splits)
    moreover have "ascending rank (set (tx_held (ts ! j))) (Wait y p)"
      using asc j(1) y by (metis all_ascending_def nth_mem)
    ultimately have "waits j y" "rank x < rank y" using j by (auto simp: waits_def)
    then show ?thesis by blast
  qed
  have unbounded: "\<exists>i x. waits i x \<and> n \<le> rank x" for n
  proof (induction n)
    case 0
    from dead obtain i where "i < length ts" "blocked ts i" by (auto simp: deadlocked_def)
    then show ?case by (auto simp: waits_def blocked_def split: lock_program.splits)
  next
    case (Suc n)
    then show ?case using higher by (meson Suc_leI le_less_trans)
  qed
  have "finite {x. \<exists>i. waits i x}"
  proof (rule finite_subset)
    show "{x. \<exists>i. waits i x} \<subseteq> (\<lambda>i. case tx_todo (ts ! i) of Wait x p \<Rightarrow> x) ` {..<length ts}"
      by (force simp: waits_def)
  qed simp
  then have "finite (rank ` {x. \<exists>i. waits i x})" by simp
  then obtain m where "\<forall>k \<in> rank ` {x. \<exists>i. waits i x}. k < m" using finite_nat_set_iff_bounded by blast
  with unbounded [of m] show False by fastforce
qed

end
