(* ===== verification/Example_Run.thy ===== *)
theory Example_Run
  imports System_History Execution_Outcomes Job_Listing Lock_Order
begin

text \<open>
  A concrete instance of everything the model takes as an argument (text forms, the database
  driver, settings, an environment) and a short run of the system on it: a user registers and
  creates a job, the publisher dispatches it, a worker claims and completes it. The theorems of
  the development are applied to these states.
\<close>

section \<open>Instances of the injected parts\<close>

definition demo_uuid_text :: "uuid \<Rightarrow> string" where
  "demo_uuid_text u = str_nat (unat u)"

definition demo_uuid_value :: "json \<Rightarrow> uuid option" where
  "demo_uuid_value j = (case j of JStr s \<Rightarrow> Some (word_of_nat (nat_of_digits s)) | _ \<Rightarrow> None)"

definition demo_datetime_value :: "json \<Rightarrow> datetime option" where
  "demo_datetime_value j =
     (case j of
        JStr s \<Rightarrow> (case read_number s of Some (JInt n, []) \<Rightarrow> Some n | _ \<Rightarrow> None)
      | _ \<Rightarrow> None)"

lemma demo_uuid_round_trip: "demo_uuid_value (JStr (demo_uuid_text u)) = Some u"
  by (simp add: demo_uuid_value_def demo_uuid_text_def nat_of_str_nat)

lemma demo_datetime_round_trip: "demo_datetime_value (JStr (str_int t)) = Some t"
  using read_number_str_int [of "[]" t] by (simp add: demo_datetime_value_def ends_number_def)

definition demo_codec :: codec where
  "demo_codec = \<lparr>enc_uuid = demo_uuid_text, dec_uuid = demo_uuid_value, enc_datetime = str_int, dec_datetime = demo_datetime_value,
     dec_json = loads_compact\<rparr>"

lemma demo_codec_ok: "codec_ok demo_codec"
  by (simp add: codec_ok_def demo_codec_def demo_uuid_round_trip demo_datetime_round_trip loads_compact_write del: write_json.simps)

definition demo_lib :: text_lib where
  "demo_lib = \<lparr>tl_loads = loads_compact, tl_b64encode = rev, tl_b64decode = \<lambda>s. Some (rev s),
     tl_isoformat = str_int, tl_fromisoformat = demo_datetime_value, tl_str_uuid = demo_uuid_text,
     tl_uuid = demo_uuid_value, tl_sha256 = id\<rparr>"

lemma demo_lib_ok: "text_lib_ok demo_lib"
  by (simp add: text_lib_ok_def demo_lib_def loads_compact_dumps demo_uuid_round_trip demo_datetime_round_trip)

fun demo_driver :: driver where
  "demo_driver (UniqueViolation c) = \<lparr>oe_constraint_name = Some c, oe_sqlstate = Some ''23505'', oe_pgcode = None, oe_text = c\<rparr>"
| "demo_driver (CheckViolation c) = \<lparr>oe_constraint_name = Some c, oe_sqlstate = Some ''23514'', oe_pgcode = None, oe_text = c\<rparr>"
| "demo_driver (ForeignKeyViolation c) = \<lparr>oe_constraint_name = Some c, oe_sqlstate = Some ''23503'', oe_pgcode = None, oe_text = c\<rparr>"

lemma demo_driver_ok: "driver_reports_unique demo_driver"
  by (simp add: driver_reports_unique_def str_or_def)

text \<open>The defaults of \<^verbatim>\<open>Settings\<close>.\<close>

definition demo_settings :: settings where
  "demo_settings = \<lparr>app_env = Test, log_level = ''INFO'', database_url = ''db'', redis_url = ''redis'',
     rabbitmq_url = ''amqp'', jwt_secret = ''secret'', access_token_ttl_minutes = 30,
     job_max_running_per_user = 3, job_max_retries_setting = 3, job_lease_seconds = 60,
     outbox_poll_interval_seconds = 1, outbox_batch_size = 50, recovery_poll_interval_seconds = 5,
     recovery_batch_size = 50, cache_ttl_seconds = 30, create_job_rate_limit = 10,
     create_job_rate_window_seconds = 60\<rparr>"

lemma demo_settings_ok: "settings_bounds demo_settings"
  by (simp add: settings_bounds_def demo_settings_def)

definition demo_rt :: runtime where
  "demo_rt = \<lparr>rt_settings = demo_settings, rt_codec = demo_codec, rt_driver = demo_driver,
     rt_float_str = \<lambda>s. Inl s, rt_registry = build_job_handler_registry, rt_exn_text = \<lambda>_. ''error''\<rparr>"

text \<open>The \<open>k\<close>th operation: one point in time, identifiers \<open>100 * k\<close>, \<open>100 * k + 1\<close>, and so on.\<close>

definition demo_env :: "nat \<Rightarrow> env" where
  "demo_env k = \<lparr>clock_now = \<lambda>_. int k * 1000000, utc_now = \<lambda>_. int k * 1000000,
     uuid4 = \<lambda>n. word_of_nat (100 * k + n), identity = \<lambda>n. int (10 * k + n), commit_ok = \<lambda>_. True\<rparr>"

definition demo_io :: redis_io where
  "demo_io = answering 0 0 0"

definition demo_user :: current_user_dto where
  "demo_user = \<lparr>cu_id = 100, cu_email = ''a@example.org'', cu_role = USER, cu_is_active = True\<rparr>"

section \<open>The run\<close>

lemma demo_sel [simp]:
  "rt_settings demo_rt = demo_settings" "rt_codec demo_rt = demo_codec" "rt_driver demo_rt = demo_driver"
  "rt_registry demo_rt = build_job_handler_registry"
  "clock_now (demo_env k) n = int k * 1000000" "utc_now (demo_env k) n = int k * 1000000"
  "uuid4 (demo_env k) n = word_of_nat (100 * k + n)" "commit_ok (demo_env k) n"
  "cu_id demo_user = 100" "cu_role demo_user = USER" "tl_str_uuid demo_lib = demo_uuid_text"
  "job_max_retries_setting demo_settings = 3" "job_max_running_per_user demo_settings = 3"
  "recovery_batch_size demo_settings = 50"
  by (simp_all add: demo_rt_def demo_env_def demo_user_def demo_lib_def demo_settings_def)

definition demo_owner :: user where
  "demo_owner = \<lparr>user_id = 100, user_email = ''a@example.org'', user_password_hash = ''hash'', user_role = USER,
     user_is_active = True, user_created_at = 1000000, user_updated_at = 1000000\<rparr>"

definition demo_db1 :: database where
  "demo_db1 = \<lparr>db_users = [demo_owner], db_jobs = [], db_job_logs = [], db_outbox_events = []\<rparr>"

text \<open>Passwords kept as they are, tokens that are the text of their claims.\<close>

definition demo_jwt_decode :: "datetime \<Rightarrow> string \<Rightarrow> string \<Rightarrow> jwt_result" where
  "demo_jwt_decode now token secret =
     (case loads_compact token of
        Some (JObj claims) \<Rightarrow>
          (case map_of claims ''exp'' of
             Some (JInt t) \<Rightarrow> if timedelta_seconds t \<le> now then ExpiredSignature else Decoded claims
           | _ \<Rightarrow> InvalidToken)
      | _ \<Rightarrow> InvalidToken)"

definition demo_sec :: security_lib where
  "demo_sec = \<lparr>sl_hash = \<lambda>_ p. p, sl_verify = \<lambda>p h. Inr (p = h), sl_jwt_encode = \<lambda>claims _. write_json (JObj claims),
     sl_jwt_decode = demo_jwt_decode,
     sl_fromtimestamp = \<lambda>j. case j of JInt n \<Rightarrow> Inr (timedelta_seconds n) | _ \<Rightarrow> Inl (TypeError ''timestamp''),
     sl_str = \<lambda>_. []\<rparr>"

lemma demo_sec_ok: "security_lib_ok demo_sec"
  by (simp add: security_lib_ok_def five_claims_def demo_sec_def demo_jwt_decode_def loads_compact_write del: write_json.simps)

lemma demo_email: "normalize_email '' A@example.org'' = ''a@example.org''"
  by code_simp

lemma demo_register:
  "register_user demo_sec demo_driver (demo_env 1) 0 '' A@example.org'' ''hash'' empty_database empty_database =
     (Inr (to_user_public_dto demo_owner), demo_db1)"
  by (simp add: register_user_eq create_user_def users_insert_violation_def empty_database_def demo_owner_def demo_db1_def
      add_user_def Let_def get_by_email_def scalar_where_def demo_email demo_sec_def)

definition demo_limiter :: "counters rate_limiter" where
  "demo_limiter = RedisCreateJobRateLimiter demo_uuid_text demo_settings demo_io"

definition demo_counters :: counters where
  "demo_counters = snd (reserve demo_limiter 100 Map.empty)"

lemma demo_reserve: "\<exists>r. reserve demo_limiter 100 Map.empty = (Inr (Some r), demo_counters)"
  by (simp add: demo_counters_def demo_limiter_def RedisCreateJobRateLimiter_def limiter_reserve_def demo_io_def
      answering_def reserve_script_def live_def demo_settings_def Let_def split_def)

definition demo_row :: job where
  "demo_row = pending_row (demo_env 2) 100 SUCCESS [] ''key-1'' (build_request_hash demo_lib SUCCESS []) 3"

definition demo_db2 :: database where
  "demo_db2 = created_db demo_rt (demo_env 2) demo_row demo_db1"

lemma demo_row_sel [simp]:
  "job_id demo_row = 200" "job_owner_id demo_row = 100" "job_status demo_row = PENDING" "job_attempt_count demo_row = 0"
  "job_idempotency_key demo_row = ''key-1''" "job_max_retries demo_row = 3"
  "job_request_hash demo_row = build_request_hash demo_lib SUCCESS []"
  by (simp_all add: demo_row_def)

lemma demo_insert: "\<not> jobs_data_error demo_row" "jobs_insert_violation demo_row demo_db1 = None"
  by (simp_all add: jobs_insert_violation_def jobs_data_error_def in_smallint_def demo_db1_def demo_owner_def)

lemma demo_create:
  "\<exists>res eff. create_job demo_rt demo_lib demo_limiter (demo_env 2) demo_user ''key-1'' SUCCESS [] demo_db1 demo_db1 Map.empty =
    (Inr res, demo_db2, demo_counters, eff) \<and> jcr_created res"
proof -
  obtain r where r: "reserve demo_limiter (cu_id demo_user) Map.empty = (Inr (Some r), demo_counters)"
    using demo_reserve by auto
  have none: "get_by_idempotency_key (cu_id demo_user) ''key-1'' demo_db1 = None"
    by (simp add: get_by_idempotency_key_def demo_db1_def scalar_where_def)
  show ?thesis
    using create_job_insert [OF none r, of demo_row "demo_env 2" SUCCESS "[]" demo_lib demo_rt demo_db1] demo_insert
    by (auto simp: demo_db2_def demo_row_def)
qed

definition demo_event :: outbox_event where
  "demo_event = dispatch_event demo_codec (demo_env 2) 1 3 200 2000000"

lemma demo_db2_sel [simp]:
  "db_users demo_db2 = [demo_owner]" "db_jobs demo_db2 = [demo_row]" "db_outbox_events demo_db2 = [demo_event]"
  by (simp_all add: demo_db2_def demo_db1_def demo_event_def)

definition demo_dispatch :: dispatch_message where
  "demo_dispatch = \<lparr>dm_event_id = 201, dm_job_id = 200, dm_kind = ''dispatch'', dm_created_at = 2000000\<rparr>"

lemma demo_event_valid: "model_validate demo_codec (ev_payload demo_event) = Inr demo_dispatch"
  using model_validate_dispatch_event [OF demo_codec_ok, of "demo_env 2" 1 3 200 2000000]
  by (simp add: demo_event_def demo_dispatch_def)

lemma demo_event_sel [simp]:
  "ev_id demo_event = 201" "ev_aggregate_id demo_event = 200" "ev_published_at demo_event = None"
  by (simp_all add: demo_event_def)

definition demo_message :: message where
  "demo_message = dispatch_amqp_message demo_codec demo_event demo_dispatch"

definition demo_db3 :: database where
  "demo_db3 = mark_published 201 3000000 (queued_db (demo_env 3) demo_row demo_db2)"

lemma demo_publish:
  "process_claimed_event demo_rt (demo_env 3) (\<lambda>_. False) Confirmed 201 demo_db2 = (Inr (Done True), demo_db3, [demo_message])"
proof -
  have "get_by_id_for_update_unpublished (\<lambda>_. False) 201 demo_db2 = Some demo_event"
    by (simp add: get_by_id_for_update_unpublished_def scalar_where_def)
  from event_dispatch [OF _ this, of demo_row demo_rt demo_dispatch "demo_env 3" Confirmed]
  show ?thesis by (simp add: job_keys_ok_def demo_event_valid demo_db3_def demo_message_def)
qed

definition demo_queued :: job where
  "demo_queued = demo_row\<lparr>job_status := QUEUED, job_updated_at := 3000000\<rparr>"

lemma demo_db3_sel [simp]:
  "db_jobs demo_db3 = [demo_queued]" "db_users demo_db3 = [demo_owner]"
  "db_outbox_events demo_db3 = [demo_event\<lparr>ev_published_at := Some 3000000, ev_last_error := None, ev_updated_at := 3000000\<rparr>]"
  by (simp_all add: demo_db3_def queued_db_def mark_queued_def snd_update_jobs demo_queued_def)
    (simp add: mark_published_def queued_db_def mark_queued_def snd_update_jobs)

definition demo_s1 :: system where
  "demo_s1 = initial_system\<lparr>sys_db := demo_db1\<rparr>"

definition demo_s2 :: system where
  "demo_s2 = demo_s1\<lparr>sys_db := demo_db2, sys_counters := demo_counters\<rparr>"

definition demo_s3 :: system where
  "demo_s3 = demo_s2\<lparr>sys_db := demo_db3, sys_queue := [demo_message]\<rparr>"

definition demo_claim :: execution_claim where
  "demo_claim = claim_of (demo_env 4) demo_queued"

definition demo_db4 :: database where
  "demo_db4 = start_db demo_rt ''worker-1'' (demo_env 4) 200 demo_db3"

definition demo_s4 :: system where
  "demo_s4 = demo_s3\<lparr>sys_db := demo_db4, sys_queue := [],
     sys_flights := [\<lparr>fl_message = demo_message, fl_claim = demo_claim, fl_polls = []\<rparr>]\<rparr>"

lemma demo_sys_sel [simp]:
  "sys_db demo_s1 = demo_db1" "sys_db demo_s2 = demo_db2" "sys_db demo_s3 = demo_db3" "sys_db demo_s4 = demo_db4"
  "sys_queue demo_s1 = []" "sys_queue demo_s2 = []" "sys_queue demo_s3 = [demo_message]" "sys_queue demo_s4 = []"
  "sys_flights demo_s1 = []" "sys_flights demo_s2 = []" "sys_flights demo_s3 = []"
  "sys_counters demo_s1 = Map.empty"
  by (simp_all add: demo_s1_def demo_s2_def demo_s3_def demo_s4_def initial_system_def)

lemma below_two: "{..<2::nat} = {0, 1}"
  by auto

lemma demo_step1: "step demo_rt demo_lib initial_system demo_s1"
  unfolding demo_s1_def using demo_register
  by (intro step.register [of demo_sec _ "demo_env 1" 0]) (simp add: initial_system_def)

lemma demo_step2: "step demo_rt demo_lib demo_s1 demo_s2"
proof -
  have "fresh 2 (demo_env 2) demo_s1"
    by (auto simp: fresh_def used_uuids_def below_two demo_db1_def)
  moreover obtain res eff where "create_job demo_rt demo_lib (RedisCreateJobRateLimiter (tl_str_uuid demo_lib) (rt_settings demo_rt) demo_io)
      (demo_env 2) demo_user ''key-1'' SUCCESS [] demo_db1 (sys_db demo_s1) (sys_counters demo_s1) = (res, demo_db2, demo_counters, eff)"
    using demo_create unfolding demo_limiter_def by auto
  ultimately show ?thesis unfolding demo_s2_def by (rule step.create)
qed

lemma demo_step3: "step demo_rt demo_lib demo_s2 demo_s3"
proof -
  have "process_claimed_event demo_rt (demo_env 3) (\<lambda>_. False) Confirmed 201 (sys_db demo_s2) = (Inr (Done True), demo_db3, [demo_message])"
    using demo_publish by simp
  from step.publish [OF this, of demo_lib] show ?thesis by (simp add: demo_s3_def)
qed

lemma demo_reachable3: "reachable demo_rt demo_lib demo_s3"
  unfolding reachable_def
  by (rule rtranclp.rtrancl_into_rtrancl [OF rtranclp.rtrancl_into_rtrancl [OF
        r_into_rtranclp [of "step demo_rt demo_lib", OF demo_step1] demo_step2] demo_step3])

lemma demo_ok3: "system_ok demo_rt demo_s3"
  by (rule reachable_system_ok [OF _ demo_reachable3]) (simp add: demo_codec_ok)

lemma demo_message_valid: "model_validate_json demo_codec (msg_body demo_message) = Inr demo_dispatch"
  by (simp add: demo_message_def dispatch_amqp_message_def)
    (rule model_validate_dump_json [OF demo_codec_ok], simp add: demo_dispatch_def)

lemma demo_queued_sel [simp]:
  "job_id demo_queued = 200" "job_owner_id demo_queued = 100" "job_status demo_queued = QUEUED"
  "job_attempt_count demo_queued = 0" "job_max_retries demo_queued = 3" "job_type demo_queued = SUCCESS"
  "job_execution_token demo_queued = None" "job_payload demo_queued = []"
  by (simp_all add: demo_queued_def demo_row_def pending_row_def)

lemma demo_receive:
  "\<exists>ns. receive_message demo_rt ''worker-1'' (demo_env 4) demo_message demo_db3 = (Claimed demo_claim, demo_db4, ns)"
proof -
  have "db_ok demo_codec demo_db3" using system_ok_parts(1) [OF demo_ok3] by simp
  from claim_execution_eq [OF this, of demo_queued demo_dispatch demo_rt "''worker-1''" "demo_env 4"]
  show ?thesis
    by (auto simp: receive_message_def demo_message_valid demo_dispatch_def settle_def demo_claim_def demo_db4_def
        count_running_for_owner_def rowcount_def)
qed

lemma demo_step4: "step demo_rt demo_lib demo_s3 demo_s4"
proof -
  have "fresh 2 (demo_env 4) demo_s3"
    by (auto simp: fresh_def used_uuids_def below_two)
  moreover have "sys_queue demo_s3 = [] @ demo_message # []" by simp
  moreover obtain ns where "receive_message demo_rt ''worker-1'' (demo_env 4) demo_message (sys_db demo_s3) = (Claimed demo_claim, demo_db4, ns)"
    using demo_receive by auto
  ultimately show ?thesis using step.receive_claimed [of "demo_env 4" demo_s3] by (fastforce simp: demo_s4_def)
qed

lemma demo_reachable4: "reachable demo_rt demo_lib demo_s4"
  using demo_reachable3 demo_step4 unfolding reachable_def by (rule rtranclp.rtrancl_into_rtrancl)

lemma demo_db4_jobs: "map job_status (db_jobs demo_db4) = [RUNNING]" "map job_attempt_count (db_jobs demo_db4) = [1]"
    "map job_id (db_jobs demo_db4) = [200]" "map job_execution_token (db_jobs demo_db4) = [Some 400]"
  by (simp_all add: demo_db4_def start_db_def mark_running_def snd_update_jobs)

lemma demo_ok4: "system_ok demo_rt demo_s4"
  by (rule reachable_system_ok [OF _ demo_reachable4]) (simp add: demo_codec_ok)

definition demo_running :: job where
  "demo_running = demo_queued\<lparr>job_status := RUNNING, job_worker_id := Some ''worker-1'', job_execution_token := Some 400,
     job_lease_expires_at := Some 64000000, job_started_at := Some 4000000, job_finished_at := None,
     job_last_error := None, job_attempt_count := 1, job_updated_at := 4000000\<rparr>"

lemma demo_db4_running: "db_jobs demo_db4 = [demo_running]"
  by (simp add: demo_db4_def start_db_def mark_running_def snd_update_jobs demo_running_def timedelta_seconds_def demo_settings_def)
    (simp add: demo_queued_def demo_row_def pending_row_def)

lemma demo_running_sel [simp]:
  "job_id demo_running = 200" "job_status demo_running = RUNNING" "job_attempt_count demo_running = 1"
  "job_execution_token demo_running = Some 400" "job_owner_id demo_running = 100"
  "job_lease_expires_at demo_running = Some 64000000" "job_cancel_requested_at demo_running = None"
  by (simp_all add: demo_running_def) (simp add: demo_queued_def demo_row_def pending_row_def)

lemma demo_claim_sel [simp]:
  "cl_execution_token demo_claim = 400" "je_id (cl_job demo_claim) = 200" "cl_attempt_number demo_claim = 1"
  "je_type (cl_job demo_claim) = SUCCESS" "je_payload (cl_job demo_claim) = []" "je_max_retries (cl_job demo_claim) = 3"
  by (simp_all add: demo_claim_def claim_of_def)

lemma demo_live: "live_execution demo_db4 demo_claim demo_running"
  using system_ok_parts(5) [OF demo_ok4, of "\<lparr>fl_message = demo_message, fl_claim = demo_claim, fl_polls = []\<rparr>"]
  by (simp add: live_execution_def demo_db4_running demo_s4_def)

lemma demo_keys4: "job_keys_ok demo_db4"
  by (simp add: job_keys_ok_def demo_db4_running)

text \<open>The worker dies; 66 seconds later the lease has expired and recovery takes the job back.\<close>

definition demo_db5 :: database where
  "demo_db5 = recovered_all demo_codec (demo_env 70) 70000000 0 [demo_running] demo_db4"

definition demo_s5 :: system where
  "demo_s5 = demo_s4\<lparr>sys_db := demo_db5\<rparr>"

lemma demo_stale: "stale_rows (\<lambda>_. False) 70000000 50 demo_db4 = [demo_running]"
  by (simp add: stale_rows_def demo_db4_running lease_expired_def)

lemma demo_recover:
  "\<exists>ns. recover_due_batch_once demo_rt (demo_env 70) (\<lambda>_. False) demo_db4 = (Inr 1, demo_db5, ns)"
proof -
  have "db_ok demo_codec demo_db4" using system_ok_parts(1) [OF demo_ok4] by simp
  from recover_due_batch_once_eq [OF this, of "[demo_running]" "\<lambda>_. False" "demo_env 70" demo_rt] show ?thesis
    by (simp add: demo_stale settle_def demo_db5_def)
qed

lemma word_of_nat_inj_small: "a < 100000 \<Longrightarrow> b < 100000 \<Longrightarrow> (word_of_nat a :: uuid) = word_of_nat b \<longleftrightarrow> a = b"
  by (simp add: word_of_nat_eq_iff take_bit_nat_eq_self)

lemma demo_fresh5: "fresh 50 (demo_env 70) demo_s4"
proof -
  have "inj_on (uuid4 (demo_env 70)) {..<50}"
    by (auto simp: inj_on_def word_of_nat_inj_small)
  moreover have "(word_of_nat (7000 + n) :: uuid) \<noteq> word_of_nat 201" "(word_of_nat (7000 + n) :: uuid) \<noteq> word_of_nat 400" if "n < 50" for n
    using that by (simp_all only: word_of_nat_inj_small)
  moreover have "db_outbox_events demo_db4 = db_outbox_events demo_db3"
    by (simp add: demo_db4_def start_db_def mark_running_def)
  ultimately show ?thesis
    by (auto simp: fresh_def used_uuids_def demo_db4_running demo_s4_def)
qed

lemma demo_step5: "step demo_rt demo_lib demo_s4 demo_s5"
proof -
  obtain ns where "recover_due_batch_once demo_rt (demo_env 70) (\<lambda>_. False) (sys_db demo_s4) = (Inr 1, demo_db5, ns)"
    using demo_recover by auto
  with demo_fresh5 show ?thesis unfolding demo_s5_def by (intro step.recover) simp_all
qed

lemma demo_reachable5: "reachable demo_rt demo_lib demo_s5"
  using demo_reachable4 demo_step5 unfolding reachable_def by (rule rtranclp.rtrancl_into_rtrancl)

lemma demo_db5_jobs: "db_jobs demo_db5 = [recover_row 70000000 demo_running]"
  unfolding demo_db5_def by (subst recovered_all_jobs) (simp_all add: demo_db4_running)

lemma demo_flight5: "\<lparr>fl_message = demo_message, fl_claim = demo_claim, fl_polls = []\<rparr> \<in> set (sys_flights demo_s5)"
  by (simp add: demo_s5_def demo_s4_def)

lemma demo_execute: "execute_claim demo_rt e demo_claim polls db = Some (worker_mark_completed e demo_claim db)"
  by (simp add: execute_claim_def run_handler_def success_execute_def)

text \<open>The same running job with its dispatch event still unpublished, as after a failed commit.\<close>

definition demo_db_stale_event :: database where
  "demo_db_stale_event = demo_db4\<lparr>db_outbox_events := [demo_event]\<rparr>"

lemma demo_stale_event_sel: "db_jobs demo_db_stale_event = [demo_running]" "db_outbox_events demo_db_stale_event = [demo_event]"
  by (simp_all add: demo_db_stale_event_def demo_db4_running)

lemma demo_stale_event_ok: "db_ok demo_codec demo_db_stale_event"
proof -
  have "event_ok demo_codec demo_db_stale_event demo_event"
    by (simp add: event_ok_def job_exists_def demo_stale_event_sel demo_event_valid)
      (simp add: demo_event_def dispatch_event_def demo_dispatch_def Let_def)
  then show ?thesis
    using system_ok_parts(1) [OF demo_ok4]
    by (simp add: db_ok_def user_keys_ok_def jobs_ok_def job_keys_ok_def owner_exists_def events_ok_def logs_ok_def job_exists_def
        demo_stale_event_sel demo_db4_running) (simp add: demo_db_stale_event_def)
qed

lemma demo_replayed:
  "\<exists>res. create_job demo_rt demo_lib demo_limiter (demo_env 9) demo_user ''key-1'' SUCCESS [] demo_db2 demo_db2 demo_counters =
    (Inr res, demo_db2, demo_counters, []) \<and> \<not> jcr_created res"
  using create_job_existing [of demo_user "''key-1''" demo_db2 "to_stored_job_dto demo_row" demo_rt demo_lib demo_limiter "demo_env 9"
      SUCCESS "[]" demo_db2 demo_counters]
  by (simp add: get_by_idempotency_key_def scalar_where_def replay_def validate_existing_job_def)

end
