(* ===== verification/Job_List_Cache.thy ===== *)
theory Job_List_Cache
  imports Job_Listing Rate_Limiter
begin

text \<open>
  \<^verbatim>\<open>src/app/infrastructure/redis/job_list_cache.py\<close>: pages of the job list kept in Redis under a
  version number per owner (and one for administrators); invalidating an owner increments both
  numbers, so that pages stored under the old ones are no longer found. Two namespaces of keys
  are kept apart: the version counters (written by \<^verbatim>\<open>INCR\<close> only) and the page texts.
\<close>

section \<open>State\<close>

record cached_text =
  cp_text :: string
  cp_expires_at :: int

record list_cache =
  lc_versions :: counters
  lc_pages :: "string \<rightharpoonup> cached_text"

definition live_text :: "int \<Rightarrow> list_cache \<Rightarrow> string \<Rightarrow> string option" where
  "live_text now s k = (case lc_pages s k of None \<Rightarrow> None | Some c \<Rightarrow> if now < cp_expires_at c then Some (cp_text c) else None)"

text \<open>
  One operation's dealings with Redis: the server's time and how its two calls end, and the same for the
  store that ends a listing, which comes after the database was read.
\<close>

record cache_io =
  ci_time :: int
  ci_first :: redis_call
  ci_second :: redis_call
  ci_store_time :: int
  ci_store_first :: redis_call
  ci_store_second :: redis_call

definition cache_answers :: "int \<Rightarrow> cache_io" where
  "cache_answers t = \<lparr>ci_time = t, ci_first = Replied, ci_second = Replied,
     ci_store_time = t, ci_store_first = Replied, ci_store_second = Replied\<rparr>"

text \<open>Lookup and store within one second of the server's time.\<close>

definition at_once :: "cache_io \<Rightarrow> cache_io" where
  "at_once io = io\<lparr>ci_store_time := ci_time io\<rparr>"

lemma at_once_answers [simp]: "at_once (cache_answers t) = cache_answers t"
  by (simp add: at_once_def cache_answers_def)

lemma at_once_sel [simp]:
  "ci_time (at_once io) = ci_time io" "ci_first (at_once io) = ci_first io" "ci_second (at_once io) = ci_second io"
  "ci_store_time (at_once io) = ci_time io" "ci_store_first (at_once io) = ci_store_first io"
  "ci_store_second (at_once io) = ci_store_second io"
  by (simp_all add: at_once_def)

section \<open>Keys\<close>

definition ADMIN_LIST_VERSION_KEY :: string where
  "ADMIN_LIST_VERSION_KEY = ''jobs:list:version:admin''"

definition OWNER_LIST_VERSION_KEY :: "string \<Rightarrow> string" where
  "OWNER_LIST_VERSION_KEY owner_id = ''jobs:list:version:user:'' @ owner_id"

definition VERSION_TTL_SECONDS :: int where
  "VERSION_TTL_SECONDS = 7 * 24 * 60 * 60"

definition version_key :: "text_lib \<Rightarrow> uuid option \<Rightarrow> string" where
  "version_key lib owner =
     (case owner of None \<Rightarrow> ADMIN_LIST_VERSION_KEY | Some i \<Rightarrow> OWNER_LIST_VERSION_KEY (tl_str_uuid lib i))"

definition get_version :: "text_lib \<Rightarrow> int \<Rightarrow> uuid option \<Rightarrow> list_cache \<Rightarrow> nat" where
  "get_version lib now owner s =
     (case live now (lc_versions s) (version_key lib owner) of None \<Rightarrow> 0 | Some c \<Rightarrow> ct_value c)"

text \<open>\<^verbatim>\<open>cursor or ""\<close>: no cursor and the empty cursor have the same hash.\<close>

definition cursor_text :: "string option \<Rightarrow> string" where
  "cursor_text cursor = (case cursor of None \<Rightarrow> '''' | Some c \<Rightarrow> c)"

definition cache_key :: "text_lib \<Rightarrow> uuid option \<Rightarrow> nat \<Rightarrow> string option \<Rightarrow> int \<Rightarrow> string" where
  "cache_key lib owner version cursor limit =
     (let cursor_hash = tl_sha256 lib (cursor_text cursor);
          rest = '':v:'' @ str_nat version @ '':cursor:'' @ cursor_hash @ '':limit:'' @ str_int limit
      in case owner of
           None \<Rightarrow> ''jobs:list:admin'' @ rest
         | Some i \<Rightarrow> ''jobs:list:user:'' @ tl_str_uuid lib i @ rest)"

section \<open>Texts\<close>

definition opt_json :: "('a \<Rightarrow> json) \<Rightarrow> 'a option \<Rightarrow> json" where
  "opt_json f v = (case v of None \<Rightarrow> JNull | Some x \<Rightarrow> f x)"

definition encode_item :: "text_lib \<Rightarrow> job_public_dto \<Rightarrow> json" where
  "encode_item lib item = JObj
     [(''id'', JStr (tl_str_uuid lib (pub_id item))),
      (''owner_id'', JStr (tl_str_uuid lib (pub_owner_id item))),
      (''type'', JStr (JobType_value (pub_type item))),
      (''payload'', JObj (pub_payload item)),
      (''status'', JStr (JobStatus_value (pub_status item))),
      (''idempotency_key'', JStr (pub_idempotency_key item)),
      (''created_at'', JStr (tl_isoformat lib (pub_created_at item))),
      (''updated_at'', JStr (tl_isoformat lib (pub_updated_at item))),
      (''cancel_requested_at'', opt_json (\<lambda>t. JStr (tl_isoformat lib t)) (pub_cancel_requested_at item))]"

definition encode_page :: "text_lib \<Rightarrow> job_list_page_dto \<Rightarrow> string" where
  "encode_page lib page =
     dumps (JObj [(''items'', JArr (map (encode_item lib) (page_items page))),
                  (''next_cursor'', opt_json JStr (page_next_cursor page))])"

text \<open>
  The conversions of \<^verbatim>\<open>_decode_page\<close>. A value whose JSON type is not the one the encoder writes is
  reported as a \<^verbatim>\<open>TypeError\<close> (for identifiers and times, as a \<^verbatim>\<open>ValueError\<close>); for \<^verbatim>\<open>payload\<close>, \<^verbatim>\<open>idempotency_key\<close> and \<^verbatim>\<open>next_cursor\<close>, which the code takes
  over unchecked, Python fails later, when the response is validated. \<^verbatim>\<open>attempt_count\<close> is not in
  the text and takes its default 0.
\<close>

fun json_str :: "json \<Rightarrow> exn + string" where
  "json_str (JStr s) = Inr s"
| "json_str _ = Inl (TypeError ''expected a string'')"

fun json_dict :: "json \<Rightarrow> exn + json_object" where
  "json_dict (JObj kvs) = Inr kvs"
| "json_dict _ = Inl (TypeError ''expected an object'')"

fun json_opt :: "(json \<Rightarrow> exn + 'a) \<Rightarrow> json \<Rightarrow> exn + 'a option" where
  "json_opt f JNull = Inr None"
| "json_opt f j = map_sum id Some (f j)"

text \<open>What a \<^verbatim>\<open>for\<close> loop over a JSON value visits.\<close>

fun json_iter :: "json \<Rightarrow> exn + json list" where
  "json_iter (JArr xs) = Inr xs"
| "json_iter (JObj kvs) = Inr (map (JStr \<circ> fst) kvs)"
| "json_iter (JStr s) = Inr (map (\<lambda>c. JStr [c]) s)"
| "json_iter _ = Inl (TypeError ''object is not iterable'')"

definition get_field :: "string \<Rightarrow> (json \<Rightarrow> exn + 'a) \<Rightarrow> json_object \<Rightarrow> exn + 'a" where
  "get_field k conv kvs = bind_result (dict_item k kvs) conv"

definition decode_item :: "text_lib \<Rightarrow> json \<Rightarrow> exn + job_public_dto" where
  "decode_item lib j =
     bind_result (json_dict j) (\<lambda>item.
     bind_result (get_field ''id'' (or_value_error (tl_uuid lib)) item) (\<lambda>i.
     bind_result (get_field ''owner_id'' (or_value_error (tl_uuid lib)) item) (\<lambda>owner.
     bind_result (get_field ''type'' (\<lambda>v. bind_result (json_str v) JobType_of_value) item) (\<lambda>jtype.
     bind_result (get_field ''payload'' json_dict item) (\<lambda>payload.
     bind_result (get_field ''status'' (\<lambda>v. bind_result (json_str v) JobStatus_of_value) item) (\<lambda>status.
     bind_result (get_field ''idempotency_key'' json_str item) (\<lambda>key.
     bind_result (get_field ''created_at'' (or_value_error (tl_fromisoformat lib)) item) (\<lambda>created.
     bind_result (get_field ''updated_at'' (or_value_error (tl_fromisoformat lib)) item) (\<lambda>updated.
     bind_result (get_field ''cancel_requested_at'' (json_opt (or_value_error (tl_fromisoformat lib))) item) (\<lambda>cancel.
     Inr \<lparr>pub_id = i, pub_owner_id = owner, pub_type = jtype, pub_payload = payload, pub_status = status,
          pub_idempotency_key = key, pub_created_at = created, pub_updated_at = updated,
          pub_cancel_requested_at = cancel, pub_attempt_count = 0\<rparr>))))))))))"

definition decode_page :: "text_lib \<Rightarrow> string \<Rightarrow> exn + job_list_page_dto" where
  "decode_page lib payload =
     bind_result (or_value_error (tl_loads lib) payload) (\<lambda>j.
     bind_result (json_dict j) (\<lambda>decoded.
     bind_result (get_field ''items'' json_iter decoded) (\<lambda>items.
     bind_result (map_results (decode_item lib) items) (\<lambda>dtos.
     bind_result (get_field ''next_cursor'' (json_opt json_str) decoded) (\<lambda>cursor.
     Inr \<lparr>page_items = dtos, page_next_cursor = cursor\<rparr>)))))"

section \<open>Operations\<close>

definition redis_get_page ::
  "text_lib \<Rightarrow> cache_io \<Rightarrow> uuid option \<Rightarrow> string option \<Rightarrow> int \<Rightarrow> list_cache \<Rightarrow> exn + job_list_page_dto option" where
  "redis_get_page lib io owner cursor limit s =
     (if ci_first io \<noteq> Replied \<or> ci_second io \<noteq> Replied then Inr None
      else let version = get_version lib (ci_time io) owner s in
           case live_text (ci_time io) s (cache_key lib owner version cursor limit) of
             None \<Rightarrow> Inr None
           | Some payload \<Rightarrow> map_sum id Some (decode_page lib payload))"

definition redis_set_page ::
  "text_lib \<Rightarrow> settings \<Rightarrow> cache_io \<Rightarrow> uuid option \<Rightarrow> string option \<Rightarrow> int \<Rightarrow> job_list_page_dto \<Rightarrow> list_cache \<Rightarrow> list_cache" where
  "redis_set_page lib cfg io owner cursor limit page s =
     (if ci_store_first io \<noteq> Replied \<or> ci_store_second io = RaisedBefore then s
      else let version = get_version lib (ci_store_time io) owner s in
           s\<lparr>lc_pages := (lc_pages s)(cache_key lib owner version cursor limit \<mapsto>
                \<lparr>cp_text = encode_page lib page, cp_expires_at = ci_store_time io + cache_ttl_seconds cfg\<rparr>)\<rparr>)"

text \<open>\<^verbatim>\<open>INCR\<close> followed by \<^verbatim>\<open>EXPIRE\<close>.\<close>

definition bump_version :: "int \<Rightarrow> string \<Rightarrow> counters \<Rightarrow> counters" where
  "bump_version now key s =
     s(key \<mapsto> \<lparr>ct_value = (case live now s key of None \<Rightarrow> 1 | Some c \<Rightarrow> ct_value c + 1),
               ct_expires_at = now + VERSION_TTL_SECONDS\<rparr>)"

text \<open>The four commands are one transaction (\<^verbatim>\<open>MULTI\<close>/\<^verbatim>\<open>EXEC\<close>).\<close>

definition redis_invalidate_owner :: "text_lib \<Rightarrow> cache_io \<Rightarrow> uuid \<Rightarrow> list_cache \<Rightarrow> list_cache" where
  "redis_invalidate_owner lib io owner_id s =
     (if ci_first io = RaisedBefore then s
      else s\<lparr>lc_versions :=
             bump_version (ci_time io) ADMIN_LIST_VERSION_KEY
               (bump_version (ci_time io) (OWNER_LIST_VERSION_KEY (tl_str_uuid lib owner_id)) (lc_versions s))\<rparr>)"

definition RedisJobListCache :: "text_lib \<Rightarrow> settings \<Rightarrow> cache_io \<Rightarrow> list_cache job_list_cache" where
  "RedisJobListCache lib cfg io =
     \<lparr>get_page = redis_get_page lib io, set_page = redis_set_page lib cfg io,
      invalidate_owner = redis_invalidate_owner lib io\<rparr>"

section \<open>Texts read back\<close>

text \<open>
  What a stored page is read as: the entries of each payload in the order of their keys (which
  is the same dictionary), and the attempt counts gone.
\<close>

definition sorted_payload :: "json_object \<Rightarrow> json_object" where
  "sorted_payload payload = sort_key fst (map (\<lambda>kv. (fst kv, sort_keys (snd kv))) payload)"

definition served_item :: "job_public_dto \<Rightarrow> job_public_dto" where
  "served_item item = item\<lparr>pub_payload := sorted_payload (pub_payload item), pub_attempt_count := 0\<rparr>"

definition served_page :: "job_list_page_dto \<Rightarrow> job_list_page_dto" where
  "served_page page = page\<lparr>page_items := map served_item (page_items page)\<rparr>"

definition page_ok :: "job_list_page_dto \<Rightarrow> bool" where
  "page_ok page \<longleftrightarrow> list_all (\<lambda>item. distinct_keys (JObj (pub_payload item))) (page_items page)"

lemma map_of_sorted:
  assumes "distinct (map fst kvs)"
  shows "map_of (sort_key fst (map (\<lambda>kv. (fst kv, f (snd kv))) kvs)) k = map_option f (map_of kvs k)"
proof -
  let ?m = "map (\<lambda>kv. (fst kv, f (snd kv))) kvs"
  have dist: "distinct (map fst ?m)" using assms by (simp add: comp_def)
  moreover have "mset (map fst (sort_key fst ?m)) = mset (map fst ?m)" by (simp only: mset_map mset_sort)
  ultimately have "distinct (map fst (sort_key fst ?m))" using mset_eq_imp_distinct_iff by blast
  with dist have "map_of (sort_key fst ?m) = map_of ?m"
    by (subst map_of_inject_set) simp_all
  moreover have "map_of ?m k = map_option f (map_of kvs k)" by (induction kvs) auto
  ultimately show ?thesis by simp
qed

lemma sort_keys_opt: "(\<And>x. sort_keys (f x) = f x) \<Longrightarrow> sort_keys (opt_json f v) = opt_json f v"
  by (simp add: opt_json_def split: option.split)

lemma decode_encode_item:
  assumes lib: "text_lib_ok lib"
  shows "decode_item lib (sort_keys (encode_item lib item)) = Inr (served_item item)"
proof -
  have dec: "or_value_error (tl_uuid lib) (JStr (tl_str_uuid lib i)) = Inr i"
    "or_value_error (tl_fromisoformat lib) (JStr (tl_isoformat lib t)) = Inr t" for i t
    using lib by (simp_all add: text_lib_ok_def or_value_error_def)
  have opt: "json_opt (or_value_error (tl_fromisoformat lib)) (opt_json (\<lambda>t. JStr (tl_isoformat lib t)) v) = Inr v" for v
    by (cases v) (simp_all add: opt_json_def dec)
  show ?thesis
    unfolding encode_item_def sort_keys.simps decode_item_def json_dict.simps bind_result.simps get_field_def dict_item_def
    by (subst map_of_sorted, simp)+
      (simp add: dec opt sort_keys_opt served_item_def sorted_payload_def)
qed

lemma distinct_keys_opt: "(\<And>x. distinct_keys (f x)) \<Longrightarrow> distinct_keys (opt_json f v)"
  by (simp add: opt_json_def split: option.split)

lemma decode_encode_page:
  assumes lib: "text_lib_ok lib" and page: "page_ok page"
  shows "decode_page lib (encode_page lib page) = Inr (served_page page)"
proof -
  let ?j = "JObj [(''items'', JArr (map (encode_item lib) (page_items page))), (''next_cursor'', opt_json JStr (page_next_cursor page))]"
  have "distinct_keys (encode_item lib item)" if "item \<in> set (page_items page)" for item
    using page that by (auto simp: encode_item_def page_ok_def list_all_iff distinct_keys_opt)
  then have "distinct_keys ?j" by (auto simp: list_all_iff distinct_keys_opt)
  then have loads: "or_value_error (tl_loads lib) (encode_page lib page) = Inr (sort_keys ?j)"
    using lib by (simp add: text_lib_ok_def or_value_error_def encode_page_def)
  have items: "map_results (decode_item lib) (map (\<lambda>item. sort_keys (encode_item lib item)) xs) = Inr (map served_item xs)" for xs
    by (induction xs) (simp_all add: decode_encode_item [OF lib])
  have cursor: "json_opt json_str (opt_json JStr v) = Inr v" for v
    by (cases v) (simp_all add: opt_json_def)
  show ?thesis
    unfolding decode_page_def loads bind_result.simps sort_keys.simps json_dict.simps get_field_def dict_item_def
    by (subst map_of_sorted, simp)+ (simp add: comp_def items cursor sort_keys_opt served_page_def)
qed

lemma sorted_payload_idem: "sorted_payload (sorted_payload p) = sorted_payload p"
  using sort_keys_idem [of "JObj p"] by (simp add: sorted_payload_def)

lemma served_page_idem [simp]: "served_page (served_page page) = served_page page"
  by (simp add: served_page_def served_item_def sorted_payload_idem comp_def)

section \<open>Keys tell pages apart\<close>

text \<open>The texts of UUIDs and the digests contain no colon.\<close>

definition key_parts_ok :: "text_lib \<Rightarrow> bool" where
  "key_parts_ok lib \<longleftrightarrow> (\<forall>i. CHR '':'' \<notin> set (tl_str_uuid lib i)) \<and> (\<forall>c. CHR '':'' \<notin> set (tl_sha256 lib c))"

lemma colon_free_prefix:
  assumes "xs @ CHR '':'' # ys = xs' @ CHR '':'' # ys'" and "CHR '':'' \<notin> set xs" and "CHR '':'' \<notin> set xs'"
  shows "xs = xs' \<and> ys = ys'"
  using assms by (induction xs arbitrary: xs') (auto simp: Cons_eq_append_conv append_eq_Cons_conv)

lemma str_nat_no_colon: "CHR '':'' \<notin> set (str_nat n)"
  using str_nat_digits [of n] by (auto simp: list_all_iff is_digit_def)

lemma str_nat_inj: "str_nat m = str_nat n \<Longrightarrow> m = n"
  by (metis nat_of_str_nat)

lemma str_int_inj: "str_int m = str_int n \<Longrightarrow> m = n"
  using read_number_str_int [of "[]" m] read_number_str_int [of "[]" n] by (simp add: ends_number_def)

lemma cache_key_eqD:
  assumes parts: "key_parts_ok lib" and lib: "text_lib_ok lib"
    and eq: "cache_key lib owner v cursor limit = cache_key lib owner' v' cursor' limit'"
  shows "owner = owner' \<and> v = v' \<and> tl_sha256 lib (cursor_text cursor) = tl_sha256 lib (cursor_text cursor') \<and> limit = limit'"
proof -
  let ?rest = "\<lambda>v c l. ''v:'' @ str_nat v @ '':cursor:'' @ tl_sha256 lib (cursor_text c) @ '':limit:'' @ str_int l"
  have inj: "tl_str_uuid lib i = tl_str_uuid lib j \<Longrightarrow> i = j" for i j
    using lib by (metis option.inject text_lib_ok_def)
  have same: "v = v' \<and> tl_sha256 lib (cursor_text cursor) = tl_sha256 lib (cursor_text cursor') \<and> limit = limit'"
    if "?rest v cursor limit = ?rest v' cursor' limit'"
  proof -
    from that have "str_nat v @ CHR '':'' # ''cursor:'' @ tl_sha256 lib (cursor_text cursor) @ '':limit:'' @ str_int limit =
        str_nat v' @ CHR '':'' # ''cursor:'' @ tl_sha256 lib (cursor_text cursor') @ '':limit:'' @ str_int limit'" by simp
    from colon_free_prefix [OF this str_nat_no_colon str_nat_no_colon] have v: "v = v'"
      and "tl_sha256 lib (cursor_text cursor) @ CHR '':'' # ''limit:'' @ str_int limit =
        tl_sha256 lib (cursor_text cursor') @ CHR '':'' # ''limit:'' @ str_int limit'" by (auto dest: str_nat_inj)
    from v colon_free_prefix [OF this(2)] parts show ?thesis by (auto simp: key_parts_ok_def dest: str_int_inj)
  qed
  show ?thesis
  proof (cases owner; cases owner')
    fix i j assume o: "owner = Some i" "owner' = Some j"
    with eq have "tl_str_uuid lib i @ CHR '':'' # ?rest v cursor limit = tl_str_uuid lib j @ CHR '':'' # ?rest v' cursor' limit'"
      by (simp add: cache_key_def Let_def)
    from colon_free_prefix [OF this] parts have "i = j" "?rest v cursor limit = ?rest v' cursor' limit'"
      by (auto simp: key_parts_ok_def dest: inj)
    with o same show ?thesis by simp
  qed (use eq same in \<open>simp_all add: cache_key_def Let_def\<close>)
qed

section \<open>The cache agrees with the database\<close>

text \<open>What a listing answers without a cache.\<close>

definition db_answer :: "text_lib \<Rightarrow> current_user_dto \<Rightarrow> string option \<Rightarrow> int option \<Rightarrow> database \<Rightarrow> exn + job_list_page_dto" where
  "db_answer lib user cursor limit db = fst (list_jobs lib NoOpJobListCache id user cursor limit db ())"

definition payloads_ok :: "database \<Rightarrow> bool" where
  "payloads_ok db \<longleftrightarrow> list_all (\<lambda>r. distinct_keys (JObj (job_payload r))) (db_jobs db)"

text \<open>
  For the cursors in \<open>K\<close> and at time \<open>t\<close>: a page that is found is the one the database gives, and
  no page is stored under a version that is still to come.
\<close>

definition cache_ok :: "text_lib \<Rightarrow> string option set \<Rightarrow> int \<Rightarrow> database \<Rightarrow> list_cache \<Rightarrow> bool" where
  "cache_ok lib K t db s \<longleftrightarrow>
     (\<forall>user. \<forall>cursor \<in> K. \<forall>limit. redis_get_page lib (cache_answers t) (list_scope user) cursor (normalize_limit limit) s
        \<in> {Inr None, map_sum id (Some \<circ> served_page) (db_answer lib user cursor limit db)}) \<and>
     (\<forall>scope v cursor n. live_text t s (cache_key lib scope v cursor n) \<noteq> None \<longrightarrow> v \<le> get_version lib t scope s)"

lemma cache_ok_page:
  "cache_ok lib K t db s \<Longrightarrow> cursor \<in> K \<Longrightarrow> redis_get_page lib (cache_answers t) (list_scope user) cursor (normalize_limit limit) s
     \<in> {Inr None, map_sum id (Some \<circ> served_page) (db_answer lib user cursor limit db)}"
  unfolding cache_ok_def by blast

lemma cache_ok_version:
  "cache_ok lib K t db s \<Longrightarrow> live_text t s (cache_key lib scope v cursor n) \<noteq> None \<Longrightarrow> v \<le> get_version lib t scope s"
  unfolding cache_ok_def by blast

lemma normalize_limit_idem [simp]: "normalize_limit (Some (normalize_limit l)) = normalize_limit l"
  by (auto simp: normalize_limit_def MAX_LIST_LIMIT_def DEFAULT_LIST_LIMIT_def split: option.split)

lemma db_answer_eq:
  "db_answer lib user cursor limit db =
     (case (case cursor of None \<Rightarrow> Inr None | Some c \<Rightarrow> map_sum id Some (decode_cursor lib c)) of
        Inl x \<Rightarrow> Inl x
      | Inr c \<Rightarrow> Inr (build_job_list_page lib
          (map to_stored_job_dto (keyset_page (may_access user) c (normalize_limit limit + 1) db)) (normalize_limit limit)))"
  unfolding db_answer_def list_jobs_def Let_def NoOpJobListCache_def scoped_rows by (simp split: sum.split)

lemma list_jobs_cached:
  "list_jobs lib cache between user cursor limit db s =
     (case get_page cache (list_scope user) cursor (normalize_limit limit) s of
        Inl x \<Rightarrow> (Inl x, s)
      | Inr (Some page) \<Rightarrow> (Inr page, s)
      | Inr None \<Rightarrow>
          (case db_answer lib user cursor limit db of
             Inl x \<Rightarrow> (Inl x, s)
           | Inr page \<Rightarrow> (Inr page, set_page cache (list_scope user) cursor (normalize_limit limit) page (between s))))"
  unfolding db_answer_eq list_jobs_def Let_def scoped_rows by (simp split: sum.split option.split)

lemma fst_list_jobs:
  "fst (list_jobs lib cache between user cursor limit db s) =
     (case get_page cache (list_scope user) cursor (normalize_limit limit) s of
        Inl x \<Rightarrow> Inl x | Inr (Some page) \<Rightarrow> Inr page | Inr None \<Rightarrow> db_answer lib user cursor limit db)"
  by (simp add: list_jobs_cached split: sum.split option.split)

lemma db_answer_cong:
  assumes "list_scope user = list_scope user'" and "normalize_limit limit = normalize_limit limit'"
  shows "db_answer lib user cursor limit db = db_answer lib user' cursor limit' db"
proof -
  have "may_access user = may_access user'"
    using assms(1) by (auto simp: list_scope_def may_access_def fun_eq_iff split: if_splits)
  with assms(2) show ?thesis unfolding db_answer_eq by (simp only:)
qed

lemma keyset_page_subset: "set (keyset_page p c m db) \<subseteq> set (db_jobs db)"
  using set_take_subset by (fastforce simp: keyset_page_def select_where_def)

lemma db_answer_page_ok:
  assumes "payloads_ok db" and "db_answer lib user cursor limit db = Inr page"
  shows "page_ok page"
proof -
  obtain c m where page: "page = build_job_list_page lib (map to_stored_job_dto (keyset_page (may_access user) c m db)) (normalize_limit limit)"
    using assms(2) by (auto simp: db_answer_eq split: sum.splits)
  have "distinct_keys (JObj (pub_payload item))" if "item \<in> set (page_items page)" for item
  proof -
    from that obtain r where "r \<in> set (keyset_page (may_access user) c m db)" "item = to_job_public_dto (to_stored_job_dto r)"
      by (auto simp: page build_job_list_page_def Let_def take_map dest: in_set_takeD)
    with assms(1) keyset_page_subset show ?thesis
      by (fastforce simp: payloads_ok_def list_all_iff to_job_public_dto_def to_stored_job_dto_def)
  qed
  then show ?thesis by (simp add: page_ok_def list_all_iff)
qed

text \<open>A page just stored is found, as long as it is younger than \<^verbatim>\<open>CACHE_TTL_SECONDS\<close>.\<close>

lemma get_version_set_page [simp]: "get_version lib t scope (redis_set_page lib cfg io sc c n page s) = get_version lib t scope s"
  by (simp add: get_version_def redis_set_page_def Let_def)

lemma live_text_set_page:
  assumes "ci_store_first io = Replied" and "ci_store_second io \<noteq> RaisedBefore"
  shows "live_text t (redis_set_page lib cfg io scope cursor n page s) k =
    (if k = cache_key lib scope (get_version lib (ci_store_time io) scope s) cursor n
     then (if t < ci_store_time io + cache_ttl_seconds cfg then Some (encode_page lib page) else None)
     else live_text t s k)"
  using assms by (simp add: redis_set_page_def Let_def live_text_def)

lemma set_page_idle: "ci_store_first io \<noteq> Replied \<or> ci_store_second io = RaisedBefore \<Longrightarrow> redis_set_page lib cfg io scope cursor n page s = s"
  by (simp add: redis_set_page_def)

lemma get_page_answers:
  "redis_get_page lib (cache_answers t) scope cursor n s =
     (case live_text t s (cache_key lib scope (get_version lib t scope s) cursor n) of
        None \<Rightarrow> Inr None | Some payload \<Rightarrow> map_sum id Some (decode_page lib payload))"
  by (simp add: redis_get_page_def cache_answers_def Let_def)

lemma get_page_io: "redis_get_page lib io scope cursor n s \<in> {Inr None, redis_get_page lib (cache_answers (ci_time io)) scope cursor n s}"
  by (simp add: redis_get_page_def cache_answers_def)

lemma cache_ok_set_page:
  assumes lib: "text_lib_ok lib" and parts: "key_parts_ok lib" and inj: "inj_on (\<lambda>c. tl_sha256 lib (cursor_text c)) K"
    and cursor: "cursor \<in> K" and db: "payloads_ok db" and ok: "cache_ok lib K (ci_store_time io) db s"
    and page: "db_answer lib user cursor limit db = Inr page"
  shows "cache_ok lib K (ci_store_time io) db (redis_set_page lib cfg io (list_scope user) cursor (normalize_limit limit) page s)"
proof (cases "ci_store_first io = Replied \<and> ci_store_second io \<noteq> RaisedBefore")
  case True
  let ?t = "ci_store_time io" and ?s = "redis_set_page lib cfg io (list_scope user) cursor (normalize_limit limit) page s"
  note live = live_text_set_page [of io ?t lib cfg "list_scope user" cursor "normalize_limit limit" page s] True
  note decoded = decode_encode_page [OF lib db_answer_page_ok [OF db page]]
  have "redis_get_page lib (cache_answers ?t) (list_scope user') cursor' (normalize_limit limit') ?s
      \<in> {Inr None, map_sum id (Some \<circ> served_page) (db_answer lib user' cursor' limit' db)}" if "cursor' \<in> K" for user' cursor' limit'
  proof (cases "cache_key lib (list_scope user') (get_version lib ?t (list_scope user') s) cursor' (normalize_limit limit') =
      cache_key lib (list_scope user) (get_version lib ?t (list_scope user) s) cursor (normalize_limit limit)")
    case True
    from cache_key_eqD [OF parts lib True] have "list_scope user' = list_scope user" "normalize_limit limit' = normalize_limit limit"
      "cursor' = cursor" using inj_onD [OF inj] cursor that by auto
    then have "db_answer lib user' cursor' limit' db = Inr page" using db_answer_cong page by metis
    with True live decoded show ?thesis by (simp add: get_page_answers)
  next
    case False
    then have "redis_get_page lib (cache_answers ?t) (list_scope user') cursor' (normalize_limit limit') ?s =
        redis_get_page lib (cache_answers ?t) (list_scope user') cursor' (normalize_limit limit') s"
      using live by (simp add: get_page_answers)
    with cache_ok_page [OF ok that] show ?thesis by (simp only:)
  qed
  moreover have "v \<le> get_version lib ?t scope ?s" if "live_text ?t ?s (cache_key lib scope v c n) \<noteq> None" for scope v c n
  proof (cases "cache_key lib scope v c n = cache_key lib (list_scope user) (get_version lib ?t (list_scope user) s) cursor (normalize_limit limit)")
    case True
    from cache_key_eqD [OF parts lib True] show ?thesis by simp
  next
    case False
    with that live have "live_text ?t s (cache_key lib scope v c n) \<noteq> None" by simp
    with ok show ?thesis unfolding get_version_set_page by (rule cache_ok_version)
  qed
  ultimately show ?thesis unfolding cache_ok_def by blast
qed (use ok in \<open>simp add: set_page_idle\<close>)

text \<open>Invalidation: the pages of the owner and of the administrators are no longer found.\<close>

lemma version_keys_differ [simp]: "ADMIN_LIST_VERSION_KEY \<noteq> OWNER_LIST_VERSION_KEY o1"
  "OWNER_LIST_VERSION_KEY o1 \<noteq> ADMIN_LIST_VERSION_KEY"
  by (simp_all add: ADMIN_LIST_VERSION_KEY_def OWNER_LIST_VERSION_KEY_def)

lemma live_bump_version:
  "live t (bump_version t k s) k' =
     (if k' = k then Some \<lparr>ct_value = (case live t s k of None \<Rightarrow> 1 | Some c \<Rightarrow> ct_value c + 1), ct_expires_at = t + VERSION_TTL_SECONDS\<rparr>
      else live t s k')"
  by (simp add: live_def bump_version_def VERSION_TTL_SECONDS_def)

lemma get_version_invalidate:
  assumes "text_lib_ok lib"
  shows "get_version lib t scope (redis_invalidate_owner lib (cache_answers t) owner s) =
    (if scope = None \<or> scope = Some owner then Suc (get_version lib t scope s) else get_version lib t scope s)"
proof -
  have inj: "tl_str_uuid lib i = tl_str_uuid lib j \<longleftrightarrow> i = j" for i j
    using assms by (metis option.inject text_lib_ok_def)
  show ?thesis
    by (cases scope) (auto simp: get_version_def version_key_def redis_invalidate_owner_def cache_answers_def live_bump_version
        OWNER_LIST_VERSION_KEY_def ADMIN_LIST_VERSION_KEY_def inj split: option.split)
qed

lemma live_text_invalidate [simp]: "live_text t (redis_invalidate_owner lib io owner s) k = live_text t s k"
  by (simp add: live_text_def redis_invalidate_owner_def)

definition others_unchanged :: "uuid \<Rightarrow> database \<Rightarrow> database \<Rightarrow> bool" where
  "others_unchanged owner db db' \<longleftrightarrow>
     filter (\<lambda>r. job_owner_id r \<noteq> owner) (db_jobs db') = filter (\<lambda>r. job_owner_id r \<noteq> owner) (db_jobs db)"

lemma db_answer_others:
  assumes "others_unchanged owner db db'" and "list_scope user \<noteq> None" and "list_scope user \<noteq> Some owner"
  shows "db_answer lib user cursor limit db' = db_answer lib user cursor limit db"
proof -
  have acc: "may_access user r \<longleftrightarrow> job_owner_id r = cu_id user" "cu_id user \<noteq> owner" for r
    using assms(2,3) by (auto simp: list_scope_def may_access_def split: if_splits)
  have sub: "filter (\<lambda>r. may_access user r \<and> q r) (db_jobs d) =
      filter (\<lambda>r. may_access user r \<and> q r) (filter (\<lambda>r. job_owner_id r \<noteq> owner) (db_jobs d))" for q d
    using acc(2) by (auto simp: acc(1) intro!: filter_cong)
  have "filter (\<lambda>r. may_access user r \<and> q r) (db_jobs db') = filter (\<lambda>r. may_access user r \<and> q r) (db_jobs db)" for q
    unfolding sub [of q db'] sub [of q db] using assms(1) by (simp only: others_unchanged_def)
  then have "keyset_page (may_access user) c m db' = keyset_page (may_access user) c m db" for c m
    by (simp only: keyset_page_def select_where_def)
  then show ?thesis unfolding db_answer_eq by (simp only:)
qed

lemma cache_ok_invalidate:
  assumes lib: "text_lib_ok lib" and ok: "cache_ok lib K t db s" and others: "others_unchanged owner db db'"
  shows "cache_ok lib K t db' (redis_invalidate_owner lib (cache_answers t) owner s)"
proof -
  let ?s = "redis_invalidate_owner lib (cache_answers t) owner s"
  note version = get_version_invalidate [OF lib, of t _ owner s]
  have "redis_get_page lib (cache_answers t) (list_scope user) cursor (normalize_limit limit) ?s
      \<in> {Inr None, map_sum id (Some \<circ> served_page) (db_answer lib user cursor limit db')}" if "cursor \<in> K" for user cursor limit
  proof (cases "list_scope user = None \<or> list_scope user = Some owner")
    case True
    then have "live_text t s (cache_key lib (list_scope user) (Suc (get_version lib t (list_scope user) s)) cursor (normalize_limit limit)) = None"
      using cache_ok_version [OF ok] by fastforce
    with True show ?thesis by (simp add: get_page_answers version)
  next
    case False
    then have "redis_get_page lib (cache_answers t) (list_scope user) cursor (normalize_limit limit) ?s =
        redis_get_page lib (cache_answers t) (list_scope user) cursor (normalize_limit limit) s"
      by (auto simp: get_page_answers version)
    moreover have "db_answer lib user cursor limit db' = db_answer lib user cursor limit db"
      using db_answer_others [OF others] False by blast
    moreover have "redis_get_page lib (cache_answers t) (list_scope user) cursor (normalize_limit limit) s
        \<in> {Inr None, map_sum id (Some \<circ> served_page) (db_answer lib user cursor limit db)}"
      using ok that by (rule cache_ok_page)
    ultimately show ?thesis by simp
  qed
  moreover have "v \<le> get_version lib t scope ?s" if "live_text t ?s (cache_key lib scope v c n) \<noteq> None" for scope v c n
    using cache_ok_version [OF ok, of scope v c n] that by (simp add: version)
  ultimately show ?thesis unfolding cache_ok_def by blast
qed

lemma cache_ok_later_kept:
  assumes ok: "cache_ok lib K t db s" and later: "t \<le> t'"
    and kept: "\<And>k c. lc_versions s k = Some c \<Longrightarrow> t < ct_expires_at c \<Longrightarrow> t' < ct_expires_at c"
  shows "cache_ok lib K t' db s"
proof -
  have "live t' (lc_versions s) k = live t (lc_versions s) k" for k
    using later kept by (auto simp: live_def split: option.split)
  then have version: "get_version lib t' scope s = get_version lib t scope s" for scope by (simp add: get_version_def)
  have shrink: "live_text t' s k \<in> {None, live_text t s k}" for k
    using later by (auto simp: live_text_def split: option.split)
  have page: "redis_get_page lib (cache_answers t') scope c n s \<in> {Inr None, redis_get_page lib (cache_answers t) scope c n s}" for scope c n
    using shrink [of "cache_key lib scope (get_version lib t scope s) c n"] by (auto simp: get_page_answers version split: option.split)
  have "v \<le> get_version lib t' scope s" if "live_text t' s (cache_key lib scope v c n) \<noteq> None" for scope v c n
    using that shrink [of "cache_key lib scope v c n"] unfolding version by (intro cache_ok_version [OF ok]) auto
  moreover have "redis_get_page lib (cache_answers t') (list_scope user) cursor (normalize_limit limit) s
      \<in> {Inr None, map_sum id (Some \<circ> served_page) (db_answer lib user cursor limit db)}" if "cursor \<in> K" for user cursor limit
    using cache_ok_page [OF ok that, of user limit] page [of "list_scope user" cursor "normalize_limit limit"] by auto
  ultimately show ?thesis unfolding cache_ok_def by blast
qed

text \<open>Time may also pass until every page has expired; then the counters may run out.\<close>

lemma cache_ok_no_pages: "(\<And>k. live_text t s k = None) \<Longrightarrow> cache_ok lib K t db s"
  by (simp add: cache_ok_def get_page_answers)

definition versions_outlive_pages :: "int \<Rightarrow> int \<Rightarrow> list_cache \<Rightarrow> bool" where
  "versions_outlive_pages t t' s \<longleftrightarrow>
     (\<forall>k c. lc_versions s k = Some c \<longrightarrow> t < ct_expires_at c \<longrightarrow> t' < ct_expires_at c) \<or> (\<forall>k. live_text t' s k = None)"

lemma cache_ok_later:
  assumes "cache_ok lib K t db s" and "t \<le> t'" and "versions_outlive_pages t t' s"
  shows "cache_ok lib K t' db s"
  using assms(3) cache_ok_later_kept [OF assms(1,2)] cache_ok_no_pages [of t' s] unfolding versions_outlive_pages_def by blast

lemma cache_ok_empty: "cache_ok lib K t db \<lparr>lc_versions = Map.empty, lc_pages = Map.empty\<rparr>"
  by (simp add: cache_ok_def get_page_answers live_text_def)

section \<open>The contract of a page cache\<close>

text \<open>
  What \<open>list_jobs\<close> relies on: in a state that is \<open>ok\<close> for a database a lookup misses or finds what the
  database answers, and storing what the database answers keeps the state \<open>ok\<close>. Then a listing
  answers as without a cache.
\<close>

locale page_cache =
  fixes lib :: text_lib and cache :: "'c job_list_cache" and K :: "string option set" and ok :: "database \<Rightarrow> 'c \<Rightarrow> bool"
  assumes get_ok: "ok db s \<Longrightarrow> cursor \<in> K \<Longrightarrow> get_page cache (list_scope user) cursor (normalize_limit limit) s
      \<in> {Inr None, map_sum id (Some \<circ> served_page) (db_answer lib user cursor limit db)}"
    and set_ok: "ok db s \<Longrightarrow> payloads_ok db \<Longrightarrow> cursor \<in> K \<Longrightarrow> db_answer lib user cursor limit db = Inr page \<Longrightarrow>
      ok db (set_page cache (list_scope user) cursor (normalize_limit limit) page s)"
begin

lemma listing_agrees:
  assumes ok: "ok db s" and db: "payloads_ok db" and cursor: "cursor \<in> K"
    and call: "list_jobs lib cache id user cursor limit db s = (res, s')"
  shows "map_sum id served_page res = map_sum id served_page (db_answer lib user cursor limit db) \<and> ok db s'"
proof -
  from get_ok [OF ok cursor, of user limit]
  consider "get_page cache (list_scope user) cursor (normalize_limit limit) s = Inr None"
    | "get_page cache (list_scope user) cursor (normalize_limit limit) s = map_sum id (Some \<circ> served_page) (db_answer lib user cursor limit db)"
    by blast
  then show ?thesis
  proof cases
    case 1
    then show ?thesis using call ok set_ok [OF ok db cursor, of user limit]
      by (auto simp: list_jobs_cached split: sum.splits)
  next
    case 2
    then show ?thesis using call ok
      by (cases "db_answer lib user cursor limit db") (auto simp: list_jobs_cached)
  qed
qed

end

interpretation noop_pages: page_cache lib NoOpJobListCache UNIV "\<lambda>_ _. True" for lib
  by unfold_locales (simp_all add: NoOpJobListCache_def)

text \<open>The cursors the Redis cache can keep apart, when the texts its keys are made of allow it.\<close>

definition usable_cursors :: "text_lib \<Rightarrow> string option set \<Rightarrow> string option set" where
  "usable_cursors lib K =
     (if text_lib_ok lib \<and> key_parts_ok lib \<and> inj_on (\<lambda>c. tl_sha256 lib (cursor_text c)) K then K else {})"

interpretation redis_pages: page_cache lib "RedisJobListCache lib cfg (at_once io)" "usable_cursors lib K"
    "cache_ok lib (usable_cursors lib K) (ci_time io)" for lib cfg io K
proof unfold_locales
  fix db s cursor user limit
  assume "cache_ok lib (usable_cursors lib K) (ci_time io) db s" and "cursor \<in> usable_cursors lib K"
  from cache_ok_page [OF this, of user limit] get_page_io [of lib "at_once io" "list_scope user" cursor "normalize_limit limit" s]
  show "get_page (RedisJobListCache lib cfg (at_once io)) (list_scope user) cursor (normalize_limit limit) s
      \<in> {Inr None, map_sum id (Some \<circ> served_page) (db_answer lib user cursor limit db)}"
    by (auto simp: RedisJobListCache_def)
next
  fix db s cursor user limit page
  assume "cache_ok lib (usable_cursors lib K) (ci_time io) db s" and "payloads_ok db" and "cursor \<in> usable_cursors lib K"
    and "db_answer lib user cursor limit db = Inr page"
  then show "cache_ok lib (usable_cursors lib K) (ci_time io) db
      (set_page (RedisJobListCache lib cfg (at_once io)) (list_scope user) cursor (normalize_limit limit) page s)"
    using cache_ok_set_page [of lib K cursor db "at_once io" s user limit page cfg]
    unfolding usable_cursors_def by (auto simp: RedisJobListCache_def split: if_splits)
qed

section \<open>Histories\<close>

text \<open>
  A database, the server's time and the cache. Listings may meet any failure of Redis, and nothing
  else happens between their database read and their store; a change of one owner's jobs is
  followed by its invalidation, which Redis answers, before anything else uses the cache; time passes
  in any amount, except that no version counter runs out while a page is still alive (a counter
  lives for seven days after the last invalidation, a page for \<^verbatim>\<open>CACHE_TTL_SECONDS\<close>; \<open>version_reuse\<close>
  below shows why it matters).
\<close>

inductive cache_step ::
  "text_lib \<Rightarrow> settings \<Rightarrow> string option set \<Rightarrow> database \<times> int \<times> list_cache \<Rightarrow> database \<times> int \<times> list_cache \<Rightarrow> bool"
  for lib cfg K where
  listed: "cursor \<in> K \<Longrightarrow> ci_time io = t \<Longrightarrow>
     list_jobs lib (RedisJobListCache lib cfg (at_once io)) id user cursor limit db s = (res, s') \<Longrightarrow>
     cache_step lib cfg K (db, t, s) (db, t, s')"
| changed: "others_unchanged owner db db' \<Longrightarrow> payloads_ok db' \<Longrightarrow>
     cache_step lib cfg K (db, t, s) (db', t, redis_invalidate_owner lib (cache_answers t) owner s)"
| waited: "t \<le> t' \<Longrightarrow> versions_outlive_pages t t' s \<Longrightarrow>
     cache_step lib cfg K (db, t, s) (db, t', s)"

inductive_cases cache_step_cases: "cache_step lib cfg K (db, t, s) (db', t', s')"

lemma list_jobs_cache_ok:
  assumes lib: "text_lib_ok lib" and parts: "key_parts_ok lib" and inj: "inj_on (\<lambda>c. tl_sha256 lib (cursor_text c)) K"
    and cursor: "cursor \<in> K" and db: "payloads_ok db" and ok: "cache_ok lib K (ci_time io) db s"
    and call: "list_jobs lib (RedisJobListCache lib cfg (at_once io)) id user cursor limit db s = (res, s')"
  shows "map_sum id served_page res = map_sum id served_page (db_answer lib user cursor limit db) \<and>
    cache_ok lib K (ci_time io) db s'"
proof -
  have "usable_cursors lib K = K" using lib parts inj by (simp add: usable_cursors_def)
  then show ?thesis using redis_pages.listing_agrees [OF _ db _ call, of K] ok cursor by simp
qed

lemma cache_run_ok:
  assumes lib: "text_lib_ok lib" and parts: "key_parts_ok lib" and inj: "inj_on (\<lambda>c. tl_sha256 lib (cursor_text c)) K"
    and run: "(cache_step lib cfg K)\<^sup>*\<^sup>* (db, t, s) (db', t', s')" and db: "payloads_ok db" and ok: "cache_ok lib K t db s"
  shows "payloads_ok db' \<and> cache_ok lib K t' db' s'"
  using run
proof (induction "(db', t', s')" arbitrary: db' t' s' rule: rtranclp_induct)
  case base
  then show ?case using db ok by simp
next
  case (step y)
  obtain db1 t1 s1 where y: "y = (db1, t1, s1)" by (cases y) auto
  with step.hyps have ih: "payloads_ok db1" "cache_ok lib K t1 db1 s1" by auto
  from step.hyps(2) [unfolded y] show ?case
    using ih list_jobs_cache_ok [OF lib parts inj _ ih(1)] cache_ok_invalidate [OF lib ih(2)] cache_ok_later [OF ih(2)]
    by (elim cache_step_cases) blast+
qed

section \<open>Where the cache does not agree\<close>

text \<open>A page stored is served, also when it was computed before the version it is stored under.\<close>

lemma stored_page_served:
  assumes lib: "text_lib_ok lib" and page: "page_ok page" and ttl: "t < t0 + cache_ttl_seconds cfg"
    and version: "get_version lib t (list_scope user) s = get_version lib t0 (list_scope user) s"
  shows "redis_get_page lib (cache_answers t) (list_scope user) cursor n
      (redis_set_page lib cfg (cache_answers t0) (list_scope user) cursor n page s) = Inr (Some (served_page page))"
proof -
  have "ci_store_first (cache_answers t0) = Replied" "ci_store_second (cache_answers t0) \<noteq> RaisedBefore" by (simp_all add: cache_answers_def)
  from live_text_set_page [OF this] show ?thesis
    using ttl version decode_encode_page [OF lib page] by (simp add: get_page_answers) (simp add: cache_answers_def)
qed

lemma stored_page_listed:
  assumes "redis_get_page lib (cache_answers t) (list_scope user) cursor (normalize_limit limit) s = Inr (Some page)"
  shows "list_jobs lib (RedisJobListCache lib cfg (cache_answers t)) between user cursor limit db s = (Inr page, s)"
  using assms by (simp add: list_jobs_cached RedisJobListCache_def)

lemma missed_page_stored:
  assumes "redis_get_page lib (cache_answers t) (list_scope user) cursor (normalize_limit limit) s = Inr None"
    and "db_answer lib user cursor limit db = Inr page"
  shows "list_jobs lib (RedisJobListCache lib cfg (cache_answers t)) between user cursor limit db s =
    (Inr page, redis_set_page lib cfg (cache_answers t) (list_scope user) cursor (normalize_limit limit) page (between s))"
  using assms by (simp add: list_jobs_cached RedisJobListCache_def)

text \<open>
  A version counter that runs out starts again: a page stored shortly before under version 1 is
  found again after the next invalidation.
\<close>

lemma version_reuse:
  assumes lib: "text_lib_ok lib" and page: "page_ok page" and scope: "list_scope user = Some owner"
    and counter: "lc_versions s (version_key lib (Some owner)) = Some \<lparr>ct_value = 1, ct_expires_at = t1\<rparr>"
    and times: "t0 < t1" "t1 \<le> t" "t < t0 + cache_ttl_seconds cfg"
  shows "redis_get_page lib (cache_answers t) (list_scope user) cursor n
      (redis_invalidate_owner lib (cache_answers t) owner
        (redis_set_page lib cfg (cache_answers t0) (list_scope user) cursor n page s)) = Inr (Some (served_page page))"
proof -
  have "get_version lib t0 (Some owner) s = 1" "get_version lib t (Some owner) s = 0"
    using counter times by (simp_all add: get_version_def live_def)
  moreover have "ci_store_first (cache_answers t0) = Replied" "ci_store_second (cache_answers t0) \<noteq> RaisedBefore" "ci_store_time (cache_answers t0) = t0"
    by (simp_all add: cache_answers_def)
  ultimately show ?thesis
    using times decode_encode_page [OF lib page] live_text_set_page [of "cache_answers t0" t lib cfg "Some owner" cursor n page s]
    by (simp add: scope get_page_answers get_version_invalidate [OF lib])
qed

section \<open>How old a page can be\<close>

text \<open>
  Without any restriction on the order of events: a listing is a lookup, a read of the database and, some
  time later, a store, and other clients may read, store and invalidate in between; an
  invalidation may fail, counters may run out, the database may change at any time. \<open>past\<close> collects
  the answers the database gave: when, to which scope, cursor and limit. \<open>delay\<close> bounds the time that
  a request takes from its read to its store.
\<close>

type_synonym answer_log = "(int \<times> uuid option \<times> string option \<times> int \<times> job_list_page_dto) set"

inductive cache_any_step ::
  "text_lib \<Rightarrow> settings \<Rightarrow> int \<Rightarrow> int \<times> list_cache \<times> answer_log \<Rightarrow> int \<times> list_cache \<times> answer_log \<Rightarrow> bool"
  for lib cfg delay where
  read: "payloads_ok db \<Longrightarrow> db_answer lib user cursor limit db = Inr page \<Longrightarrow>
     cache_any_step lib cfg delay (t, s, past) (t, s, insert (t, list_scope user, cursor, normalize_limit limit, page) past)"
| stored: "(t0, scope, cursor, n, page) \<in> past \<Longrightarrow> t0 \<le> t \<Longrightarrow> t \<le> t0 + delay \<Longrightarrow> ci_store_time io = t \<Longrightarrow>
     cache_any_step lib cfg delay (t, s, past) (t, redis_set_page lib cfg io scope cursor n page s, past)"
| invalidated: "cache_any_step lib cfg delay (t, s, past) (t, redis_invalidate_owner lib io owner s, past)"
| waited: "t \<le> t' \<Longrightarrow> cache_any_step lib cfg delay (t, s, past) (t', s, past)"

text \<open>A listing of the service consists of these steps, with those of others in between.\<close>

lemma listing_any_steps:
  assumes call: "list_jobs lib (RedisJobListCache lib cfg io) (\<lambda>_. s2) user cursor limit db s1 = (res, s')"
    and db: "payloads_ok db" and miss: "redis_get_page lib io (list_scope user) cursor (normalize_limit limit) s1 = Inr None"
    and page: "db_answer lib user cursor limit db = Inr page"
    and others: "(cache_any_step lib cfg delay)\<^sup>*\<^sup>*
      (t1, s1, insert (t1, list_scope user, cursor, normalize_limit limit, page) past) (ci_store_time io, s2, past')"
    and kept: "(t1, list_scope user, cursor, normalize_limit limit, page) \<in> past'"
    and times: "t1 \<le> ci_store_time io" "ci_store_time io \<le> t1 + delay"
  shows "(cache_any_step lib cfg delay)\<^sup>*\<^sup>* (t1, s1, past) (ci_store_time io, s', past')"
proof -
  have "s' = redis_set_page lib cfg io (list_scope user) cursor (normalize_limit limit) page s2"
    using call miss page by (simp add: list_jobs_cached RedisJobListCache_def)
  then have "cache_any_step lib cfg delay (ci_store_time io, s2, past') (ci_store_time io, s', past')"
    using cache_any_step.stored [OF kept times refl] by simp
  with others have "(cache_any_step lib cfg delay)\<^sup>*\<^sup>*
      (t1, s1, insert (t1, list_scope user, cursor, normalize_limit limit, page) past) (ci_store_time io, s', past')"
    by (rule rtranclp.rtrancl_into_rtrancl)
  with cache_any_step.read [OF db page] show ?thesis by (rule converse_rtranclp_into_rtranclp)
qed

text \<open>Every stored text is an answer of the database, and expires a time to live after it was stored.\<close>

definition pages_logged :: "text_lib \<Rightarrow> settings \<Rightarrow> int \<Rightarrow> int \<times> list_cache \<times> answer_log \<Rightarrow> bool" where
  "pages_logged lib cfg delay st \<longleftrightarrow>
     (case st of (t, s, past) \<Rightarrow>
        (\<forall>t0 scope cursor n page. (t0, scope, cursor, n, page) \<in> past \<longrightarrow> page_ok page) \<and>
        (\<forall>k c. lc_pages s k = Some c \<longrightarrow>
          (\<exists>t0 t1 scope v cursor n page. (t0, scope, cursor, n, page) \<in> past \<and> t0 \<le> t1 \<and> t1 \<le> t0 + delay \<and> t1 \<le> t \<and>
             k = cache_key lib scope v cursor n \<and> cp_text c = encode_page lib page \<and> cp_expires_at c = t1 + cache_ttl_seconds cfg)))"

lemma lc_pages_invalidate [simp]: "lc_pages (redis_invalidate_owner lib io owner s) = lc_pages s"
  by (simp add: redis_invalidate_owner_def)

lemma pages_logged_step: "cache_any_step lib cfg delay st st' \<Longrightarrow> pages_logged lib cfg delay st \<Longrightarrow> pages_logged lib cfg delay st'"
proof (induction rule: cache_any_step.induct)
  case (read db user cursor limit page t s past)
  then show ?case using db_answer_page_ok [OF read.hyps] unfolding pages_logged_def by (auto, blast)
next
  case (stored t0 scope cursor n page past t io s)
  then show ?case unfolding pages_logged_def redis_set_page_def Let_def by (auto split: if_splits) blast+
next
  case (waited t t' s past)
  then show ?case unfolding pages_logged_def by fastforce
qed (simp add: pages_logged_def)

lemma pages_logged_run:
  "(cache_any_step lib cfg delay)\<^sup>*\<^sup>* st st' \<Longrightarrow> pages_logged lib cfg delay st \<Longrightarrow> pages_logged lib cfg delay st'"
  by (induction rule: rtranclp_induct) (auto intro: pages_logged_step)

lemma logged_page_found:
  assumes lib: "text_lib_ok lib" and parts: "key_parts_ok lib" and past: "pages_logged lib cfg delay (t, s, past)" and time: "ci_time io = t"
    and found: "redis_get_page lib io scope cursor n s = Inr (Some p)"
  shows "\<exists>t0 t1 cursor' page. (t0, scope, cursor', n, page) \<in> past \<and> t0 \<le> t1 \<and> t1 \<le> t0 + delay \<and> t1 \<le> t \<and>
    t < t1 + cache_ttl_seconds cfg \<and>
    tl_sha256 lib (cursor_text cursor') = tl_sha256 lib (cursor_text cursor) \<and> p = served_page page"
proof -
  let ?k = "cache_key lib scope (get_version lib t scope s) cursor n"
  have ok: "r = Inr p" if "map_sum id Some r = Inr (Some p)" for r :: "exn + job_list_page_dto" using that by (cases r) auto
  from found time obtain c where c: "lc_pages s ?k = Some c" "t < cp_expires_at c" "decode_page lib (cp_text c) = Inr p"
    by (auto simp: redis_get_page_def live_text_def Let_def split: if_splits option.splits sum.splits dest: ok)
  with past obtain t0 t1 scope' v cursor' n' page where page: "(t0, scope', cursor', n', page) \<in> past" "page_ok page"
      "t0 \<le> t1" "t1 \<le> t0 + delay" "t1 \<le> t"
      "?k = cache_key lib scope' v cursor' n'" "cp_text c = encode_page lib page" "cp_expires_at c = t1 + cache_ttl_seconds cfg"
    unfolding pages_logged_def by blast
  with c cache_key_eqD [OF parts lib, of scope "get_version lib t scope s" cursor n scope' v cursor' n'] decode_encode_page [OF lib page(2)]
  show ?thesis by (intro exI [of _ t0] exI [of _ t1] exI [of _ cursor'] exI [of _ page]) auto
qed

end
