(* ===== verification/Api.thy ===== *)
theory Api
  imports Auth_Service
begin

text \<open>
  The HTTP layer: request validation (\<^verbatim>\<open>src/app/schemas\<close>), the authentication dependencies
  (\<^verbatim>\<open>src/app/api/dependencies/auth.py\<close>), the routes (\<^verbatim>\<open>src/app/api/routes\<close>) and the error
  responses (\<^verbatim>\<open>src/app/api/error_handlers.py\<close>). Routing, header parsing and the coercions of pydantic
  are the frameworks' and appear as arguments.
\<close>

section \<open>Errors (\<^verbatim>\<open>src/app/core/exceptions.py\<close>)\<close>

text \<open>
  What a handler needs of an \<^verbatim>\<open>ApplicationError\<close>: status, code, message and headers. A class with a
  message of its own uses the one it was raised with, unless that is empty (\<^verbatim>\<open>message or self.message\<close>).
\<close>

record app_error =
  ae_status :: int
  ae_code :: string
  ae_message :: string
  ae_headers :: "(string \<times> string) list"

definition message_or :: "string \<Rightarrow> string \<Rightarrow> string" where
  "message_or message fallback = (if message = [] then fallback else message)"

definition plain_error :: "int \<Rightarrow> string \<Rightarrow> string \<Rightarrow> app_error" where
  "plain_error status code message = \<lparr>ae_status = status, ae_code = code, ae_message = message, ae_headers = []\<rparr>"

text \<open>\<^verbatim>\<open>RateLimitExceededError\<close> of \<^verbatim>\<open>src/app/infrastructure/redis/rate_limiter.py\<close> tells the client when to come back.\<close>

definition rate_limit_exceeded :: "int \<Rightarrow> int \<Rightarrow> int \<Rightarrow> app_error" where
  "rate_limit_exceeded limit retry_after_seconds reset_epoch =
     \<lparr>ae_status = 429, ae_code = ''RATE_LIMIT_EXCEEDED'', ae_message = ''Create job rate limit exceeded'',
      ae_headers = [(''Retry-After'', str_int retry_after_seconds), (''X-RateLimit-Limit'', str_int limit),
                    (''X-RateLimit-Remaining'', ''0''), (''X-RateLimit-Reset'', str_int reset_epoch)]\<rparr>"

fun application_error :: "exn \<Rightarrow> app_error option" where
  "application_error DuplicateEmailError =
     Some (plain_error 409 ''EMAIL_ALREADY_REGISTERED'' ''Email is already registered'')"
| "application_error DuplicateJobIdempotencyKeyError =
     Some (plain_error 409 ''IDEMPOTENCY_KEY_REUSED'' ''Idempotency key is already in use'')"
| "application_error IdempotencyConflictError =
     Some (plain_error 409 ''IDEMPOTENCY_KEY_REUSED'' ''Idempotency key conflicts with a different request'')"
| "application_error JobNotCancellableError =
     Some (plain_error 409 ''JOB_NOT_CANCELLABLE'' ''Job cannot be cancelled in its current state'')"
| "application_error (ResourceNotFoundError m) =
     Some (plain_error 404 ''RESOURCE_NOT_FOUND'' (message_or m ''Resource not found''))"
| "application_error (AuthenticationError m) =
     Some (plain_error 401 ''AUTHENTICATION_FAILED'' (message_or m ''Authentication failed''))"
| "application_error InactiveUserError = Some (plain_error 403 ''INACTIVE_USER'' ''User account is inactive'')"
| "application_error (AuthorizationError m) = Some (plain_error 403 ''ACCESS_DENIED'' (message_or m ''Access denied''))"
| "application_error (InvalidRequestError m) =
     Some (plain_error 400 ''INVALID_REQUEST'' (message_or m ''Request is invalid''))"
| "application_error InvalidCursorError = Some (plain_error 400 ''INVALID_CURSOR'' ''Cursor is invalid'')"
| "application_error (RateLimitExceededError limit retry_after_seconds reset_epoch) =
     Some (rate_limit_exceeded limit retry_after_seconds reset_epoch)"
| "application_error _ = None"

section \<open>Error responses (\<^verbatim>\<open>src/app/api/error_handlers.py\<close>)\<close>

record response =
  rs_status :: int
  rs_body :: json
  rs_headers :: "(string \<times> string) list"

definition REQUEST_ID_HEADER :: string where
  "REQUEST_ID_HEADER = ''X-Request-ID''"

text \<open>
  \<open>state\<close> is the identifier the middleware left in \<^verbatim>\<open>request.state\<close>, \<open>context\<close> the context variable.
\<close>

definition resolve_request_id :: "string option \<Rightarrow> string option \<Rightarrow> string option" where
  "resolve_request_id state context =
     (case state of Some i \<Rightarrow> if i \<noteq> [] then Some i else context | None \<Rightarrow> context)"

text \<open>\<^verbatim>\<open>headers[key] = value\<close> replaces an entry or appends one.\<close>

fun set_header :: "string \<Rightarrow> string \<Rightarrow> (string \<times> string) list \<Rightarrow> (string \<times> string) list" where
  "set_header k v [] = [(k, v)]"
| "set_header k v ((k', v') # hs) = (if k' = k then (k, v) # hs else (k', v') # set_header k v hs)"

definition error_body :: "string \<Rightarrow> string \<Rightarrow> json" where
  "error_body code message =
     JObj [(''error'', JObj [(''code'', JStr code), (''message'', JStr message), (''details'', JNull)])]"

definition build_error_response ::
  "string option \<Rightarrow> int \<Rightarrow> string \<Rightarrow> string \<Rightarrow> (string \<times> string) list \<Rightarrow> response" where
  "build_error_response request_id status code message headers =
     \<lparr>rs_status = status,
      rs_body = error_body code message,
      rs_headers = (case request_id of None \<Rightarrow> headers | Some i \<Rightarrow> set_header REQUEST_ID_HEADER i headers)\<rparr>"

definition handle_application_error :: "string option \<Rightarrow> app_error \<Rightarrow> response" where
  "handle_application_error request_id exc =
     build_error_response request_id (ae_status exc) (ae_code exc) (ae_message exc) (ae_headers exc)"

definition http_code_map :: "int \<rightharpoonup> string" where
  "http_code_map = [401 \<mapsto> ''AUTHENTICATION_REQUIRED'', 403 \<mapsto> ''ACCESS_DENIED'', 404 \<mapsto> ''NOT_FOUND'', 422 \<mapsto> ''INVALID_REQUEST'']"

definition http_message_map :: "int \<rightharpoonup> string" where
  "http_message_map = [401 \<mapsto> ''Authentication credentials were not provided'', 403 \<mapsto> ''Access denied'',
     404 \<mapsto> ''Resource not found'', 422 \<mapsto> ''Request validation failed'']"

definition handle_http_exception :: "string option \<Rightarrow> int \<Rightarrow> response" where
  "handle_http_exception request_id status =
     build_error_response request_id status
       (case http_code_map status of None \<Rightarrow> ''HTTP_ERROR'' | Some c \<Rightarrow> c)
       (case http_message_map status of None \<Rightarrow> ''Request failed'' | Some m \<Rightarrow> m) []"

definition handle_request_validation_error :: "string option \<Rightarrow> response" where
  "handle_request_validation_error request_id =
     build_error_response request_id 422 ''INVALID_REQUEST'' ''Request validation failed'' []"

definition handle_unexpected_exception :: "string option \<Rightarrow> response" where
  "handle_unexpected_exception request_id =
     build_error_response request_id 500 ''INTERNAL_SERVER_ERROR'' ''An internal server error occurred'' []"

text \<open>
  What an endpoint ends with: a response, the framework's \<^verbatim>\<open>RequestValidationError\<close>, or an exception.
  The handler of the most specific class is chosen.
\<close>

datatype 'a outcome = Responded 'a | RequestInvalid | EndpointRaised exn

fun is_http_exception :: "exn \<Rightarrow> bool" where
  "is_http_exception (HTTPException _ _) = True"
| "is_http_exception _ = False"

definition handle_exception :: "string option \<Rightarrow> exn \<Rightarrow> response" where
  "handle_exception request_id exc =
     (case application_error exc of
        Some ae \<Rightarrow> handle_application_error request_id ae
      | None \<Rightarrow>
          (case exc of
             HTTPException status detail \<Rightarrow> handle_http_exception request_id status
           | _ \<Rightarrow> handle_unexpected_exception request_id))"

text \<open>
  The middleware of \<^verbatim>\<open>src/app/main.py\<close>: the caller's request identifier if it sent a non-empty one,
  otherwise a new one, put into \<^verbatim>\<open>request.state\<close> and the context variable and onto the response. An
  exception no inner handler takes passes through it (the context variable is reset by then); the
  handler of last resort answers outside.
\<close>

definition request_id_of :: "string option \<Rightarrow> string \<Rightarrow> string" where
  "request_id_of header new = (case header of None \<Rightarrow> new | Some h \<Rightarrow> if h = [] then new else h)"

definition with_request_id :: "string \<Rightarrow> response \<Rightarrow> response" where
  "with_request_id request_id r = r\<lparr>rs_headers := set_header REQUEST_ID_HEADER request_id (rs_headers r)\<rparr>"

definition request_context_middleware :: "string option \<Rightarrow> string \<Rightarrow> response outcome \<Rightarrow> response" where
  "request_context_middleware header new out =
     (let request_id = request_id_of header new;
          inside = resolve_request_id (Some request_id) (Some request_id)
      in case out of
           Responded r \<Rightarrow> with_request_id request_id r
         | RequestInvalid \<Rightarrow> with_request_id request_id (handle_request_validation_error inside)
         | EndpointRaised exc \<Rightarrow>
             (if application_error exc \<noteq> None \<or> is_http_exception exc
              then with_request_id request_id (handle_exception inside exc)
              else handle_exception (resolve_request_id (Some request_id) None) exc))"

section \<open>Authentication dependencies (\<^verbatim>\<open>src/app/api/dependencies/auth.py\<close>)\<close>

definition dep_get_current_user ::
  "security_lib \<Rightarrow> text_lib \<Rightarrow> settings \<Rightarrow> datetime \<Rightarrow> string option \<Rightarrow> database \<Rightarrow> exn + current_user_dto" where
  "dep_get_current_user sec lib cfg now credentials db =
     (case credentials of
        None \<Rightarrow> Inl (HTTPException 401 ''Authentication credentials were not provided'')
      | Some token \<Rightarrow> get_current_user sec lib cfg now token db)"

definition ensure_owner_or_admin :: "current_user_dto \<Rightarrow> uuid \<Rightarrow> exn + unit" where
  "ensure_owner_or_admin current_user owner_id =
     (if cu_role current_user = ADMIN then Inr ()
      else if cu_id current_user = owner_id then Inr ()
      else Inl (AuthorizationError ''You do not have access to this resource''))"

definition require_owner_or_admin_user :: "uuid \<Rightarrow> current_user_dto \<Rightarrow> exn + current_user_dto" where
  "require_owner_or_admin_user owner_id current_user =
     bind_result (ensure_owner_or_admin current_user owner_id) (\<lambda>_. Inr current_user)"

definition require_admin_user :: "current_user_dto \<Rightarrow> exn + current_user_dto" where
  "require_admin_user current_user =
     (if cu_role current_user \<noteq> ADMIN then Inl (AuthorizationError ''Admin access is required'') else Inr current_user)"

section \<open>Requests (\<^verbatim>\<open>src/app/schemas/jobs.py\<close>)\<close>

text \<open>
  \<open>px_int\<close> is pydantic's reading of a value for an \<^verbatim>\<open>int\<close> field. \<open>None\<close> stands for the
  \<^verbatim>\<open>RequestValidationError\<close>. The result is the dump of the validated payload.
\<close>

definition only_keys :: "string list \<Rightarrow> json_object \<Rightarrow> bool" where
  "only_keys ks kvs \<longleftrightarrow> set (map fst kvs) \<subseteq> set ks"

definition validate_sleep_payload :: "(json \<Rightarrow> int option) \<Rightarrow> json_object \<Rightarrow> json_object option" where
  "validate_sleep_payload px_int kvs =
     (if \<not> only_keys [''duration_seconds''] kvs then None
      else case map_of kvs ''duration_seconds'' of
             None \<Rightarrow> None
           | Some v \<Rightarrow>
               (case px_int v of
                  None \<Rightarrow> None
                | Some n \<Rightarrow> if 1 \<le> n \<and> n \<le> 30 then Some [(''duration_seconds'', JInt n)] else None))"

definition validate_empty_payload :: "json_object \<Rightarrow> json_object option" where
  "validate_empty_payload kvs = (if only_keys [] kvs then Some [] else None)"

definition validate_failure_payload :: "json_object \<Rightarrow> json_object option" where
  "validate_failure_payload kvs =
     (if \<not> only_keys [''message''] kvs then None
      else case map_of kvs ''message'' of
             None \<Rightarrow> Some [(''message'', JNull)]
           | Some JNull \<Rightarrow> Some [(''message'', JNull)]
           | Some (JStr m) \<Rightarrow> if length m \<le> 500 then Some [(''message'', JStr m)] else None
           | Some _ \<Rightarrow> None)"

text \<open>\<^verbatim>\<open>JobCreateRequest\<close>, the union discriminated by \<^verbatim>\<open>type\<close>.\<close>

definition validate_job_request :: "(json \<Rightarrow> int option) \<Rightarrow> json \<Rightarrow> (JobType \<times> json_object) option" where
  "validate_job_request px_int body =
     (case body of
        JObj kvs \<Rightarrow>
          (if \<not> only_keys [''type'', ''payload''] kvs then None
           else case (map_of kvs ''type'', map_of kvs ''payload'') of
                  (Some (JStr t), Some (JObj payload)) \<Rightarrow>
                    (if t = ''sleep'' then map_option (Pair SLEEP) (validate_sleep_payload px_int payload)
                     else if t = ''success'' then map_option (Pair SUCCESS) (validate_empty_payload payload)
                     else if t = ''failure'' then map_option (Pair FAILURE) (validate_failure_payload payload)
                     else None)
                | _ \<Rightarrow> None)
      | _ \<Rightarrow> None)"

section \<open>Job routes (\<^verbatim>\<open>src/app/api/routes/jobs.py\<close>)\<close>

definition printable_ascii :: "char \<Rightarrow> bool" where
  "printable_ascii c \<longleftrightarrow> (let n = of_char c :: nat in 32 \<le> n \<and> n \<le> 126)"

definition validate_idempotency_key :: "string \<Rightarrow> exn + string" where
  "validate_idempotency_key key =
     (if length key > 128 then Inl (InvalidRequestError ''Idempotency-Key must be at most 128 characters'')
      else if \<not> list_all printable_ascii key
           then Inl (InvalidRequestError ''Idempotency-Key must contain printable ASCII characters only'')
      else if py_strip key = [] then Inl (InvalidRequestError ''Idempotency-Key must not be blank'')
      else Inr key)"

text \<open>\<^verbatim>\<open>JobResponse\<close>: the fields of the job without its attempt count.\<close>

record job_response =
  jr_id :: uuid
  jr_owner_id :: uuid
  jr_type :: JobType
  jr_payload :: json_object
  jr_status :: JobStatus
  jr_idempotency_key :: string
  jr_created_at :: datetime
  jr_updated_at :: datetime
  jr_cancel_requested_at :: "datetime option"

definition to_job_response :: "job_public_dto \<Rightarrow> job_response" where
  "to_job_response job =
     \<lparr>jr_id = pub_id job, jr_owner_id = pub_owner_id job, jr_type = pub_type job, jr_payload = pub_payload job,
      jr_status = pub_status job, jr_idempotency_key = pub_idempotency_key job, jr_created_at = pub_created_at job,
      jr_updated_at = pub_updated_at job, jr_cancel_requested_at = pub_cancel_requested_at job\<rparr>"

text \<open>The other response models. \<^verbatim>\<open>UserResponse\<close> has no field for the password hash.\<close>

record job_log_response =
  jlr_id :: int
  jlr_job_id :: uuid
  jlr_attempt_number :: "int option"
  jlr_level :: string
  jlr_message :: string
  jlr_created_at :: datetime

definition to_job_log_response :: "job_log_entry_dto \<Rightarrow> job_log_response" where
  "to_job_log_response entry =
     \<lparr>jlr_id = jl_id entry, jlr_job_id = jl_job_id entry, jlr_attempt_number = jl_attempt_number entry,
      jlr_level = jl_level entry, jlr_message = jl_message entry, jlr_created_at = jl_created_at entry\<rparr>"

record job_list_response =
  jls_items :: "job_response list"
  jls_next_cursor :: "string option"

definition to_job_list_response :: "job_list_page_dto \<Rightarrow> job_list_response" where
  "to_job_list_response page =
     \<lparr>jls_items = map to_job_response (page_items page), jls_next_cursor = page_next_cursor page\<rparr>"

record user_response =
  ur_id :: uuid
  ur_email :: string
  ur_role :: UserRole
  ur_is_active :: bool
  ur_created_at :: datetime
  ur_updated_at :: datetime

definition to_user_response :: "user_public_dto \<Rightarrow> user_response" where
  "to_user_response user =
     \<lparr>ur_id = upd_id user, ur_email = upd_email user, ur_role = upd_role user, ur_is_active = upd_is_active user,
      ur_created_at = upd_created_at user, ur_updated_at = upd_updated_at user\<rparr>"

record login_response =
  lgr_access_token :: string
  lgr_token_type :: string
  lgr_expires_at :: datetime

definition to_login_response :: "login_result_dto \<Rightarrow> login_response" where
  "to_login_response result =
     \<lparr>lgr_access_token = lr_access_token result, lgr_token_type = lr_token_type result, lgr_expires_at = lr_expires_at result\<rparr>"

record 'a reply =
  rp_status :: int
  rp_headers :: "(string \<times> string) list"
  rp_content :: 'a

definition ok_reply :: "'a \<Rightarrow> 'a reply" where
  "ok_reply v = \<lparr>rp_status = 200, rp_headers = [], rp_content = v\<rparr>"

text \<open>An endpoint that only passes on what the service returns or raises.\<close>

fun reply_of :: "('a \<Rightarrow> 'b) \<Rightarrow> exn + 'a \<Rightarrow> 'b reply outcome" where
  "reply_of f (Inl x) = EndpointRaised x"
| "reply_of f (Inr v) = Responded (ok_reply (f v))"

definition route_create_job ::
  "runtime \<Rightarrow> text_lib \<Rightarrow> 's rate_limiter \<Rightarrow> env \<Rightarrow> JobType \<times> json_object \<Rightarrow> current_user_dto \<Rightarrow> string \<Rightarrow> database \<Rightarrow> database \<Rightarrow> 's
    \<Rightarrow> job_response reply outcome \<times> database \<times> 's \<times> effect list" where
  "route_create_job rt lib rl e request current_user idempotency_key seen db s =
     (case create_job rt lib rl e current_user idempotency_key (fst request) (snd request) seen db s of
        (Inl x, db', s', eff) \<Rightarrow> (EndpointRaised x, db', s', eff)
      | (Inr result, db', s', eff) \<Rightarrow>
          (Responded \<lparr>rp_status = (if jcr_created result then 201 else 200),
                      rp_headers = [(''Idempotency-Replayed'', if jcr_created result then ''false'' else ''true'')],
                      rp_content = to_job_response (jcr_job result)\<rparr>, db', s', eff))"

definition route_get_job :: "current_user_dto \<Rightarrow> uuid \<Rightarrow> database \<Rightarrow> job_response reply outcome" where
  "route_get_job current_user i db = reply_of to_job_response (get_job_detail current_user i db)"

definition route_get_job_logs :: "current_user_dto \<Rightarrow> uuid \<Rightarrow> database \<Rightarrow> job_log_response list reply outcome" where
  "route_get_job_logs current_user i db = reply_of (map to_job_log_response) (list_job_logs current_user i db)"

definition route_cancel_job ::
  "env \<Rightarrow> current_user_dto \<Rightarrow> uuid \<Rightarrow> (database \<Rightarrow> exn + database) \<Rightarrow> database
    \<Rightarrow> job_response reply outcome \<times> database \<times> effect list" where
  "route_cancel_job e current_user i reread db =
     (case cancel_job e current_user i reread db of (r, db', eff) \<Rightarrow> (reply_of to_job_response r, db', eff))"

text \<open>The query parameter \<^verbatim>\<open>limit\<close> is declared with \<^verbatim>\<open>ge=1, le=100\<close>.\<close>

definition route_list_jobs ::
  "text_lib \<Rightarrow> 'c job_list_cache \<Rightarrow> ('c \<Rightarrow> 'c) \<Rightarrow> current_user_dto \<Rightarrow> string option \<Rightarrow> int option \<Rightarrow> database \<Rightarrow> 'c
    \<Rightarrow> job_list_response reply outcome \<times> 'c" where
  "route_list_jobs lib cache between current_user cursor limit db s =
     (if \<not> pred_option (\<lambda>n. 1 \<le> n \<and> n \<le> 100) limit then (RequestInvalid, s)
      else case list_jobs lib cache between current_user cursor limit db s of
             (r, s') \<Rightarrow> (reply_of to_job_list_response r, s'))"

text \<open>
  \<^verbatim>\<open>POST /jobs\<close> with what its parameters declare: the caller is authenticated, the header is
  validated (it has a \<^verbatim>\<open>min_length\<close> of 1), the body is validated, then the route runs. The
  framework resolves them in the order of their declaration and the body last.
\<close>

definition post_jobs ::
  "security_lib \<Rightarrow> runtime \<Rightarrow> text_lib \<Rightarrow> 's rate_limiter \<Rightarrow> env \<Rightarrow> (json \<Rightarrow> int option) \<Rightarrow> datetime \<Rightarrow> string option \<Rightarrow> string option
    \<Rightarrow> json \<Rightarrow> database \<Rightarrow> database \<Rightarrow> 's \<Rightarrow> job_response reply outcome \<times> database \<times> 's \<times> effect list" where
  "post_jobs sec rt lib rl e px_int now credentials key_header body seen db s =
     (case dep_get_current_user sec lib (rt_settings rt) now credentials seen of
        Inl x \<Rightarrow> (EndpointRaised x, db, s, [])
      | Inr current_user \<Rightarrow>
          (case key_header of
             None \<Rightarrow> (RequestInvalid, db, s, [])
           | Some raw \<Rightarrow>
               if raw = [] then (RequestInvalid, db, s, [])
               else (case validate_idempotency_key raw of
                       Inl x \<Rightarrow> (EndpointRaised x, db, s, [])
                     | Inr key \<Rightarrow>
                         (case validate_job_request px_int body of
                            None \<Rightarrow> (RequestInvalid, db, s, [])
                          | Some request \<Rightarrow> route_create_job rt lib rl e request current_user key seen db s))))"

section \<open>Account routes (\<^verbatim>\<open>src/app/api/routes/auth.py\<close>)\<close>

text \<open>
  \<^verbatim>\<open>RegisterRequest\<close> and \<^verbatim>\<open>LoginRequest\<close> (\<^verbatim>\<open>src/app/schemas/auth.py\<close>): exactly an e-mail address, which
  \<open>px_email\<close> checks, and a password; the address is normalized.
\<close>

definition validate_credentials :: "(json \<Rightarrow> string option) \<Rightarrow> json \<Rightarrow> (string \<times> string) option" where
  "validate_credentials px_email body =
     (case body of
        JObj kvs \<Rightarrow>
          (if \<not> only_keys [''email'', ''password''] kvs then None
           else case (map_of kvs ''email'', map_of kvs ''password'') of
                  (Some m, Some (JStr password)) \<Rightarrow> map_option (\<lambda>email. (normalize_email email, password)) (px_email m)
                | _ \<Rightarrow> None)
      | _ \<Rightarrow> None)"

definition route_register ::
  "security_lib \<Rightarrow> driver \<Rightarrow> env \<Rightarrow> nat \<Rightarrow> (json \<Rightarrow> string option) \<Rightarrow> json \<Rightarrow> database \<Rightarrow> database \<Rightarrow> user_response reply outcome \<times> database" where
  "route_register sec driver e salt px_email body seen db =
     (case validate_credentials px_email body of
        None \<Rightarrow> (RequestInvalid, db)
      | Some (email, password) \<Rightarrow>
          (case register_user sec driver e salt email password seen db of
             (Inl x, db') \<Rightarrow> (EndpointRaised x, db')
           | (Inr user, db') \<Rightarrow> (Responded \<lparr>rp_status = 201, rp_headers = [], rp_content = to_user_response user\<rparr>, db')))"

definition route_login ::
  "security_lib \<Rightarrow> text_lib \<Rightarrow> settings \<Rightarrow> datetime \<Rightarrow> uuid \<Rightarrow> (json \<Rightarrow> string option) \<Rightarrow> json \<Rightarrow> database \<Rightarrow> login_response reply outcome" where
  "route_login sec lib cfg now jti px_email body db =
     (case validate_credentials px_email body of
        None \<Rightarrow> RequestInvalid
      | Some (email, password) \<Rightarrow> reply_of to_login_response (login_user sec lib cfg now jti email password db))"

section \<open>Health (\<^verbatim>\<open>src/app/api/routes/health.py\<close>)\<close>

definition health_live :: "string reply" where
  "health_live = ok_reply ''alive''"

text \<open>Ready when started and the database answers; Redis only degrades.\<close>

definition health_ready :: "bool \<Rightarrow> bool \<Rightarrow> bool \<Rightarrow> (string \<times> (string \<times> string) list option) reply" where
  "health_ready is_ready database_answers redis_answers =
     (if \<not> is_ready \<or> \<not> database_answers
      then \<lparr>rp_status = 503, rp_headers = [], rp_content = (''not_ready'', None)\<rparr>
      else ok_reply (''ready'', Some [(''database'', ''ok''), (''redis'', if redis_answers then ''ok'' else ''degraded'')]))"

section \<open>Lemmas\<close>

lemma map_of_set_header [simp]: "map_of (set_header k v hs) k' = (if k' = k then Some v else map_of hs k')"
  by (induction k v hs rule: set_header.induct) auto

lemma validate_idempotency_key_Inr:
  "validate_idempotency_key raw = Inr key \<longleftrightarrow>
     key = raw \<and> length raw \<le> 128 \<and> list_all printable_ascii raw \<and> py_strip raw \<noteq> []"
  by (auto simp: validate_idempotency_key_def)

lemma get_current_user_active: "get_current_user sec lib cfg now tok db = Inr user \<Longrightarrow> cu_is_active user"
  by (auto simp: get_current_user_def bind_result_Inr_iff split: option.splits if_splits)

lemma dep_get_current_user_active:
  "dep_get_current_user sec lib cfg now credentials db = Inr user \<Longrightarrow> \<exists>tok. credentials = Some tok \<and> cu_is_active user"
  by (auto simp: dep_get_current_user_def get_current_user_active split: option.splits)

text \<open>The route of a creation ends as the service did.\<close>

lemma route_create_job_cases:
  assumes "route_create_job rt lib rl e request user key seen db s = (out, db', s', eff)"
  obtains (created) r where
      "r = pending_row e (cu_id user) (fst request) (snd request) key (build_request_hash lib (fst request) (snd request))
         (job_max_retries_setting (rt_settings rt))"
      "jobs_insert_violation r db = None" "db' = created_db rt e r db"
      "out = Responded \<lparr>rp_status = 201, rp_headers = [(''Idempotency-Replayed'', ''false'')],
         rp_content = to_job_response (to_job_public_dto (to_stored_job_dto r))\<rparr>"
      "eff = [InvalidateOwner (cu_id user), Notify (service_notification (to_job_public_dto (to_stored_job_dto r)))]"
    | (replayed) resp where "db' = db" "eff = []" "out = Responded resp" "rp_status resp = 200"
        "rp_headers resp = [(''Idempotency-Replayed'', ''true'')]"
    | (raised) x where "db' = db" "eff = []" "out = EndpointRaised x"
proof -
  obtain res where call: "create_job rt lib rl e user key (fst request) (snd request) seen db s = (res, db', s', eff)"
    using assms by (auto simp: route_create_job_def split: prod.splits sum.splits)
  from call show ?thesis
  proof (cases rule: create_job_cases)
    case (created r)
    then show ?thesis using assms call that(1) by (simp add: route_create_job_def)
  next
    case idle
    then show ?thesis using assms call that(2,3) by (cases res) (auto simp: route_create_job_def)
  qed
qed

end
