(* ===== verification/Event_Stream.thy ===== *)
theory Event_Stream
  imports Api
begin

text \<open>
  The stream of status events of a job: \<^verbatim>\<open>src/app/infrastructure/redis/job_status_pubsub.py\<close> and
  \<^verbatim>\<open>stream_job_events\<close> of \<^verbatim>\<open>src/app/api/routes/jobs.py\<close>. The iterator over the subscription is an
  asynchronous generator, awaited with a timeout; the model keeps whether the generator is still
  open, since cancelling its pending \<^verbatim>\<open>__anext__\<close> runs its \<^verbatim>\<open>finally\<close> block and ends it.
\<close>

section \<open>Events as text\<close>

definition SSE_HEARTBEAT_SECONDS :: rat where
  "SSE_HEARTBEAT_SECONDS = 15"

definition JOB_STATUS_CHANNEL_PREFIX :: string where
  "JOB_STATUS_CHANNEL_PREFIX = ''jobs:events''"

definition channel_name :: "codec \<Rightarrow> uuid \<Rightarrow> string" where
  "channel_name c i = JOB_STATUS_CHANNEL_PREFIX @ '':'' @ enc_uuid c i"

text \<open>\<^verbatim>\<open>event.model_dump(mode="json")\<close>\<close>

definition event_object :: "codec \<Rightarrow> job_status_event \<Rightarrow> json_object" where
  "event_object c ev =
     [(''event_id'', JStr (enc_uuid c (se_event_id ev))),
      (''job_id'', JStr (enc_uuid c (se_job_id ev))),
      (''status'', JStr (JobStatus_value (se_status ev))),
      (''attempt_count'', JInt (se_attempt_count ev)),
      (''occurred_at'', JStr (enc_datetime c (se_occurred_at ev))),
      (''cancel_requested_at'',
         case se_cancel_requested_at ev of None \<Rightarrow> JNull | Some t \<Rightarrow> JStr (enc_datetime c t))]"

text \<open>Validation of the fields: \<open>px_int\<close> reads an \<^verbatim>\<open>int\<close> field, \<open>extra="forbid"\<close>, one field has a default.\<close>

definition event_validate :: "codec \<Rightarrow> (json \<Rightarrow> int option) \<Rightarrow> json \<Rightarrow> job_status_event option" where
  "event_validate c px_int j =
     (case j of
        JObj kvs \<Rightarrow>
          (if \<not> only_keys [''event_id'', ''job_id'', ''status'', ''attempt_count'', ''occurred_at'', ''cancel_requested_at''] kvs
           then None
           else case (Option.bind (map_of kvs ''event_id'') (dec_uuid c), Option.bind (map_of kvs ''job_id'') (dec_uuid c),
                      map_of kvs ''status'', Option.bind (map_of kvs ''attempt_count'') px_int,
                      Option.bind (map_of kvs ''occurred_at'') (dec_datetime c)) of
                  (Some ei, Some ji, Some (JStr st), Some n, Some t) \<Rightarrow>
                    (case (JobStatus_of_value st,
                           case map_of kvs ''cancel_requested_at'' of
                             None \<Rightarrow> Some None
                           | Some JNull \<Rightarrow> Some None
                           | Some v \<Rightarrow> map_option Some (dec_datetime c v)) of
                       (Inr status, Some cancel) \<Rightarrow>
                         Some \<lparr>se_event_id = ei, se_job_id = ji, se_status = status, se_attempt_count = n,
                               se_occurred_at = t, se_cancel_requested_at = cancel\<rparr>
                     | _ \<Rightarrow> None)
                | _ \<Rightarrow> None)
      | _ \<Rightarrow> None)"

text \<open>
  \<^verbatim>\<open>publish\<close> sends \<^verbatim>\<open>event.model_dump_json()\<close> to the job's channel; \<open>px_json\<close> is the JSON parser of
  \<^verbatim>\<open>model_validate_json\<close>.
\<close>

definition publish_event :: "codec \<Rightarrow> job_status_event \<Rightarrow> string \<times> string" where
  "publish_event c ev = (channel_name c (se_job_id ev), write_json (JObj (event_object c ev)))"

definition event_validate_json :: "codec \<Rightarrow> (json \<Rightarrow> int option) \<Rightarrow> (string \<Rightarrow> json option) \<Rightarrow> string \<Rightarrow> job_status_event option" where
  "event_validate_json c px_int px_json payload = Option.bind (px_json payload) (event_validate c px_int)"

section \<open>The iterator (\<^verbatim>\<open>RedisJobStatusPubSub.subscribe\<close>)\<close>

text \<open>
  What the awaiting iterator meets: nothing within a second, a message, a message whose bytes are no
  UTF-8 text, a failure of the connection, or the cancellation by the caller's \<^verbatim>\<open>wait_for\<close>.
\<close>

datatype subscription_input = NoMessage | Message string | Undecodable | ReceiveFailed | Cancelled

datatype next_result = Yielded job_status_event | PubSubError | DecodeError | TimedOut | StopIteration

text \<open>
  One \<^verbatim>\<open>__anext__()\<close>. A message that is not a valid event is logged and skipped. A failure raises
  and ends the generator; so does a message that is no UTF-8 text, because it is decoded outside the inner
  \<^verbatim>\<open>try\<close>. \<^verbatim>\<open>CancelledError\<close> is not an \<^verbatim>\<open>Exception\<close>: it leaves the loop through
  \<^verbatim>\<open>finally\<close> and ends the generator too. A generator that has ended raises \<^verbatim>\<open>StopAsyncIteration\<close>.
  \<open>None\<close>: still waiting.
\<close>

fun anext :: "(string \<Rightarrow> job_status_event option) \<Rightarrow> bool \<Rightarrow> subscription_input list
    \<Rightarrow> (next_result \<times> bool \<times> subscription_input list) option" where
  "anext parse False inputs = Some (StopIteration, False, inputs)"
| "anext parse True [] = None"
| "anext parse True (NoMessage # inputs) = anext parse True inputs"
| "anext parse True (Message payload # inputs) =
     (case parse payload of
        None \<Rightarrow> anext parse True inputs
      | Some ev \<Rightarrow> Some (Yielded ev, True, inputs))"
| "anext parse True (Undecodable # inputs) = Some (DecodeError, False, inputs)"
| "anext parse True (ReceiveFailed # inputs) = Some (PubSubError, False, inputs)"
| "anext parse True (Cancelled # inputs) = Some (TimedOut, False, inputs)"

lemma anext_shorter: "anext parse op inputs = Some (r, op', inputs') \<Longrightarrow> r = StopIteration \<or> length inputs' < length inputs"
  by (induction parse op inputs rule: anext.induct) (auto split: option.splits)

section \<open>The stream (\<^verbatim>\<open>stream_job_events\<close>)\<close>

definition job_snapshot_event :: "uuid \<Rightarrow> job_public_dto \<Rightarrow> job_status_event" where
  "job_snapshot_event event_id job =
     \<lparr>se_event_id = event_id, se_job_id = pub_id job, se_status = pub_status job,
      se_attempt_count = pub_attempt_count job, se_occurred_at = pub_updated_at job,
      se_cancel_requested_at = pub_cancel_requested_at job\<rparr>"

abbreviation newline :: char where
  "newline \<equiv> CHR 0x0A"

definition format_sse_event :: "codec \<Rightarrow> job_status_event \<Rightarrow> string" where
  "format_sse_event c ev =
     ''id: '' @ enc_uuid c (se_event_id ev) @ [newline] @ ''event: job.status'' @ [newline] @
     ''data: '' @ write_json (JObj (event_object c ev)) @ [newline, newline]"

definition format_stream_error_event :: "string \<Rightarrow> string" where
  "format_stream_error_event code =
     ''event: stream.error'' @ [newline] @ ''data: {'' @ quote ''code'' @ '': '' @ quote code @ ''}'' @ [newline, newline]"

definition keep_alive :: string where
  "keep_alive = '': keep-alive'' @ [newline, newline]"

text \<open>A stream waits for further input, has ended, or was broken off by an exception.\<close>

datatype stream_end = Waiting | Ended | Aborted

text \<open>
  The loop: \<open>gone k\<close> is what \<^verbatim>\<open>request.is_disconnected()\<close> answers in its round \<open>k\<close>. The result is the
  chunks sent and whether the stream has ended or waits for further input. The exception of a message
  that could not be decoded is not among those the loop catches.
\<close>

function stream_loop ::
  "codec \<Rightarrow> (string \<Rightarrow> job_status_event option) \<Rightarrow> (nat \<Rightarrow> bool) \<Rightarrow> nat \<Rightarrow> bool \<Rightarrow> subscription_input list \<Rightarrow> string list \<times> stream_end" where
  "stream_loop c parse gone k op inputs =
     (if gone k then ([], Ended)
      else case anext parse op inputs of
             None \<Rightarrow> ([], Waiting)
           | Some (TimedOut, op', inputs') \<Rightarrow>
               (case stream_loop c parse gone (Suc k) op' inputs' of (out, fin) \<Rightarrow> (keep_alive # out, fin))
           | Some (PubSubError, op', inputs') \<Rightarrow> ([format_stream_error_event ''reconnect''], Ended)
           | Some (DecodeError, op', inputs') \<Rightarrow> ([], Aborted)
           | Some (StopIteration, op', inputs') \<Rightarrow> ([], Ended)
           | Some (Yielded ev, op', inputs') \<Rightarrow>
               (if is_terminal_status (se_status ev) then ([format_sse_event c ev], Ended)
                else case stream_loop c parse gone (Suc k) op' inputs' of
                       (out, fin) \<Rightarrow> (format_sse_event c ev # out, fin)))"
  by pat_completeness auto
termination
  by (relation "measure (\<lambda>(c, parse, gone, k, op, inputs). length inputs)") (auto dest: anext_shorter)

text \<open>The subscription is made after the first event is sent; \<open>subscribed\<close> says whether it succeeds.\<close>

definition event_stream ::
  "codec \<Rightarrow> (string \<Rightarrow> job_status_event option) \<Rightarrow> (nat \<Rightarrow> bool) \<Rightarrow> bool \<Rightarrow> uuid \<Rightarrow> job_public_dto \<Rightarrow> subscription_input list
    \<Rightarrow> string list \<times> stream_end" where
  "event_stream c parse gone subscribed event_id current_job inputs =
     (let snapshot_event = job_snapshot_event event_id current_job in
      if is_terminal_status (se_status snapshot_event) then ([format_sse_event c snapshot_event], Ended)
      else if \<not> subscribed then ([format_sse_event c snapshot_event], Aborted)
      else case stream_loop c parse gone 0 True inputs of
             (out, fin) \<Rightarrow> (format_sse_event c snapshot_event # out, fin))"

text \<open>The endpoint: only a caller with access to the job gets a stream.\<close>

definition stream_job_events ::
  "codec \<Rightarrow> (string \<Rightarrow> job_status_event option) \<Rightarrow> (nat \<Rightarrow> bool) \<Rightarrow> bool \<Rightarrow> uuid \<Rightarrow> current_user_dto \<Rightarrow> uuid \<Rightarrow> database
    \<Rightarrow> subscription_input list \<Rightarrow> exn + string list \<times> stream_end" where
  "stream_job_events c parse gone subscribed event_id current_user i db inputs =
     bind_result (get_job_detail current_user i db) (\<lambda>current_job.
       Inr (event_stream c parse gone subscribed event_id current_job inputs))"

declare stream_loop.simps [simp del]

section \<open>Lemmas\<close>

lemma event_round_trip:
  assumes "codec_ok c" and "\<And>n. px_int (JInt n) = Some n"
  shows "event_validate c px_int (JObj (event_object c ev)) = Some ev"
  using assms
  by (cases "se_cancel_requested_at ev")
    (simp_all add: event_validate_def event_object_def only_keys_def codec_ok_def)

text \<open>The iterator lets valid events through in order, up to the first failure or cancellation.\<close>

lemma anext_skip:
  "anext parse True (filter (\<lambda>x. case x of NoMessage \<Rightarrow> False | Message p \<Rightarrow> parse p \<noteq> None | _ \<Rightarrow> True) inputs) =
     map_option (\<lambda>(r, op, rest). (r, op, filter (\<lambda>x. case x of NoMessage \<Rightarrow> False | Message p \<Rightarrow> parse p \<noteq> None | _ \<Rightarrow> True) rest))
       (anext parse True inputs)"
  by (induction parse True inputs rule: anext.induct) (auto split: option.splits)

lemma stream_loop_closed: "stream_loop c parse gone k False inputs = ([], Ended)"
  by (simp add: stream_loop.simps)

lemma format_not_keep_alive: "format_sse_event c ev \<noteq> keep_alive" "format_stream_error_event code \<noteq> keep_alive"
  by (simp_all add: format_sse_event_def format_stream_error_event_def keep_alive_def)

section \<open>What a stream shows\<close>

text \<open>
  The events among the inputs before the first failure or cancellation, and what a client that
  stays is to see of a list of events: those up to and including the first terminal one.
\<close>

fun is_message :: "subscription_input \<Rightarrow> bool" where
  "is_message NoMessage = True"
| "is_message (Message _) = True"
| "is_message _ = False"

fun received :: "(string \<Rightarrow> job_status_event option) \<Rightarrow> subscription_input list \<Rightarrow> job_status_event list" where
  "received parse (NoMessage # inputs) = received parse inputs"
| "received parse (Message p # inputs) =
     (case parse p of None \<Rightarrow> received parse inputs | Some ev \<Rightarrow> ev # received parse inputs)"
| "received parse _ = []"

fun up_to_terminal :: "job_status_event list \<Rightarrow> job_status_event list" where
  "up_to_terminal [] = []"
| "up_to_terminal (ev # evs) = (if is_terminal_status (se_status ev) then [ev] else ev # up_to_terminal evs)"

fun interruption :: "subscription_input list \<Rightarrow> string list" where
  "interruption (ReceiveFailed # _) = [format_stream_error_event ''reconnect'']"
| "interruption (Cancelled # _) = [keep_alive]"
| "interruption _ = []"

fun interrupted :: "subscription_input list \<Rightarrow> stream_end" where
  "interrupted [] = Waiting"
| "interrupted (Undecodable # _) = Aborted"
| "interrupted _ = Ended"

definition stream_shows ::
  "codec \<Rightarrow> (string \<Rightarrow> job_status_event option) \<Rightarrow> subscription_input list \<Rightarrow> string list \<times> stream_end" where
  "stream_shows c parse inputs =
     (let evs = received parse inputs; rest = dropWhile is_message inputs;
          finished = list_ex (\<lambda>ev. is_terminal_status (se_status ev)) evs
      in (map (format_sse_event c) (up_to_terminal evs) @ (if finished then [] else interruption rest),
          if finished then Ended else interrupted rest))"

lemma stream_shows_event:
  "parse p = Some ev \<Longrightarrow> \<not> is_terminal_status (se_status ev) \<Longrightarrow>
     stream_shows c parse (Message p # inputs) = (case stream_shows c parse inputs of (out, fin) \<Rightarrow> (format_sse_event c ev # out, fin))"
  by (simp add: stream_shows_def Let_def)

lemma stream_loop_skip:
  "stream_loop c parse (\<lambda>_. False) k True (NoMessage # inputs) = stream_loop c parse (\<lambda>_. False) k True inputs"
  "parse p = None \<Longrightarrow> stream_loop c parse (\<lambda>_. False) k True (Message p # inputs) = stream_loop c parse (\<lambda>_. False) k True inputs"
  by (simp_all add: stream_loop.simps [where op = True])

lemma stream_loop_shows: "stream_loop c parse (\<lambda>_. False) k True inputs = stream_shows c parse inputs"
proof (induction inputs arbitrary: k)
  case Nil
  then show ?case by (simp add: stream_loop.simps stream_shows_def)
next
  case (Cons x inputs)
  show ?case
  proof (cases x)
    case (Message p)
    show ?thesis
    proof (cases "parse p")
      case None
      with Message Cons.IH show ?thesis by (simp add: stream_loop_skip) (simp add: stream_shows_def)
    next
      case (Some ev)
      show ?thesis
      proof (cases "is_terminal_status (se_status ev)")
        case True
        with Message Some show ?thesis by (simp add: stream_loop.simps stream_shows_def)
      next
        case False
        with Message Some Cons.IH show ?thesis by (subst stream_loop.simps) (simp add: stream_shows_event)
      qed
    qed
  next
    case NoMessage
    with Cons.IH show ?thesis by (simp add: stream_loop_skip) (simp add: stream_shows_def)
  next
    case Undecodable
    then show ?thesis by (simp add: stream_loop.simps stream_shows_def)
  next
    case ReceiveFailed
    then show ?thesis by (simp add: stream_loop.simps stream_shows_def)
  next
    case Cancelled
    then show ?thesis by (simp add: stream_loop.simps [where op = True] stream_loop_closed stream_shows_def)
  qed
qed

lemma received_append: "list_all is_message pre \<Longrightarrow> received parse (pre @ post) = received parse pre @ received parse post"
  by (induction parse pre rule: received.induct) (auto split: option.split)

lemma dropWhile_messages: "list_all is_message pre \<Longrightarrow> dropWhile is_message (pre @ post) = dropWhile is_message post"
  by (simp add: dropWhile_append2 list_all_iff)

lemma up_to_terminal_append:
  "\<not> list_ex (\<lambda>ev. is_terminal_status (se_status ev)) evs \<Longrightarrow> up_to_terminal (evs @ rest) = evs @ up_to_terminal rest"
  by (induction evs) auto

lemma up_to_terminal_id:
  "\<not> list_ex (\<lambda>ev. is_terminal_status (se_status ev)) evs \<Longrightarrow> up_to_terminal evs = evs"
  using up_to_terminal_append [of evs "[]"] by simp

lemma stream_shows_terminal:
  assumes "list_all is_message pre" and "\<not> list_ex (\<lambda>ev. is_terminal_status (se_status ev)) (received parse pre)"
    and "parse p = Some ev" and "is_terminal_status (se_status ev)"
  shows "stream_shows c parse (pre @ Message p # post) = (map (format_sse_event c) (received parse pre @ [ev]), Ended)"
  using assms by (simp add: stream_shows_def Let_def received_append up_to_terminal_append)

text \<open>A client that leaves has seen the beginning of what it would have seen.\<close>

lemma stream_loop_prefix:
  "\<exists>rest. fst (stream_loop c parse (\<lambda>_. False) k op inputs) = fst (stream_loop c parse gone k op inputs) @ rest"
proof (induction c parse gone k op inputs rule: stream_loop.induct)
  case (1 c parse gone k op inputs)
  show ?case
  proof (cases "gone k \<or> anext parse op inputs = None")
    case True
    then show ?thesis by (auto simp: stream_loop.simps [of c parse gone])
  next
    case False
    then obtain r op' inputs' where "anext parse op inputs = Some (r, op', inputs')" "\<not> gone k" by (cases "anext parse op inputs") auto
    then show ?thesis using 1
      by (cases r) (auto simp: stream_loop.simps [of c parse _ k op] split: prod.split)
  qed
qed

text \<open>What a worker publishes is what the iterator reads.\<close>

lemma published_event_received:
  assumes "codec_ok c" and "\<And>n. px_int (JInt n) = Some n" and "\<And>j. px_json (write_json j) = Some j"
  shows "event_validate_json c px_int px_json (snd (publish_event c ev)) = Some ev"
  using event_round_trip [OF assms(1,2)] assms(3) by (simp add: event_validate_json_def publish_event_def del: write_json.simps)

end
