(* ===== verification/Logging.thy ===== *)
theory Logging
  imports Json_Text
begin

text \<open>
  \<^verbatim>\<open>src/app/core/logging.py\<close>: one JSON line per log record, with the values of sensitive keys
  replaced. Logged values are JSON values; a tuple or set counts as a list.
\<close>

definition SENSITIVE_LOG_KEYS :: "string list" where
  "SENSITIVE_LOG_KEYS =
     [''password'', ''token'', ''authorization'', ''jwt'', ''secret'', ''database_url'', ''redis_url'', ''rabbitmq_url'']"

definition is_sensitive_key :: "string \<Rightarrow> bool" where
  "is_sensitive_key key = (let normalized = py_lower key in list_ex (\<lambda>k. py_contains k normalized) SENSITIVE_LOG_KEYS)"

definition REDACTED :: json where
  "REDACTED = JStr ''[REDACTED]''"

fun sanitize_log_value :: "string option \<Rightarrow> json \<Rightarrow> json" where
  "sanitize_log_value key (JObj kvs) =
     (if pred_option is_sensitive_key key \<and> key \<noteq> None then REDACTED
      else JObj (map (\<lambda>kv. (fst kv, sanitize_log_value (Some (fst kv)) (snd kv))) kvs))"
| "sanitize_log_value key (JArr xs) =
     (if pred_option is_sensitive_key key \<and> key \<noteq> None then REDACTED else JArr (map (sanitize_log_value None) xs))"
| "sanitize_log_value key j = (if pred_option is_sensitive_key key \<and> key \<noteq> None then REDACTED else j)"

text \<open>
  A record: the attributes \<^verbatim>\<open>JsonLogFormatter.format\<close> reads, and its dictionary, from which the
  standard attributes are left out. The time is read when the line is formatted.
\<close>

record log_record =
  lg_levelname :: string
  lg_name :: string
  lg_message :: string
  lg_request_id :: "string option"
  lg_dict :: json_object
  lg_exception :: "string option"

definition STANDARD_ATTRIBUTES :: "string list" where
  "STANDARD_ATTRIBUTES =
     [''args'', ''created'', ''exc_info'', ''exc_text'', ''filename'', ''funcName'', ''levelname'', ''levelno'', ''lineno'',
      ''module'', ''msecs'', ''message'', ''msg'', ''name'', ''pathname'', ''process'', ''processName'', ''relativeCreated'',
      ''stack_info'', ''thread'', ''threadName'', ''taskName'', ''request_id'']"

definition log_extras :: "log_record \<Rightarrow> json_object" where
  "log_extras r = filter (\<lambda>kv. fst kv \<notin> set STANDARD_ATTRIBUTES) (lg_dict r)"

definition format_record :: "string \<Rightarrow> log_record \<Rightarrow> string" where
  "format_record timestamp r =
     dumps (JObj
       ([(''timestamp'', JStr timestamp), (''level'', JStr (lg_levelname r)), (''logger'', JStr (lg_name r)),
         (''message'', JStr (lg_message r)),
         (''request_id'', case lg_request_id r of None \<Rightarrow> JNull | Some i \<Rightarrow> JStr i)] @
        (if log_extras r \<noteq> [] then [(''extra'', sanitize_log_value None (JObj (log_extras r)))] else []) @
        (case lg_exception r of None \<Rightarrow> [] | Some t \<Rightarrow> [(''exception'', JStr t)])))"

section \<open>What a line does not depend on\<close>

text \<open>Values that agree except under sensitive keys.\<close>

inductive same_public :: "json \<Rightarrow> json \<Rightarrow> bool" where
  same: "same_public j j"
| arr: "list_all2 same_public xs ys \<Longrightarrow> same_public (JArr xs) (JArr ys)"
| obj: "list_all2 (\<lambda>a b. fst a = fst b \<and> (is_sensitive_key (fst a) \<or> same_public (snd a) (snd b))) xs ys \<Longrightarrow>
     same_public (JObj xs) (JObj ys)"
monos list.rel_mono_strong

lemma sanitize_sensitive: "is_sensitive_key k \<Longrightarrow> sanitize_log_value (Some k) j = REDACTED"
  by (cases j) simp_all

lemma sanitize_public: "\<not> is_sensitive_key k \<Longrightarrow> sanitize_log_value (Some k) j = sanitize_log_value None j"
  by (cases j) simp_all

lemma sanitize_same_public: "same_public a b \<Longrightarrow> sanitize_log_value None a = sanitize_log_value None b"
proof (induction rule: same_public.induct)
  case (arr xs ys)
  then have "list_all2 (\<lambda>x y. sanitize_log_value None x = sanitize_log_value None y) xs ys"
    by (elim list_all2_mono) simp
  then show ?case by (simp add: list_all2_conv_all_nth list_eq_iff_nth_eq)
next
  case (obj xs ys)
  have "(fst a, sanitize_log_value (Some (fst a)) (snd a)) = (fst b, sanitize_log_value (Some (fst b)) (snd b))"
    if "fst a = fst b \<and> (is_sensitive_key (fst a) \<or>
      (same_public (snd a) (snd b) \<and> sanitize_log_value None (snd a) = sanitize_log_value None (snd b)))" for a b
    using that by (cases "is_sensitive_key (fst b)") (auto simp: sanitize_sensitive sanitize_public)
  then have "list_all2 (\<lambda>a b. (fst a, sanitize_log_value (Some (fst a)) (snd a)) = (fst b, sanitize_log_value (Some (fst b)) (snd b))) xs ys"
    using obj by (elim list_all2_mono) blast
  then show ?case by (simp add: list_all2_conv_all_nth list_eq_iff_nth_eq)
qed simp

inductive_cases same_public_objE: "same_public (JObj xs) (JObj ys)"

lemma extras_same_public:
  assumes "same_public (JObj (lg_dict r)) (JObj d)"
  shows "sanitize_log_value None (JObj (log_extras r)) = sanitize_log_value None (JObj (log_extras (r\<lparr>lg_dict := d\<rparr>))) \<and>
    (log_extras r = [] \<longleftrightarrow> log_extras (r\<lparr>lg_dict := d\<rparr>) = [])"
proof -
  let ?P = "\<lambda>a b. fst a = fst b \<and> (is_sensitive_key (fst a) \<or> same_public (snd a) (snd b))"
  have "list_all2 ?P (filter (\<lambda>kv. fst kv \<notin> S) xs) (filter (\<lambda>kv. fst kv \<notin> S) ys)" if "list_all2 ?P xs ys" for S xs ys
    using that by (induction rule: list_all2_induct) auto
  moreover from assms have "list_all2 ?P (lg_dict r) d"
    by (cases rule: same_public_objE) (auto simp: list_all2_same intro: same_public.same)
  ultimately have all: "list_all2 ?P (log_extras r) (log_extras (r\<lparr>lg_dict := d\<rparr>))" by (simp add: log_extras_def)
  from sanitize_same_public [OF same_public.obj [OF this]] list_all2_lengthD [OF all] show ?thesis
    by (metis length_0_conv)
qed

text \<open>Every entry of a sanitized value under a sensitive key is the placeholder, at every depth.\<close>

inductive redacted :: "json \<Rightarrow> bool" where
  "\<forall>xs. j \<noteq> JArr xs \<Longrightarrow> \<forall>kvs. j \<noteq> JObj kvs \<Longrightarrow> redacted j"
| "\<forall>x \<in> set xs. redacted x \<Longrightarrow> redacted (JArr xs)"
| "\<forall>kv \<in> set kvs. (is_sensitive_key (fst kv) \<longrightarrow> snd kv = REDACTED) \<and> redacted (snd kv) \<Longrightarrow> redacted (JObj kvs)"

lemma redacted_placeholder: "redacted REDACTED"
  by (rule redacted.intros(1)) (simp_all add: REDACTED_def)

lemma sanitize_redacted: "redacted (sanitize_log_value key j)"
proof (induction key j rule: sanitize_log_value.induct)
  case (1 key kvs)
  then show ?case
    by (auto simp: redacted_placeholder sanitize_sensitive intro!: redacted.intros(3))
next
  case (2 key xs)
  then show ?case by (auto simp: redacted_placeholder intro!: redacted.intros(2))
qed (auto simp: redacted_placeholder intro!: redacted.intros(1))

lemma sanitize_idem: "sanitize_log_value key (sanitize_log_value key j) = sanitize_log_value key j"
proof (induction key j rule: sanitize_log_value.induct)
  case (1 key kvs)
  then show ?case by (auto simp: REDACTED_def)
next
  case (2 key xs)
  then show ?case by (auto simp: REDACTED_def)
qed (auto simp: REDACTED_def)

end
