(* ===== verification/Configuration.thy ===== *)
theory Configuration
  imports Schema Json_Text
begin

text \<open>
  \<^verbatim>\<open>src/app/core/config.py\<close>: the settings are read once from the environment, checked field by field,
  and checked again when the program starts in production. Reading \<^verbatim>\<open>.env\<close> and the coercion of
  texts to integers are pydantic's (\<open>px_int\<close>).
\<close>

section \<open>Validators\<close>

definition upper_char :: "char \<Rightarrow> char" where
  "upper_char c = (let n = of_char c :: nat in if 97 \<le> n \<and> n \<le> 122 then char_of (n - 32) else c)"

text \<open>\<^verbatim>\<open>str.upper\<close> on ASCII; upper-casing any other character below code point 256 gives none of the letters of a level.\<close>

definition LOG_LEVELS :: "string list" where
  "LOG_LEVELS = [''CRITICAL'', ''ERROR'', ''WARNING'', ''INFO'', ''DEBUG'']"

definition validate_log_level :: "string \<Rightarrow> exn + string" where
  "validate_log_level v =
     (let normalized = map upper_char v in
      if normalized \<notin> set LOG_LEVELS
      then Inl (ValueError ''LOG_LEVEL must be one of: CRITICAL, DEBUG, ERROR, INFO, WARNING'')
      else Inr normalized)"

definition strip_non_empty :: "string \<Rightarrow> exn + string" where
  "strip_non_empty v =
     (let stripped = py_strip v in if stripped = [] then Inl (ValueError ''value must not be blank'') else Inr stripped)"

definition PLACEHOLDER_SECRETS :: "string list" where
  "PLACEHOLDER_SECRETS = [''change-me'', ''change-me-to-a-long-random-secret'', ''dev-secret'', ''secret'']"

text \<open>\<^verbatim>\<open>ProductionSettingsError\<close> is a \<^verbatim>\<open>ValueError\<close>.\<close>

definition validate_runtime :: "settings \<Rightarrow> exn + unit" where
  "validate_runtime cfg =
     (if app_env cfg \<noteq> Production then Inr ()
      else if py_lower (jwt_secret cfg) \<in> set PLACEHOLDER_SECRETS
           then Inl (ValueError ''JWT_SECRET must not use a placeholder value in production'')
      else if length (jwt_secret cfg) < 32
           then Inl (ValueError ''JWT_SECRET must be at least 32 characters in production'')
      else Inr ())"

section \<open>Reading the environment\<close>

text \<open>A field is missing, or has a value that is refused.\<close>

datatype field_error = Missing string | Invalid string

definition required :: "(string \<rightharpoonup> string) \<Rightarrow> string \<Rightarrow> (string \<Rightarrow> 'a option) \<Rightarrow> field_error list \<times> 'a option" where
  "required vars alias read =
     (case vars alias of
        None \<Rightarrow> ([Missing alias], None)
      | Some v \<Rightarrow> (case read v of None \<Rightarrow> ([Invalid alias], None) | Some x \<Rightarrow> ([], Some x)))"

definition bounded_int ::
  "(string \<Rightarrow> int option) \<Rightarrow> (string \<rightharpoonup> string) \<Rightarrow> string \<Rightarrow> int \<Rightarrow> int \<Rightarrow> field_error list \<times> int" where
  "bounded_int px_int vars alias low fallback =
     (case vars alias of
        None \<Rightarrow> ([], fallback)
      | Some v \<Rightarrow>
          (case px_int v of
             None \<Rightarrow> ([Invalid alias], fallback)
           | Some n \<Rightarrow> if low \<le> n then ([], n) else ([Invalid alias], fallback)))"

definition read_app_env :: "string \<Rightarrow> app_env option" where
  "read_app_env v =
     (if v = ''development'' then Some Development else if v = ''test'' then Some Test
      else if v = ''production'' then Some Production else None)"

definition of_result :: "exn + 'a \<Rightarrow> 'a option" where
  "of_result r = (case r of Inl _ \<Rightarrow> None | Inr v \<Rightarrow> Some v)"

text \<open>The texts: \<^verbatim>\<open>JWT_SECRET\<close> also has a \<^verbatim>\<open>min_length\<close> of 1, which stripping implies. \<^verbatim>\<open>JWT_ALGORITHM\<close> admits \<^verbatim>\<open>HS256\<close> only.\<close>

definition algorithm_errors :: "(string \<rightharpoonup> string) \<Rightarrow> field_error list" where
  "algorithm_errors vars =
     (case vars ''JWT_ALGORITHM'' of None \<Rightarrow> [] | Some v \<Rightarrow> if v = ''HS256'' then [] else [Invalid ''JWT_ALGORITHM''])"

definition Settings :: "(string \<Rightarrow> int option) \<Rightarrow> (string \<rightharpoonup> string) \<Rightarrow> field_error list + settings" where
  "Settings px_int vars =
     (let env = required vars ''APP_ENV'' read_app_env;
          level = required vars ''LOG_LEVEL'' (\<lambda>v. of_result (validate_log_level v));
          text_field = (\<lambda>alias. required vars alias (\<lambda>v. of_result (strip_non_empty v)));
          int_field = bounded_int px_int vars;
          errors = fst env @ fst level @ fst (text_field ''DATABASE_URL'') @ fst (text_field ''REDIS_URL'') @
            fst (text_field ''RABBITMQ_URL'') @ fst (text_field ''JWT_SECRET'') @ algorithm_errors vars @
            fst (int_field ''ACCESS_TOKEN_TTL_MINUTES'' 1 30) @
            fst (int_field ''JOB_MAX_RUNNING_PER_USER'' 1 3) @
            fst (int_field ''JOB_MAX_RETRIES'' 0 3) @
            fst (int_field ''JOB_LEASE_SECONDS'' 1 60) @
            fst (int_field ''OUTBOX_POLL_INTERVAL_SECONDS'' 1 1) @
            fst (int_field ''OUTBOX_BATCH_SIZE'' 1 50) @
            fst (int_field ''RECOVERY_POLL_INTERVAL_SECONDS'' 1 5) @
            fst (int_field ''RECOVERY_BATCH_SIZE'' 1 50) @
            fst (int_field ''CACHE_TTL_SECONDS'' 1 30) @
            fst (int_field ''CREATE_JOB_RATE_LIMIT'' 1 10) @
            fst (int_field ''CREATE_JOB_RATE_WINDOW_SECONDS'' 1 60)
      in if errors \<noteq> [] then Inl errors
         else Inr \<lparr>app_env = the (snd env), log_level = the (snd level), database_url = the (snd (text_field ''DATABASE_URL'')),
                   redis_url = the (snd (text_field ''REDIS_URL'')), rabbitmq_url = the (snd (text_field ''RABBITMQ_URL'')),
                   jwt_secret = the (snd (text_field ''JWT_SECRET'')),
                   access_token_ttl_minutes = snd (int_field ''ACCESS_TOKEN_TTL_MINUTES'' 1 30),
                   job_max_running_per_user = snd (int_field ''JOB_MAX_RUNNING_PER_USER'' 1 3),
                   job_max_retries_setting = snd (int_field ''JOB_MAX_RETRIES'' 0 3),
                   job_lease_seconds = snd (int_field ''JOB_LEASE_SECONDS'' 1 60),
                   outbox_poll_interval_seconds = snd (int_field ''OUTBOX_POLL_INTERVAL_SECONDS'' 1 1),
                   outbox_batch_size = snd (int_field ''OUTBOX_BATCH_SIZE'' 1 50),
                   recovery_poll_interval_seconds = snd (int_field ''RECOVERY_POLL_INTERVAL_SECONDS'' 1 5),
                   recovery_batch_size = snd (int_field ''RECOVERY_BATCH_SIZE'' 1 50),
                   cache_ttl_seconds = snd (int_field ''CACHE_TTL_SECONDS'' 1 30),
                   create_job_rate_limit = snd (int_field ''CREATE_JOB_RATE_LIMIT'' 1 10),
                   create_job_rate_window_seconds = snd (int_field ''CREATE_JOB_RATE_WINDOW_SECONDS'' 1 60)\<rparr>)"

text \<open>\<^verbatim>\<open>get_settings\<close>: missing fields are named, sorted; other errors are passed on in pydantic's words.\<close>

fun missing_name :: "field_error \<Rightarrow> string option" where
  "missing_name (Missing alias) = Some alias"
| "missing_name (Invalid alias) = None"

fun comma_join :: "string list \<Rightarrow> string" where
  "comma_join [] = []"
| "comma_join [x] = x"
| "comma_join (x # y # xs) = x @ '', '' @ comma_join (y # xs)"

definition get_settings ::
  "(string \<Rightarrow> int option) \<Rightarrow> (field_error list \<Rightarrow> string) \<Rightarrow> (string \<rightharpoonup> string) \<Rightarrow> exn + settings" where
  "get_settings px_int px_text vars =
     (case Settings px_int vars of
        Inr cfg \<Rightarrow> Inr cfg
      | Inl errors \<Rightarrow>
          (let missing = List.map_filter missing_name errors in
           if missing \<noteq> []
           then Inl (RuntimeError (''Missing required environment settings: '' @ comma_join (sort missing)))
           else Inl (RuntimeError (''Invalid application settings: '' @ px_text errors))))"

section \<open>Lemmas\<close>

lemma bounded_int_ok:
  "fst (bounded_int px_int vars alias low fallback) = [] \<Longrightarrow> low \<le> fallback \<Longrightarrow> low \<le> snd (bounded_int px_int vars alias low fallback)"
  by (auto simp: bounded_int_def split: option.splits if_splits)

lemma required_ok:
  "fst (required vars alias read) = [] \<Longrightarrow> \<exists>v. vars alias = Some v \<and> read v \<noteq> None \<and> snd (required vars alias read) = read v"
  by (auto simp: required_def split: option.splits)

lemma strip_non_empty_Some: "of_result (strip_non_empty v) \<noteq> Some []"
  by (auto simp: of_result_def strip_non_empty_def Let_def)

lemma log_level_Some: "of_result (validate_log_level v) = Some l \<Longrightarrow> l \<in> set LOG_LEVELS"
  by (auto simp: of_result_def validate_log_level_def Let_def split: if_splits)

text \<open>Settings that load satisfy the numeric bounds, have a known log level and no blank text.\<close>

lemma loaded_settings_bounds:
  assumes "Settings px_int vars = Inr cfg"
  shows "settings_bounds cfg"
  using assms unfolding Settings_def Let_def
  by (auto simp: settings_bounds_def intro!: bounded_int_ok split: if_splits)

lemma loaded_settings_texts:
  assumes "Settings px_int vars = Inr cfg"
  shows "log_level cfg \<in> set LOG_LEVELS" "jwt_secret cfg \<noteq> []" "database_url cfg \<noteq> []"
proof -
  have "fst (required vars ''LOG_LEVEL'' (\<lambda>v. of_result (validate_log_level v))) = []"
    "log_level cfg = the (snd (required vars ''LOG_LEVEL'' (\<lambda>v. of_result (validate_log_level v))))"
    using assms unfolding Settings_def Let_def by (auto split: if_splits)
  then show "log_level cfg \<in> set LOG_LEVELS" by (auto dest!: required_ok intro: log_level_Some)
  have "fst (required vars a (\<lambda>v. of_result (strip_non_empty v))) = []" if "a \<in> {''JWT_SECRET'', ''DATABASE_URL''}" for a
    using that assms unfolding Settings_def Let_def by (auto split: if_splits)
  then have "the (snd (required vars a (\<lambda>v. of_result (strip_non_empty v)))) \<noteq> []" if "a \<in> {''JWT_SECRET'', ''DATABASE_URL''}" for a
    using that required_ok [of vars a "\<lambda>v. of_result (strip_non_empty v)"] strip_non_empty_Some by auto
  then have "the (snd (required vars ''JWT_SECRET'' (\<lambda>v. of_result (strip_non_empty v)))) \<noteq> []"
    "the (snd (required vars ''DATABASE_URL'' (\<lambda>v. of_result (strip_non_empty v)))) \<noteq> []" by simp_all
  moreover have "jwt_secret cfg = the (snd (required vars ''JWT_SECRET'' (\<lambda>v. of_result (strip_non_empty v))))"
    "database_url cfg = the (snd (required vars ''DATABASE_URL'' (\<lambda>v. of_result (strip_non_empty v))))"
    using assms unfolding Settings_def Let_def by (auto split: if_splits)
  ultimately show "jwt_secret cfg \<noteq> []" "database_url cfg \<noteq> []" by simp_all
qed

lemma production_secret:
  assumes "validate_runtime cfg = Inr ()" and "app_env cfg = Production"
  shows "32 \<le> length (jwt_secret cfg) \<and> py_lower (jwt_secret cfg) \<notin> set PLACEHOLDER_SECRETS"
  using assms by (auto simp: validate_runtime_def split: if_splits)

end
