(* ===== verification/Messaging.thy ===== *)
theory Messaging
  imports Outbox_Publisher
begin

text \<open>
  \<^verbatim>\<open>src/app/infrastructure/rabbitmq\<close>: connecting with retries (\<^verbatim>\<open>connection.py\<close>) and the exchanges,
  queues and bindings (\<^verbatim>\<open>topology.py\<close>) through which a dispatch message reaches the execute queue
  and a rejected one the dead-letter queue. The broker's routing of direct exchanges is written
  out, since that is what the declarations mean.
\<close>

section \<open>Connecting\<close>

definition STARTUP_RETRY_BASE_SECONDS :: int where
  "STARTUP_RETRY_BASE_SECONDS = 1"

definition STARTUP_RETRY_MAX_SECONDS :: int where
  "STARTUP_RETRY_MAX_SECONDS = 30"

definition STARTUP_RETRY_ATTEMPTS :: nat where
  "STARTUP_RETRY_ATTEMPTS = 5"

definition startup_retry_delay :: "nat \<Rightarrow> int" where
  "startup_retry_delay attempt_number =
     min (STARTUP_RETRY_BASE_SECONDS * 2 ^ (attempt_number - 1)) STARTUP_RETRY_MAX_SECONDS"

text \<open>
  The loop from attempt \<open>n\<close> on: \<open>connect n\<close> is what the call of attempt \<open>n\<close> ends with. The result
  and the delays slept. With no attempt at all the assertion fails.
\<close>

function connect_loop :: "nat \<Rightarrow> (nat \<Rightarrow> exn + 'c) \<Rightarrow> nat \<Rightarrow> exn option \<Rightarrow> (exn + 'c) \<times> int list" where
  "connect_loop attempts connect n last_error =
     (if n > attempts
      then (case last_error of None \<Rightarrow> (Inl (RuntimeError ''AssertionError''), []) | Some x \<Rightarrow> (Inl x, []))
      else case connect n of
             Inr conn \<Rightarrow> (Inr conn, [])
           | Inl x \<Rightarrow>
               if n = attempts then (Inl x, [])
               else case connect_loop attempts connect (Suc n) (Some x) of
                      (r, delays) \<Rightarrow> (r, startup_retry_delay n # delays))"
  by pat_completeness auto
termination by (relation "measure (\<lambda>(attempts, connect, n, last_error). Suc attempts - n)") auto

declare connect_loop.simps [simp del]

definition connect_robust_with_retry :: "nat \<Rightarrow> (nat \<Rightarrow> exn + 'c) \<Rightarrow> (exn + 'c) \<times> int list" where
  "connect_robust_with_retry attempts connect = connect_loop attempts connect 1 None"

lemma connect_loop_fails:
  assumes "\<forall>k \<in> {n..attempts}. \<exists>x. connect k = Inl x" and "1 \<le> n" and "n \<le> attempts"
  shows "\<exists>x. connect attempts = Inl x \<and>
    connect_loop attempts connect n e = (Inl x, map startup_retry_delay [n..<attempts])"
  using assms
proof (induction "attempts - n" arbitrary: n e)
  case 0
  then show ?case by (auto simp: connect_loop.simps [of _ _ n])
next
  case (Suc d)
  then obtain x where x: "connect n = Inl x" by force
  from Suc.hyps(1) [of "Suc n" "Some x"] Suc.hyps(2) Suc.prems
  obtain y where y: "connect attempts = Inl y"
    "connect_loop attempts connect (Suc n) (Some x) = (Inl y, map startup_retry_delay [Suc n..<attempts])" by fastforce
  with x Suc.hyps(2) Suc.prems show ?case by (auto simp: connect_loop.simps [of _ _ n] upt_conv_Cons)
qed

lemma connect_loop_succeeds:
  assumes "\<forall>k \<in> {n..<m}. \<exists>x. connect k = Inl x" and "connect m = Inr c" and "n \<le> m" and "m \<le> attempts"
  shows "connect_loop attempts connect n e = (Inr c, map startup_retry_delay [n..<m])"
  using assms
proof (induction "m - n" arbitrary: n e)
  case 0
  then show ?case by (simp add: connect_loop.simps [of _ _ n])
next
  case (Suc d)
  then obtain x where x: "connect n = Inl x" by force
  from Suc.hyps(1) [of "Suc n" "Some x"] Suc.hyps(2) Suc.prems
  have "connect_loop attempts connect (Suc n) (Some x) = (Inr c, map startup_retry_delay [Suc n..<m])" by fastforce
  with x Suc.hyps(2) Suc.prems show ?case by (simp add: connect_loop.simps [of _ _ n] upt_conv_Cons)
qed

text \<open>With the defaults: five attempts, and 1, 2, 4 and 8 seconds between them.\<close>

lemma startup_delays: "map startup_retry_delay [1..<5] = [1, 2, 4, 8]"
  by (simp add: startup_retry_delay_def STARTUP_RETRY_BASE_SECONDS_def STARTUP_RETRY_MAX_SECONDS_def upt_rec)

section \<open>Topology\<close>

definition JOBS_DIRECT_EXCHANGE_NAME :: string where "JOBS_DIRECT_EXCHANGE_NAME = ''jobs.direct''"
definition JOBS_EXECUTE_QUEUE_NAME :: string where "JOBS_EXECUTE_QUEUE_NAME = ''jobs.execute''"
definition JOBS_EXECUTE_ROUTING_KEY :: string where "JOBS_EXECUTE_ROUTING_KEY = ''jobs.execute''"
definition JOBS_DLX_EXCHANGE_NAME :: string where "JOBS_DLX_EXCHANGE_NAME = ''jobs.dlx''"
definition JOBS_DEAD_QUEUE_NAME :: string where "JOBS_DEAD_QUEUE_NAME = ''jobs.dead''"
definition JOBS_DEAD_ROUTING_KEY :: string where "JOBS_DEAD_ROUTING_KEY = ''jobs.dead''"

lemmas topology_names = JOBS_DIRECT_EXCHANGE_NAME_def JOBS_EXECUTE_QUEUE_NAME_def JOBS_EXECUTE_ROUTING_KEY_def
  JOBS_DLX_EXCHANGE_NAME_def JOBS_DEAD_QUEUE_NAME_def JOBS_DEAD_ROUTING_KEY_def

text \<open>A broker: durable direct exchanges, durable queues with their arguments, and bindings.\<close>

record broker =
  br_exchanges :: "string set"
  br_queues :: "string \<rightharpoonup> (string \<times> string) list"
  br_bindings :: "(string \<times> string \<times> string) set"

definition execute_queue_arguments :: "(string \<times> string) list" where
  "execute_queue_arguments =
     [(''x-dead-letter-exchange'', JOBS_DLX_EXCHANGE_NAME), (''x-dead-letter-routing-key'', JOBS_DEAD_ROUTING_KEY)]"

text \<open>
  Declaring an exchange or queue that exists with other properties fails (the broker closes the
  channel); with the same properties it changes nothing.
\<close>

definition declare_exchange :: "string \<Rightarrow> broker \<Rightarrow> broker" where
  "declare_exchange name b = b\<lparr>br_exchanges := insert name (br_exchanges b)\<rparr>"

definition declare_queue :: "string \<Rightarrow> (string \<times> string) list \<Rightarrow> broker \<Rightarrow> broker option" where
  "declare_queue name arguments b =
     (case br_queues b name of
        None \<Rightarrow> Some (b\<lparr>br_queues := (br_queues b)(name \<mapsto> arguments)\<rparr>)
      | Some args \<Rightarrow> if args = arguments then Some b else None)"

definition bind_queue :: "string \<Rightarrow> string \<Rightarrow> string \<Rightarrow> broker \<Rightarrow> broker" where
  "bind_queue queue exchange routing_key b = b\<lparr>br_bindings := insert (exchange, routing_key, queue) (br_bindings b)\<rparr>"

definition topology_declare :: "broker \<Rightarrow> (string \<times> broker) option" where
  "topology_declare b =
     (let b1 = declare_exchange JOBS_DIRECT_EXCHANGE_NAME b;
          b2 = declare_exchange JOBS_DLX_EXCHANGE_NAME b1
      in Option.bind (declare_queue JOBS_EXECUTE_QUEUE_NAME execute_queue_arguments b2) (\<lambda>b3.
         Option.bind (declare_queue JOBS_DEAD_QUEUE_NAME [] b3) (\<lambda>b4.
         let b5 = bind_queue JOBS_EXECUTE_QUEUE_NAME JOBS_DIRECT_EXCHANGE_NAME JOBS_EXECUTE_ROUTING_KEY b4;
             b6 = bind_queue JOBS_DEAD_QUEUE_NAME JOBS_DLX_EXCHANGE_NAME JOBS_DEAD_ROUTING_KEY b5
         in Some (JOBS_DIRECT_EXCHANGE_NAME, b6))))"

text \<open>The queues a message reaches through a direct exchange, and those of a message rejected by a queue.\<close>

definition route_to :: "broker \<Rightarrow> string \<Rightarrow> string \<Rightarrow> string set" where
  "route_to b exchange routing_key = {q. (exchange, routing_key, q) \<in> br_bindings b}"

definition dead_letter_to :: "broker \<Rightarrow> string \<Rightarrow> string set" where
  "dead_letter_to b queue =
     (case br_queues b queue of
        None \<Rightarrow> {}
      | Some arguments \<Rightarrow>
          (case (map_of arguments ''x-dead-letter-exchange'', map_of arguments ''x-dead-letter-routing-key'') of
             (Some exchange, Some routing_key) \<Rightarrow> route_to b exchange routing_key
           | _ \<Rightarrow> {}))"

text \<open>
  On a fresh broker, and again on one where it was already declared: a dispatch message reaches the
  execute queue and no other, a rejected one the dead-letter queue and no other.
\<close>

lemma topology_routes:
  assumes "b = \<lparr>br_exchanges = {}, br_queues = Map.empty, br_bindings = {}\<rparr>"
  shows "\<exists>b'. topology_declare b = Some (JOBS_DIRECT_EXCHANGE_NAME, b') \<and>
    route_to b' JOBS_DIRECT_EXCHANGE_NAME JOBS_EXECUTE_ROUTING_KEY = {JOBS_EXECUTE_QUEUE_NAME} \<and>
    dead_letter_to b' JOBS_EXECUTE_QUEUE_NAME = {JOBS_DEAD_QUEUE_NAME} \<and>
    topology_declare b' = Some (JOBS_DIRECT_EXCHANGE_NAME, b')"
  using assms
  by (simp add: topology_declare_def declare_exchange_def declare_queue_def bind_queue_def route_to_def dead_letter_to_def
      execute_queue_arguments_def topology_names insert_commute)

end
