(* ===== verification/Service_Properties.thy ===== *)
theory Service_Properties
  imports Example_Run Job_List_Cache Event_Stream Logging Configuration Messaging
begin

text \<open>
  Properties of the layers around the job core: accounts and tokens, the HTTP routes and their
  error responses, the cache of the job list, the event stream and the log.
\<close>

section \<open>Instances\<close>

definition demo_token :: string where
  "demo_token = fst (create_access_token demo_sec demo_lib demo_settings 0 300 100 USER)"

lemma demo_login:
  "login_user demo_sec demo_lib demo_settings 0 300 ''A@example.org '' ''hash'' demo_db1 =
     Inr \<lparr>lr_access_token = demo_token, lr_token_type = ''bearer'', lr_expires_at = 1800000000\<rparr>"
proof -
  have "normalize_email ''A@example.org '' = ''a@example.org''" by code_simp
  then show ?thesis
    by (simp add: login_user_def get_by_email_def scalar_where_def demo_db1_def demo_owner_def demo_sec_def demo_token_def
        create_access_token_def Let_def demo_settings_def timedelta_seconds_def)
qed

lemma demo_authenticated: "dep_get_current_user demo_sec demo_lib demo_settings 2000000 (Some demo_token) demo_db1 = Inr demo_user"
proof -
  obtain expires_at where tok: "create_access_token demo_sec demo_lib demo_settings 0 300 100 USER = (demo_token, expires_at)"
    by (simp add: demo_token_def prod_eq_iff)
  have "1 \<le> access_token_ttl_minutes demo_settings" "60 * access_token_ttl_minutes demo_settings = 1800" by (simp_all add: demo_settings_def)
  with decode_created_token [OF demo_sec_ok demo_lib_ok _ _ _ _ tok, of 2000000]
  obtain claims where "decode_access_token demo_sec demo_lib demo_settings 2000000 demo_token = Inr claims" "at_subject claims = 100"
    by (auto simp: timedelta_seconds_def int_timestamp_def)
  then show ?thesis
    by (simp add: dep_get_current_user_def get_current_user_def users_get_by_id_def scalar_where_def demo_db1_def demo_owner_def demo_user_def)
qed

definition demo_body :: json where
  "demo_body = JObj [(''type'', JStr ''success''), (''payload'', JObj [])]"

fun demo_int :: "json \<Rightarrow> int option" where
  "demo_int (JInt n) = Some n"
| "demo_int _ = None"

lemma demo_post:
  "\<exists>out eff. post_jobs demo_sec demo_rt demo_lib demo_limiter (demo_env 2) demo_int 2000000 (Some demo_token) (Some ''key-1'')
     demo_body demo_db1 demo_db1 Map.empty = (Responded out, demo_db2, demo_counters, eff) \<and> rp_status out = 201"
proof -
  have "validate_idempotency_key ''key-1'' = Inr ''key-1''" by code_simp
  moreover have "validate_job_request demo_int demo_body = Some (SUCCESS, [])"
    by (simp add: validate_job_request_def demo_body_def only_keys_def validate_empty_payload_def)
  moreover obtain res eff where "create_job demo_rt demo_lib demo_limiter (demo_env 2) demo_user ''key-1'' SUCCESS [] demo_db1 demo_db1 Map.empty =
      (Inr res, demo_db2, demo_counters, eff)" "jcr_created res" using demo_create by auto
  ultimately show ?thesis using demo_authenticated by (simp add: post_jobs_def route_create_job_def)
qed

section \<open>Requests\<close>

text \<open>
  C27: \<^verbatim>\<open>POST /jobs\<close> either answers 201 and inserts exactly one pending job with its log entry and
  dispatch event, and then invalidates the user's cached pages and announces the job, for an
  authenticated active user, a key of at most 128 printable characters that is not blank, and a
  valid body; or it leaves the database as it was and schedules
  nothing, and answers 200 with the replay header, a validation error or an exception.
\<close>

theorem post_jobs_outcome:
  assumes "post_jobs sec rt lib rl e px_int now credentials key_header body seen db s = (out, db', s', eff)"
  shows "(\<exists>tok user key t payload r. credentials = Some tok \<and> get_current_user sec lib (rt_settings rt) now tok seen = Inr user \<and>
      cu_is_active user \<and> key_header = Some key \<and> length key \<le> 128 \<and> list_all printable_ascii key \<and> py_strip key \<noteq> [] \<and>
      validate_job_request px_int body = Some (t, payload) \<and>
      r = pending_row e (cu_id user) t payload key (build_request_hash lib t payload) (job_max_retries_setting (rt_settings rt)) \<and>
      jobs_insert_violation r db = None \<and> db' = created_db rt e r db \<and>
      eff = [InvalidateOwner (cu_id user), Notify (service_notification (to_job_public_dto (to_stored_job_dto r)))] \<and>
      out = Responded \<lparr>rp_status = 201, rp_headers = [(''Idempotency-Replayed'', ''false'')],
        rp_content = to_job_response (to_job_public_dto (to_stored_job_dto r))\<rparr>) \<or>
    db' = db \<and> eff = [] \<and>
      (out = RequestInvalid \<or> (\<exists>x. out = EndpointRaised x) \<or>
       (\<exists>resp. out = Responded resp \<and> rp_status resp = 200 \<and> rp_headers resp = [(''Idempotency-Replayed'', ''true'')]))"
proof (cases "\<exists>user key t payload. dep_get_current_user sec lib (rt_settings rt) now credentials seen = Inr user \<and>
    key_header = Some key \<and> key \<noteq> [] \<and> validate_idempotency_key key = Inr key \<and> validate_job_request px_int body = Some (t, payload)")
  case True
  then obtain user key t payload where p: "dep_get_current_user sec lib (rt_settings rt) now credentials seen = Inr user"
      "key_header = Some key" "key \<noteq> []" "validate_idempotency_key key = Inr key" "validate_job_request px_int body = Some (t, payload)"
    by blast
  with assms have "route_create_job rt lib rl e (t, payload) user key seen db s = (out, db', s', eff)" by (simp add: post_jobs_def)
  then show ?thesis
  proof (cases rule: route_create_job_cases)
    case (created r)
    moreover obtain tok where "credentials = Some tok" "cu_is_active user" using dep_get_current_user_active [OF p(1)] by blast
    moreover have "get_current_user sec lib (rt_settings rt) now tok seen = Inr user"
      using p(1) \<open>credentials = Some tok\<close> by (simp add: dep_get_current_user_def)
    ultimately show ?thesis using p(2,4,5) by (intro disjI1) (auto simp: validate_idempotency_key_Inr)
  qed auto
next
  case False
  then show ?thesis using assms
    by (auto simp: post_jobs_def validate_idempotency_key_Inr split: sum.splits option.splits if_splits)
qed

theorem post_jobs_outcome_witness:
  "\<exists>out s' eff. post_jobs demo_sec demo_rt demo_lib demo_limiter (demo_env 2) demo_int 2000000 (Some demo_token) (Some ''key-1'')
     demo_body demo_db1 demo_db1 Map.empty = (out, demo_db2, s', eff) \<and>
   (\<exists>t payload r. validate_job_request demo_int demo_body = Some (t, payload) \<and> demo_db2 = created_db demo_rt (demo_env 2) r demo_db1 \<and>
     jobs_insert_violation r demo_db1 = None)"
proof -
  obtain out eff where post: "post_jobs demo_sec demo_rt demo_lib demo_limiter (demo_env 2) demo_int 2000000 (Some demo_token) (Some ''key-1'')
     demo_body demo_db1 demo_db1 Map.empty = (Responded out, demo_db2, demo_counters, eff)" "rp_status out = 201"
    using demo_post by blast
  have "demo_db2 \<noteq> demo_db1" by (metis demo_db2_sel(2) demo_db1_def database.select_convs(2) list.distinct(1))
  with post_jobs_outcome [OF post(1)] post show ?thesis by blast
qed

text \<open>
  C33: a token handed out at login stands for the account, not for what the account was: whoever
  presents it before its expiry acts with the role, e-mail and activity the account's row has
  then; a deactivated or deleted account is refused, and after
  \<^verbatim>\<open>ACCESS_TOKEN_TTL_MINUTES\<close> the token is.
\<close>

theorem token_names_current_account:
  assumes sec: "security_lib_ok sec" and lib: "text_lib_ok lib"
    and times: "0 \<le> now" "now \<le> t" "1 \<le> access_token_ttl_minutes cfg"
      "now + timedelta_seconds (60 * access_token_ttl_minutes cfg) < timedelta_seconds 253402300800"
    and login: "login_user sec lib cfg now jti email password db = Inr res"
  shows "lr_expires_at res = now + timedelta_seconds (60 * access_token_ttl_minutes cfg) \<and>
    (\<exists>u. get_by_email (normalize_email email) db = Some u \<and> user_is_active u \<and> sl_verify sec password (user_password_hash u) = Inr True \<and>
      get_current_user sec lib cfg t (lr_access_token res) db' =
        (if timedelta_seconds (int_timestamp (lr_expires_at res)) \<le> t then Inl (AuthenticationError ''Access token has expired'')
         else case users_get_by_id (user_id u) db' of
                None \<Rightarrow> Inl (AuthenticationError ''Access token is invalid'')
              | Some u' \<Rightarrow>
                  if user_is_active u'
                  then Inr \<lparr>cu_id = user_id u', cu_email = user_email u', cu_role = user_role u', cu_is_active = True\<rparr>
                  else Inl InactiveUserError))"
proof -
  from login obtain u where u: "get_by_email (normalize_email email) db = Some u" "user_is_active u"
      "sl_verify sec password (user_password_hash u) = Inr True"
    and tok: "create_access_token sec lib cfg now jti (user_id u) (user_role u) = (lr_access_token res, lr_expires_at res)"
    by (auto simp: login_user_def bind_result_Inr_iff split: option.splits if_splits prod.splits)
  note decoded = decode_created_token [OF sec lib times tok]
  show ?thesis
  proof (cases "timedelta_seconds (int_timestamp (lr_expires_at res)) \<le> t")
    case True
    with decoded u show ?thesis by (auto simp: get_current_user_def)
  next
    case False
    with decoded obtain claims where "decode_access_token sec lib cfg t (lr_access_token res) = Inr claims" "at_subject claims = user_id u"
      by auto
    with False u decoded show ?thesis by (auto simp: get_current_user_def split: option.split)
  qed
qed

theorem token_names_current_account_witness:
  "get_current_user demo_sec demo_lib demo_settings 2000000 demo_token (demo_db1\<lparr>db_users := [demo_owner\<lparr>user_role := ADMIN\<rparr>]\<rparr>) =
     Inr \<lparr>cu_id = 100, cu_email = ''a@example.org'', cu_role = ADMIN, cu_is_active = True\<rparr>"
  using token_names_current_account [OF demo_sec_ok demo_lib_ok _ _ _ _ demo_login, of 2000000 "demo_db1\<lparr>db_users := [demo_owner\<lparr>user_role := ADMIN\<rparr>]\<rparr>"]
  by (auto simp: demo_settings_def timedelta_seconds_def int_timestamp_def get_by_email_def users_get_by_id_def scalar_where_def
      demo_db1_def demo_owner_def split: if_splits)

text \<open>
  C34: after a registration the account can be used under every spelling of its e-mail address
  that normalizes to the same text, and there is no second one: a further registration fails
  with \<^verbatim>\<open>DuplicateEmailError\<close> and changes nothing, also when its check ran before the first
  registration committed and only the unique constraint can tell.
\<close>

theorem registration_admits_one_user:
  assumes sec: "security_lib_ok sec" and driver: "driver_reports_unique d" and keys: "user_keys_ok db"
    and reg: "register_user sec d e salt email password seen db = (Inr dto, db')"
    and spelling: "normalize_email email2 = normalize_email email"
    and fresh: "uuid4 e2 0 \<notin> user_id ` set (db_users db')"
  shows "upd_email dto = normalize_email email \<and> upd_role dto = USER \<and> upd_is_active dto \<and>
    (\<exists>res. login_user sec lib cfg now jti email2 password db' = Inr res) \<and>
    register_user sec d e2 salt2 email2 password2 seen2 db' = (Inl DuplicateEmailError, db')"
proof -
  from reg obtain u where u: "dto = to_user_public_dto u" "db' = add_user u db" "users_insert_violation u db = None"
      "user_email u = normalize_email email" "user_password_hash u = sl_hash sec salt password" "user_role u = USER" "user_is_active u"
    by (rule register_user_created)
  have keys': "user_keys_ok db'" unfolding u(2) using keys u(3) by (rule add_user_keys_ok)
  then have found: "get_by_email (normalize_email email2) db' = Some u"
    by (simp add: get_by_email_Some_iff spelling u(2,4))
  moreover have "sl_verify sec password (user_password_hash u) = Inr True" using sec u(5) by (simp add: security_lib_ok_def)
  ultimately have "\<exists>res. login_user sec lib cfg now jti email2 password db' = Inr res"
    using u(7) by (simp add: login_user_def Let_def split: prod.split)
  moreover have "users_insert_violation v db' = Some (UniqueViolation ''uq_users_email'')"
    if "user_id v = uuid4 e2 0" "user_email v = normalize_email email2" for v
    using that fresh spelling u(4) by (auto simp: users_insert_violation_def u(2) image_iff)
  then have "register_user sec d e2 salt2 email2 password2 seen2 db' = (Inl DuplicateEmailError, db')"
    by (simp add: register_user_eq create_user_def Let_def duplicate_email_recognised [OF driver])
  ultimately show ?thesis using u by (simp add: to_user_public_dto_def)
qed

theorem registration_admits_one_user_witness:
  "(\<exists>res. login_user demo_sec demo_lib demo_settings 0 300 ''A@EXAMPLE.org'' ''hash'' demo_db1 = Inr res) \<and>
   register_user demo_sec demo_driver (demo_env 9) 0 ''A@EXAMPLE.org'' ''other'' empty_database demo_db1 = (Inl DuplicateEmailError, demo_db1)"
proof -
  have "normalize_email ''A@EXAMPLE.org'' = normalize_email '' A@example.org''" by code_simp
  moreover have "user_keys_ok empty_database" by (simp add: user_keys_ok_def empty_database_def)
  moreover have "uuid4 (demo_env 9) 0 \<notin> user_id ` set (db_users demo_db1)" by (simp add: demo_db1_def demo_owner_def)
  ultimately show ?thesis
    using registration_admits_one_user [OF demo_sec_ok demo_driver_ok _ demo_register] by blast
qed

text \<open>
  C35: a request that passed validation runs to an end in a worker: its type has a handler, the
  handler takes the stored payload, needs the answers of at most 120 cancellation checks, and
  ends by returning, by the requested cancellation, for the failure job with
  \<^verbatim>\<open>JobExecutionError\<close>, or, for the sleep job, with the exception of a cancellation check that failed
  (which the worker treats as a failed attempt); never with an exception of its own.
\<close>

theorem validated_job_runs_cleanly:
  assumes "validate_job_request px_int body = Some (t, payload)"
  shows "\<exists>h. registry_get build_job_handler_registry t = Inr h \<and>
    (execute float_str h payload polls = Suspended \<and> length polls < 120 \<and> set polls \<subseteq> {Inr False} \<or>
     execute float_str h payload polls = Returned \<or>
     t = SLEEP \<and> Inr True \<in> set polls \<and>
       execute float_str h payload polls = Raised (JobCancellationRequestedError ''Job cancellation requested'') \<or>
     t = SLEEP \<and> (\<exists>x. Inl x \<in> set polls \<and> execute float_str h payload polls = Raised x) \<or>
     t = FAILURE \<and> (\<exists>m. m \<noteq> [] \<and> execute float_str h payload polls = Raised (JobExecutionError m)))"
proof (cases t)
  case SLEEP
  then obtain n where payload: "payload = [(''duration_seconds'', JInt n)]" and n: "1 \<le> n" "n \<le> 30"
    using assms by (auto simp: validate_job_request_def validate_sleep_payload_def split: json.splits option.splits if_splits)
  let ?run = "execute float_str SleepJobHandler payload polls" and ?seen = "take (4 * nat n) polls"
  have run: "?run = (case first_stop ?seen of Some x \<Rightarrow> Raised x | None \<Rightarrow> if 4 * nat n \<le> length polls then Returned else Suspended)"
    using sleep_execute_quarters [of float_str "nat n" polls] n payload by simp
  show ?thesis
  proof (cases "first_stop ?seen")
    case None
    show ?thesis
    proof (cases "4 * nat n \<le> length polls")
      case True
      with None run SLEEP show ?thesis by simp
    next
      case False
      with None have "set polls \<subseteq> {Inr False}" by (simp add: first_stop_None)
      moreover have "?run = Suspended" "length polls < 120" using None False run n by simp_all
      ultimately show ?thesis using SLEEP by simp
    qed
  next
    case (Some x)
    then have "?run = Raised x" using run by simp
    then show ?thesis using first_stop_SomeD [OF Some] SLEEP by (auto dest: in_set_takeD)
  qed
next
  case FAILURE
  then show ?thesis by (auto simp: failure_execute_def DEFAULT_FAILURE_MESSAGE_def split: option.split json.split)
qed (simp add: success_execute_def)

theorem validated_job_runs_cleanly_witness:
  "\<exists>h. registry_get build_job_handler_registry SLEEP = Inr h \<and>
    (execute (\<lambda>_. Inl ''float'') h [(''duration_seconds'', JInt 30)] [Inr False, Inl DatabaseError] = Returned \<or>
     execute (\<lambda>_. Inl ''float'') h [(''duration_seconds'', JInt 30)] [Inr False, Inl DatabaseError] = Raised DatabaseError)"
  using validated_job_runs_cleanly [of demo_int "JObj [(''type'', JStr ''sleep''), (''payload'', JObj [(''duration_seconds'', JInt 30)])]" SLEEP
      "[(''duration_seconds'', JInt 30)]" "\<lambda>_. Inl ''float''" "[Inr False, Inl DatabaseError]"]
  by (auto simp: validate_job_request_def validate_sleep_payload_def only_keys_def)

text \<open>
  C36: every response carries the request identifier, the caller's if it sent one. An invalid request and
  every exception an endpoint raises is answered with the same form of body, with the code and
  message of the application error, or the fixed texts of an HTTP or validation error; of an
  unforeseen exception nothing reaches the caller. What an endpoint returns passes unchanged, also the 503
  that \<^verbatim>\<open>/health/ready\<close> returns, with a body of its own, while the service is not ready or the
  database does not answer.
\<close>

theorem error_responses_uniform:
  assumes "new \<noteq> []" and "r = request_context_middleware header new out"
  shows "map_of (rs_headers r) ''X-Request-ID'' = Some (request_id_of header new) \<and>
    (case out of
       Responded r0 \<Rightarrow> rs_status r = rs_status r0 \<and> rs_body r = rs_body r0
     | RequestInvalid \<Rightarrow> rs_status r = 422 \<and> rs_body r = error_body ''INVALID_REQUEST'' ''Request validation failed''
     | EndpointRaised x \<Rightarrow>
         (case application_error x of
            Some ae \<Rightarrow> rs_status r = ae_status ae \<and> rs_body r = error_body (ae_code ae) (ae_message ae)
          | None \<Rightarrow>
              (case x of
                 HTTPException status detail \<Rightarrow> rs_status r = status \<and>
                   (\<exists>code message. rs_body r = error_body code message \<and>
                      code \<in> insert ''HTTP_ERROR'' (ran http_code_map) \<and> message \<in> insert ''Request failed'' (ran http_message_map))
               | _ \<Rightarrow> rs_status r = 500 \<and>
                   rs_body r = error_body ''INTERNAL_SERVER_ERROR'' ''An internal server error occurred''))) \<and>
    rp_status (health_ready is_ready database_answers redis_answers) = (if is_ready \<and> database_answers then 200 else 503) \<and>
    (\<not> (is_ready \<and> database_answers) \<longrightarrow>
       rp_content (health_ready is_ready database_answers redis_answers) = (''not_ready'', None))"
    (is "?A1 \<and> ?A2 \<and> ?B")
proof -
  have i: "request_id_of header new \<noteq> []" using assms(1) by (simp add: request_id_of_def split: option.split)
  note defs = request_context_middleware_def Let_def with_request_id_def handle_exception_def resolve_request_id_def i
    handle_request_validation_error_def handle_application_error_def handle_unexpected_exception_def
    build_error_response_def REQUEST_ID_HEADER_def
  have "?A1 \<and> ?A2"
  proof (cases out)
    case (EndpointRaised x)
    show ?thesis
    proof (cases "application_error x")
      case None
      show ?thesis
      proof (cases "is_http_exception x")
        case True
        then obtain status detail where x: "x = HTTPException status detail" by (cases x) auto
        then show ?thesis
          using EndpointRaised assms(2) by (auto simp: defs handle_http_exception_def ran_def split: option.split)
      next
        case False
        with EndpointRaised None assms(2) have "r = handle_unexpected_exception (Some (request_id_of header new))"
          by (cases x) (simp_all add: request_context_middleware_def Let_def handle_exception_def resolve_request_id_def i)
        with EndpointRaised None False show ?thesis by (cases x) (simp_all add: defs)
      qed
    qed (use EndpointRaised assms(2) in \<open>simp add: defs\<close>)
  qed (use assms(2) in \<open>simp_all add: defs\<close>)
  then show ?thesis by (simp add: health_ready_def ok_reply_def)
qed

theorem error_responses_uniform_witness:
  "map_of (rs_headers (request_context_middleware None ''id-1'' (EndpointRaised (ValueError ''password is 1234'')))) ''X-Request-ID'' = Some ''id-1'' \<and>
   rs_body (request_context_middleware None ''id-1'' (EndpointRaised (ValueError ''password is 1234''))) =
     error_body ''INTERNAL_SERVER_ERROR'' ''An internal server error occurred''"
  using error_responses_uniform [of "''id-1''" _ None "EndpointRaised (ValueError ''password is 1234'')"]
  by (simp add: request_id_of_def)

section \<open>The event stream\<close>

text \<open>
  C37: a client that stays sees the current state and then every valid event that arrives, in
  order, up to the first terminal one, with which the stream ends; invalid messages are passed
  over. But the first heartbeat ends the stream: when no event arrives within
  \<^verbatim>\<open>SSE_HEARTBEAT_SECONDS\<close>, the timeout cancels and thereby closes the iterator, one keep-alive is
  sent, and no later event is. A message that is no UTF-8 text breaks the stream off, and so does a
  subscription that fails, after the current state was sent.
\<close>

theorem stream_shows_events_until_heartbeat:
  assumes "\<not> is_terminal_status (pub_status job)" and "list_all is_message pre"
    and "\<not> list_ex (\<lambda>ev. is_terminal_status (se_status ev)) (received parse pre)"
    and "parse p = Some ev" and "is_terminal_status (se_status ev)"
  shows "event_stream c parse (\<lambda>_. False) True i job pre =
      (map (format_sse_event c) (job_snapshot_event i job # received parse pre), Waiting) \<and>
    event_stream c parse (\<lambda>_. False) True i job (pre @ Message p # post) =
      (map (format_sse_event c) (job_snapshot_event i job # received parse pre @ [ev]), Ended) \<and>
    event_stream c parse (\<lambda>_. False) True i job (pre @ Cancelled # post) =
      (map (format_sse_event c) (job_snapshot_event i job # received parse pre) @ [keep_alive], Ended) \<and>
    event_stream c parse (\<lambda>_. False) True i job (pre @ Undecodable # post) =
      (map (format_sse_event c) (job_snapshot_event i job # received parse pre), Aborted) \<and>
    event_stream c parse (\<lambda>_. False) False i job pre = ([format_sse_event c (job_snapshot_event i job)], Aborted)"
proof -
  have all: "dropWhile is_message pre = []" using assms(2) by (simp add: list_all_iff)
  show ?thesis
    using assms stream_shows_terminal [of pre parse p ev c post]
    by (simp add: event_stream_def job_snapshot_event_def stream_loop_shows)
      (simp add: stream_shows_def Let_def received_append up_to_terminal_id dropWhile_messages all)
qed

theorem stream_shows_events_until_heartbeat_witness:
  "\<exists>job ev. se_status ev = COMPLETED \<and>
     event_stream demo_codec (\<lambda>_. Some ev) (\<lambda>_. False) True 9 job [Cancelled, Message ''''] =
       ([format_sse_event demo_codec (job_snapshot_event 9 job), keep_alive], Ended)"
proof -
  let ?job = "to_job_public_dto (to_stored_job_dto demo_row)"
  let ?ev = "(job_snapshot_event 9 ?job)\<lparr>se_status := COMPLETED\<rparr>"
  have "\<not> is_terminal_status (pub_status ?job)"
    by (simp add: to_job_public_dto_def to_stored_job_dto_def)
  from stream_shows_events_until_heartbeat [OF this, of "[]" "\<lambda>_. Some ?ev" "''''" ?ev demo_codec 9 "[Message '''']"]
  show ?thesis by (intro exI [of _ ?job] exI [of _ ?ev]) simp
qed

section \<open>The log\<close>

text \<open>
  C40: what stands under a sensitive key of a record's extra fields, at any depth, does not
  influence the log line: records that agree elsewhere give the same line, and every entry under
  such a key is replaced. (The message itself and the text of an exception are not filtered.)
\<close>

theorem log_redaction:
  assumes "same_public (JObj (lg_dict r)) (JObj d)"
  shows "format_record timestamp r = format_record timestamp (r\<lparr>lg_dict := d\<rparr>) \<and>
    redacted (sanitize_log_value None (JObj (log_extras r)))"
  using extras_same_public [OF assms] sanitize_redacted
  by (simp add: format_record_def del: sanitize_log_value.simps)

theorem log_redaction_witness:
  "format_record ''now'' \<lparr>lg_levelname = ''INFO'', lg_name = ''app'', lg_message = ''login'', lg_request_id = None,
     lg_dict = [(''user'', JObj [(''Password'', JStr ''1234''), (''id'', JInt 1)])], lg_exception = None\<rparr> =
   format_record ''now'' \<lparr>lg_levelname = ''INFO'', lg_name = ''app'', lg_message = ''login'', lg_request_id = None,
     lg_dict = [(''user'', JObj [(''Password'', JStr ''other''), (''id'', JInt 1)])], lg_exception = None\<rparr>"
proof -
  let ?r = "\<lparr>lg_levelname = ''INFO'', lg_name = ''app'', lg_message = ''login'', lg_request_id = None,
    lg_dict = [(''user'', JObj [(''Password'', JStr ''1234''), (''id'', JInt 1)])], lg_exception = None\<rparr>"
  let ?d = "[(''user'', JObj [(''Password'', JStr ''other''), (''id'', JInt 1)])]"
  have "is_sensitive_key ''Password''" by code_simp
  then have "same_public (JObj (lg_dict ?r)) (JObj ?d)"
    by (auto intro!: same_public.intros)
  from log_redaction [OF this, of "''now''"] show ?thesis by simp
qed

section \<open>The cached job list\<close>

definition empty_list_cache :: list_cache where
  "empty_list_cache = \<lparr>lc_versions = Map.empty, lc_pages = Map.empty\<rparr>"


text \<open>A digest without colons, which keeps the cursors of the example apart.\<close>

definition demo_lib2 :: text_lib where
  "demo_lib2 = demo_lib\<lparr>tl_sha256 := map (\<lambda>c. if c = CHR '':'' then CHR ''_'' else c)\<rparr>"

lemma demo_lib2_ok: "text_lib_ok demo_lib2"
  using demo_lib_ok by (simp add: demo_lib2_def text_lib_ok_def)

lemma demo_key_parts: "key_parts_ok demo_lib2"
  by (auto simp: key_parts_ok_def demo_lib2_def demo_lib_def demo_uuid_text_def str_nat_no_colon split: if_splits)

definition demo_cache1 :: list_cache where
  "demo_cache1 = snd (list_jobs demo_lib2 (RedisJobListCache demo_lib2 demo_settings (cache_answers 0)) id demo_user None None demo_db1 empty_list_cache)"



text \<open>
  C31: how old a listing can be. Without any assumption on the order in which clients look up, read
  the database, invalidate and store, on failed invalidations or expired version counters, the page
  returned is what the database answers now or a page that was stored less than
  \<^verbatim>\<open>CACHE_TTL_SECONDS\<close> ago, as what the database had answered, to the same scope and limit and a cursor
  with the same hash, at most \<open>delay\<close> seconds before the store. So it is less than
  \<^verbatim>\<open>CACHE_TTL_SECONDS\<close> plus the longest time from a read to its store old; a slow client makes it
  older than the time to live.
\<close>

theorem staleness_bounded:
  assumes lib: "text_lib_ok lib" and parts: "key_parts_ok lib"
    and run: "(cache_any_step lib cfg delay)\<^sup>*\<^sup>* (t0, empty_list_cache, {}) (t, s, past)" and time: "ci_time io = t"
    and call: "list_jobs lib (RedisJobListCache lib cfg io) between user cursor limit db s = (Inr page, s')"
  shows "fst (list_jobs lib NoOpJobListCache id user cursor limit db ()) = Inr page \<or>
    (\<exists>t1 t2 cursor' answer. (t1, list_scope user, cursor', normalize_limit limit, answer) \<in> past \<and>
       t1 \<le> t2 \<and> t2 \<le> t1 + delay \<and> t2 \<le> t \<and> t < t2 + cache_ttl_seconds cfg \<and> t < t1 + delay + cache_ttl_seconds cfg \<and>
       tl_sha256 lib (cursor_text cursor') = tl_sha256 lib (cursor_text cursor) \<and> page = served_page answer)"
proof -
  have logged: "pages_logged lib cfg delay (t, s, past)"
    using pages_logged_run [OF run] by (simp add: pages_logged_def empty_list_cache_def)
  show ?thesis
  proof (cases "redis_get_page lib io (list_scope user) cursor (normalize_limit limit) s = Inr (Some page)")
    case True
    from logged_page_found [OF lib parts logged time True]
    obtain t1 t2 cursor' answer where "(t1, list_scope user, cursor', normalize_limit limit, answer) \<in> past"
      "t1 \<le> t2" "t2 \<le> t1 + delay" "t2 \<le> t" "t < t2 + cache_ttl_seconds cfg"
      "tl_sha256 lib (cursor_text cursor') = tl_sha256 lib (cursor_text cursor)" "page = served_page answer" by blast
    then show ?thesis by (intro disjI2 exI [of _ t1] exI [of _ t2] exI [of _ cursor'] exI [of _ answer]) simp
  next
    case False
    then have "db_answer lib user cursor limit db = Inr page"
      using call by (auto simp: list_jobs_cached RedisJobListCache_def split: sum.splits option.splits)
    then show ?thesis by (simp add: db_answer_def)
  qed
qed

text \<open>The example: read at time 0, stored at 10, listed at 35, when the database has changed (the time to live is 30).\<close>

definition demo_late :: cache_io where
  "demo_late = (cache_answers 0)\<lparr>ci_store_time := 10\<rparr>"

theorem staleness_bounded_witness:
  "\<exists>page t2. list_jobs demo_lib2 (RedisJobListCache demo_lib2 demo_settings (cache_answers 35)) id demo_user None None demo_db2
      (snd (list_jobs demo_lib2 (RedisJobListCache demo_lib2 demo_settings demo_late) id demo_user None None demo_db1 empty_list_cache)) =
        (Inr page, snd (list_jobs demo_lib2 (RedisJobListCache demo_lib2 demo_settings demo_late) id demo_user None None demo_db1 empty_list_cache)) \<and>
    (fst (list_jobs demo_lib2 NoOpJobListCache id demo_user None None demo_db2 ()) = Inr page \<or> (0 :: int) \<le> t2 \<and> t2 \<le> 10 \<and> 35 < t2 + 30)"
proof -
  let ?rd = "\<lambda>p. (0 :: int, list_scope demo_user, None :: string option, normalize_limit None, p)"
  have ok1: "payloads_ok demo_db1" by (simp add: payloads_ok_def demo_db1_def)
  obtain page0 where page0: "db_answer demo_lib2 demo_user None None demo_db1 = Inr page0" by (simp add: db_answer_eq)
  define s where "s = redis_set_page demo_lib2 demo_settings demo_late (list_scope demo_user) None (normalize_limit None) page0 empty_list_cache"
  have miss: "redis_get_page demo_lib2 demo_late (list_scope demo_user) None (normalize_limit None) empty_list_cache = Inr None"
    by (simp add: redis_get_page_def demo_late_def cache_answers_def live_text_def empty_list_cache_def Let_def)
  have s: "snd (list_jobs demo_lib2 (RedisJobListCache demo_lib2 demo_settings demo_late) id demo_user None None demo_db1 empty_list_cache) = s"
    using miss page0 by (simp add: list_jobs_cached RedisJobListCache_def s_def)
  have "cache_any_step demo_lib2 demo_settings 10 (0, empty_list_cache, {}) (0, empty_list_cache, {?rd page0})"
    using cache_any_step.read [OF ok1 page0, of demo_settings 10 0 empty_list_cache "{}"] by simp
  moreover have "cache_any_step demo_lib2 demo_settings 10 (0, empty_list_cache, {?rd page0}) (10, empty_list_cache, {?rd page0})"
    by (rule cache_any_step.waited) simp
  moreover have "cache_any_step demo_lib2 demo_settings 10 (10, empty_list_cache, {?rd page0}) (10, s, {?rd page0})"
    unfolding s_def by (rule cache_any_step.stored [where ?t0.0 = 0]) (simp_all add: demo_late_def)
  moreover have "cache_any_step demo_lib2 demo_settings 10 (10, s, {?rd page0}) (35, s, {?rd page0})"
    by (rule cache_any_step.waited) simp
  ultimately have run: "(cache_any_step demo_lib2 demo_settings 10)\<^sup>*\<^sup>* (0, empty_list_cache, {}) (35, s, {?rd page0})"
    by (meson rtranclp.rtrancl_into_rtrancl rtranclp.rtrancl_refl)
  have time: "ci_time (cache_answers 35) = 35" by (simp add: cache_answers_def)
  have "redis_get_page demo_lib2 (cache_answers 35) (list_scope demo_user) None (normalize_limit None) s = Inr (Some (served_page page0))"
    using decode_encode_page [OF demo_lib2_ok db_answer_page_ok [OF ok1 page0]]
    by (simp add: s_def redis_get_page_def redis_set_page_def demo_late_def cache_answers_def live_text_def Let_def demo_settings_def
        get_version_def live_def empty_list_cache_def)
  then have call: "list_jobs demo_lib2 (RedisJobListCache demo_lib2 demo_settings (cache_answers 35)) id demo_user None None demo_db2 s =
      (Inr (served_page page0), s)" by (rule stored_page_listed)
  from staleness_bounded [OF demo_lib2_ok demo_key_parts run time call]
  obtain t2 where "fst (list_jobs demo_lib2 NoOpJobListCache id demo_user None None demo_db2 ()) = Inr (served_page page0) \<or>
      0 \<le> t2 \<and> t2 \<le> 10 \<and> 35 < t2 + cache_ttl_seconds demo_settings" by fastforce
  then show ?thesis unfolding s using call by (auto simp: demo_settings_def)
qed

text \<open>
  The empty cursor is an invalid cursor, unless the first page is cached: \<^verbatim>\<open>cursor or ""\<close> gives
  both the same cache key, so that the answer to \<^verbatim>\<open>?cursor=\<close> depends on what others have
  listed before.
\<close>

lemma empty_cursor_depends_on_cache:
  assumes lib: "text_lib_ok lib" and empty: "tl_b64decode lib '''' = Some ''''" "tl_loads lib '''' = None"
    and ttl: "0 < cache_ttl_seconds cfg" and db: "payloads_ok db"
    and first: "list_jobs lib (RedisJobListCache lib cfg (cache_answers t)) id user None limit db empty_list_cache = (res, s)"
  shows "fst (list_jobs lib (RedisJobListCache lib cfg (cache_answers t)) id user (Some '''') limit db empty_list_cache) = Inl InvalidCursorError \<and>
    (\<exists>page. res = Inr page \<and>
       fst (list_jobs lib (RedisJobListCache lib cfg (cache_answers t)) id user (Some '''') limit db s) = Inr (served_page page))"
proof -
  have miss: "redis_get_page lib (cache_answers t) scope cursor n empty_list_cache = Inr None" for scope cursor n
    by (simp add: get_page_answers live_text_def empty_list_cache_def)
  obtain page where page: "db_answer lib user None limit db = Inr page" by (simp add: db_answer_eq)
  have same: "redis_get_page lib io scope (Some '''') n s0 = redis_get_page lib io scope None n s0" for io scope n s0
    by (simp add: redis_get_page_def cache_key_def cursor_text_def)
  have "db_answer lib user (Some '''') limit db = Inl InvalidCursorError"
    by (simp add: db_answer_eq decode_cursor_def empty)
  moreover have "res = Inr page" "s = redis_set_page lib cfg (cache_answers t) (list_scope user) None (normalize_limit limit) page empty_list_cache"
    using first missed_page_stored [OF miss page, of cfg id] by simp_all
  moreover have "redis_get_page lib (cache_answers t) (list_scope user) (Some '''') (normalize_limit limit) s = Inr (Some (served_page page))"
    unfolding same calculation(3) using ttl by (intro stored_page_served [OF lib db_answer_page_ok [OF db page]]) simp_all
  ultimately show ?thesis
    using miss stored_page_listed [of lib t user "Some ''''" limit s] by (simp add: list_jobs_cached RedisJobListCache_def)
qed

lemma empty_cursor_depends_on_cache_instance:
  "fst (list_jobs demo_lib2 (RedisJobListCache demo_lib2 demo_settings (cache_answers 0)) id demo_user (Some '''') None demo_db1 empty_list_cache) =
     Inl InvalidCursorError \<and>
   (\<exists>page. fst (list_jobs demo_lib2 (RedisJobListCache demo_lib2 demo_settings (cache_answers 0)) id demo_user (Some '''') None demo_db1 demo_cache1) =
      Inr (served_page page))"
proof -
  have "tl_b64decode demo_lib2 '''' = Some ''''" "tl_loads demo_lib2 '''' = None"
    by (simp_all add: demo_lib2_def demo_lib_def) code_simp
  moreover have "payloads_ok demo_db1" by (simp add: payloads_ok_def demo_db1_def)
  moreover obtain res where "list_jobs demo_lib2 (RedisJobListCache demo_lib2 demo_settings (cache_answers 0)) id demo_user None None demo_db1 empty_list_cache =
      (res, demo_cache1)" by (simp add: demo_cache1_def prod_eq_iff)
  ultimately show ?thesis
    using empty_cursor_depends_on_cache [OF demo_lib2_ok, of demo_settings demo_db1 0 demo_user None res demo_cache1]
    by (auto simp: demo_settings_def)
qed

section \<open>Texts\<close>

text \<open>
  C29: what one process writes another reads back. The text of a dispatch message gives the worker
  the message, a cursor gives the service the position it was made from, and the text of a status
  event gives the subscriber the event. A cached page gives the same jobs in the same order with the
  same next cursor, each with the same fields except its attempt count, which is not written and
  comes back as 0, and with its payload as the same dictionary. The readers are the JSON readers of
  Python and pydantic, which invert the writers.
\<close>

theorem texts_round_trip:
  assumes codec: "codec_ok c" and lib: "text_lib_ok lib" and kind: "dm_kind m = ''dispatch''" and page: "page_ok page"
    and px: "\<And>n. px_int (JInt n) = Some n"
  shows "model_validate_json c (model_dump_json c m) = Inr m \<and> decode_cursor lib (encode_cursor lib cursor) = Inr cursor \<and>
    (\<exists>page'. decode_page lib (encode_page lib page) = Inr page' \<and> page_next_cursor page' = page_next_cursor page \<and>
       list_all2 (\<lambda>item item'. item'\<lparr>pub_payload := pub_payload item, pub_attempt_count := pub_attempt_count item\<rparr> = item \<and>
           (\<forall>k. map_of (pub_payload item') k = map_option sort_keys (map_of (pub_payload item) k)) \<and>
           pub_attempt_count item' = 0)
         (page_items page) (page_items page')) \<and>
    event_validate_json c px_int (dec_json c) (snd (publish_event c ev)) = Some ev"
proof -
  have json: "dec_json c (write_json j) = Some j" for j using codec by (simp add: codec_ok_def)
  have "map_of (pub_payload (served_item item)) k = map_option sort_keys (map_of (pub_payload item) k)"
    if "item \<in> set (page_items page)" for item k
    using page that map_of_sorted [of "pub_payload item" sort_keys k]
    by (auto simp: served_item_def sorted_payload_def page_ok_def list_all_iff)
  then have "list_all2 (\<lambda>item item'. item'\<lparr>pub_payload := pub_payload item, pub_attempt_count := pub_attempt_count item\<rparr> = item \<and>
           (\<forall>k. map_of (pub_payload item') k = map_option sort_keys (map_of (pub_payload item) k)) \<and>
           pub_attempt_count item' = 0) (page_items page) (page_items (served_page page))"
    by (auto simp: served_page_def list.rel_map intro!: list.rel_refl_strong) (simp_all add: served_item_def)
  moreover have "page_next_cursor (served_page page) = page_next_cursor page" by (simp add: served_page_def)
  ultimately show ?thesis
    using model_validate_dump_json [OF codec kind] decode_encode_cursor [OF lib] decode_encode_page [OF lib page]
      published_event_received [OF codec px json] by blast
qed

text \<open>The example has a job in the page and an event.\<close>

theorem texts_round_trip_witness:
  "model_validate_json demo_codec (model_dump_json demo_codec demo_dispatch) = Inr demo_dispatch \<and>
   decode_cursor demo_lib (encode_cursor demo_lib (JobListCursor 5 200)) = Inr (JobListCursor 5 200) \<and>
   (\<exists>item. decode_page demo_lib (encode_page demo_lib \<lparr>page_items = [to_job_public_dto (to_stored_job_dto demo_running)], page_next_cursor = Some ''x''\<rparr>) =
     Inr \<lparr>page_items = [item], page_next_cursor = Some ''x''\<rparr> \<and> pub_id item = 200 \<and> pub_status item = RUNNING \<and> pub_attempt_count item = 0) \<and>
   event_validate_json demo_codec demo_int (dec_json demo_codec)
     (snd (publish_event demo_codec (job_snapshot_event 7 (to_job_public_dto (to_stored_job_dto demo_running))))) =
     Some (job_snapshot_event 7 (to_job_public_dto (to_stored_job_dto demo_running)))"
proof -
  let ?item = "to_job_public_dto (to_stored_job_dto demo_running)" and ?c = "JobListCursor 5 200"
  let ?page = "\<lparr>page_items = [?item], page_next_cursor = Some ''x''\<rparr>"
  have kind: "dm_kind demo_dispatch = ''dispatch''" by (simp add: demo_dispatch_def)
  have sel: "pub_id ?item = 200" "pub_status ?item = RUNNING" "pub_payload ?item = []" by (simp_all add: dto_defs demo_running_def)
  then have page: "page_ok ?page" by (simp add: page_ok_def)
  have "demo_int (JInt n) = Some n" for n by simp
  note all = texts_round_trip [OF demo_codec_ok demo_lib_ok kind page this, of ?c "job_snapshot_event 7 ?item"]
  then obtain page' where page': "decode_page demo_lib (encode_page demo_lib ?page) = Inr page'" "page_next_cursor page' = Some ''x''"
      "list_all2 (\<lambda>item item'. item'\<lparr>pub_payload := pub_payload item, pub_attempt_count := pub_attempt_count item\<rparr> = item \<and>
         (\<forall>k. map_of (pub_payload item') k = map_option sort_keys (map_of (pub_payload item) k)) \<and>
         pub_attempt_count item' = 0) [?item] (page_items page')" by auto
  from page'(3) obtain item where item: "page_items page' = [item]" "pub_attempt_count item = 0"
      "item\<lparr>pub_payload := pub_payload ?item, pub_attempt_count := pub_attempt_count ?item\<rparr> = ?item"
    by (auto simp: list_all2_Cons1)
  then have "pub_id item = 200" "pub_status item = RUNNING"
    using sel by (metis job_public_dto.select_convs(1,5) job_public_dto.surjective job_public_dto.update_convs(4,10))+
  then show ?thesis using all page'(1,2) item(1,2) by (cases page') auto
qed

end
