(* ===== verification/Job_Board.thy ===== *)
theory Job_Board
  imports System_History
begin

text \<open>
  What the service promises its users, without tables, outbox, queue, tokens or leases: a board
  of jobs that wait, are worked on a bounded number of times, or are finished for good. The
  running system refines it: each of its steps is nothing or some steps of the board.
\<close>

section \<open>The specification\<close>

datatype phase = Open int | Held int | Closed JobStatus

type_synonym board = "uuid \<rightharpoonup> uuid \<times> phase"

definition working :: "uuid \<Rightarrow> board \<Rightarrow> uuid set" where
  "working ow b = {i. \<exists>n. b i = Some (ow, Held n)}"

inductive board_step :: "int \<Rightarrow> board \<Rightarrow> board \<Rightarrow> bool" for limit where
  submit: "b i = None \<Longrightarrow> board_step limit b (b(i \<mapsto> (ow, Open 0)))"
| withdraw: "b i = Some (ow, Open n) \<Longrightarrow> board_step limit b (b(i \<mapsto> (ow, Closed CANCELLED)))"
| begin_work: "b i = Some (ow, Open n) \<Longrightarrow> n < 4 \<Longrightarrow> int (card (working ow b)) < limit \<Longrightarrow>
     board_step limit b (b(i \<mapsto> (ow, Held (n + 1))))"
| release: "b i = Some (ow, Held n) \<Longrightarrow> n < 4 \<Longrightarrow> board_step limit b (b(i \<mapsto> (ow, Open n)))"
| finish_work: "b i = Some (ow, Held n) \<Longrightarrow> st \<in> {COMPLETED, FAILED, CANCELLED} \<Longrightarrow>
     board_step limit b (b(i \<mapsto> (ow, Closed st)))"

text \<open>What the board guarantees: jobs stay, keep their owner, and a finished one never changes.\<close>

lemma board_finished_stable:
  "(board_step limit)\<^sup>*\<^sup>* b b' \<Longrightarrow> b i = Some (ow, Closed st) \<Longrightarrow> b' i = Some (ow, Closed st)"
  by (induction rule: rtranclp_induct) (auto elim!: board_step.cases)

lemma board_owner_stable:
  "(board_step limit)\<^sup>*\<^sup>* b b' \<Longrightarrow> b i = Some (ow, p) \<Longrightarrow> \<exists>p'. b' i = Some (ow, p')"
  by (induction rule: rtranclp_induct) (auto elim!: board_step.cases)

section \<open>The board of a database\<close>

fun phase_of :: "JobStatus \<Rightarrow> int \<Rightarrow> phase" where
  "phase_of PENDING n = Open n"
| "phase_of QUEUED n = Open n"
| "phase_of RUNNING n = Held n"
| "phase_of st n = Closed st"

definition entry :: "job \<Rightarrow> uuid \<times> phase" where
  "entry r = (job_owner_id r, phase_of (job_status r) (job_attempt_count r))"

definition rows_board :: "job list \<Rightarrow> board" where
  "rows_board rs = map_of (map (\<lambda>r. (job_id r, entry r)) rs)"

definition board_of :: "database \<Rightarrow> board" where
  "board_of db = rows_board (db_jobs db)"

lemma rows_board_replace:
  assumes "job_id r \<notin> job_id ` set xs" and "job_id r' = job_id r"
  shows "rows_board (xs @ r' # ys) = (rows_board (xs @ r # ys))(job_id r \<mapsto> entry r')"
proof
  fix i
  have "map_of (map (\<lambda>r. (job_id r, entry r)) xs) (job_id r) = None"
    using assms(1) by (auto simp: map_of_eq_None_iff)
  then show "rows_board (xs @ r' # ys) i = ((rows_board (xs @ r # ys))(job_id r \<mapsto> entry r')) i"
    using assms(2) by (cases "i = job_id r") (simp_all add: rows_board_def map_add_def split: option.split)
qed

lemma rows_board_row:
  assumes "distinct (map job_id rs)" and "r \<in> set rs"
  shows "rows_board rs (job_id r) = Some (entry r)"
  using assms unfolding rows_board_def by (intro map_of_is_SomeI) (auto simp: comp_def)

lemma rows_board_SomeD: "rows_board rs i = Some v \<Longrightarrow> \<exists>r \<in> set rs. job_id r = i \<and> entry r = v"
  unfolding rows_board_def by (drule map_of_SomeD) auto

lemma phase_of_Working: "phase_of st n = Held m \<longleftrightarrow> st = RUNNING \<and> m = n"
  by (cases st) auto

lemma working_count:
  assumes "job_keys_ok db"
  shows "int (card (working ow (board_of db))) = count_running_for_owner ow db"
proof -
  let ?rs = "filter (\<lambda>r. job_owner_id r = ow \<and> job_status r = RUNNING) (db_jobs db)"
  have keys: "distinct (map job_id (db_jobs db))" using assms by (simp add: job_keys_ok_def)
  have "i \<in> working ow (board_of db) \<longleftrightarrow> i \<in> job_id ` set ?rs" for i
  proof
    assume "i \<in> working ow (board_of db)"
    then obtain n where "rows_board (db_jobs db) i = Some (ow, Held n)" by (auto simp: working_def board_of_def)
    from rows_board_SomeD [OF this] show "i \<in> job_id ` set ?rs" by (auto simp: entry_def phase_of_Working)
  next
    assume "i \<in> job_id ` set ?rs"
    then show "i \<in> working ow (board_of db)"
      using rows_board_row [OF keys] by (auto simp: working_def board_of_def entry_def)
  qed
  then have "working ow (board_of db) = set (map job_id ?rs)" by auto
  moreover have "distinct (map job_id ?rs)" using keys by (rule distinct_map_filter)
  ultimately show ?thesis using distinct_card [of "map job_id ?rs"] by (simp add: count_running_for_owner_def rowcount_def)
qed

section \<open>Moves of rows are steps of the board\<close>

lemma move_board:
  assumes "moves l r r'" and "quiet l" and "b (job_id r) = Some (entry r)"
  shows "(board_step limit)\<^sup>*\<^sup>* b (b(job_id r \<mapsto> entry r'))"
proof -
  have "b(job_id r \<mapsto> entry r') = b \<or> board_step limit b (b(job_id r \<mapsto> entry r'))"
    using assms by (induction rule: moves.induct) (auto simp: entry_def quiet_def fun_upd_idem intro: board_step.intros)
  then show ?thesis by auto
qed

lemma moves_in_board:
  assumes "moves_in (Collect quiet) r r'" and "b (job_id r) = Some (entry r)"
  shows "(board_step limit)\<^sup>*\<^sup>* b (b(job_id r \<mapsto> entry r'))"
proof -
  have "job_id r' = job_id r \<and> (board_step limit)\<^sup>*\<^sup>* b (b(job_id r \<mapsto> entry r'))"
    using assms(1)
  proof (induction rule: moves_in_induct)
    case refl
    then show ?case using assms(2) by (simp add: fun_upd_idem)
  next
    case (step s l s')
    then have "(board_step limit)\<^sup>*\<^sup>* (b(job_id r \<mapsto> entry s)) (b(job_id r \<mapsto> entry s'))"
      using move_board [OF step(3), of "b(job_id r \<mapsto> entry s)" limit] by simp
    moreover have "job_id s' = job_id r" using step(1) moves_identity [OF step(3)] by (simp add: same_identity_def)
    ultimately show ?case using step(1) rtranclp_trans by fastforce
  qed
  then show ?thesis by simp
qed

lemma rows_moves_board:
  assumes "list_all2 (moves_in (Collect quiet)) rs rs'" and "distinct (map job_id (xs @ rs))"
  shows "(board_step limit)\<^sup>*\<^sup>* (rows_board (xs @ rs)) (rows_board (xs @ rs'))"
  using assms
proof (induction arbitrary: xs rule: list_all2_induct)
  case (Cons r rs r' rs')
  have id: "job_id r' = job_id r" using moves_in_identity [OF Cons.hyps(1)] by (simp add: same_identity_def)
  have "(board_step limit)\<^sup>*\<^sup>* (rows_board (xs @ r # rs)) (rows_board (xs @ r' # rs))"
    using moves_in_board [OF Cons.hyps(1), of "rows_board (xs @ r # rs)" limit] rows_board_row [OF Cons.prems, of r] rows_board_replace [of r xs r' rs] Cons.prems id by simp
  moreover have "(board_step limit)\<^sup>*\<^sup>* (rows_board ((xs @ [r']) @ rs)) (rows_board ((xs @ [r']) @ rs'))"
    using Cons.prems id by (intro Cons.IH) simp
  ultimately show ?case by simp
qed simp

lemma rows_board_new:
  assumes "new_job r" and "distinct (map job_id (rs @ [r]))"
  shows "board_step limit (rows_board rs) (rows_board (rs @ [r]))"
proof -
  have none: "rows_board rs (job_id r) = None" using assms(2) by (auto simp: rows_board_def map_of_eq_None_iff)
  then have "rows_board (rs @ [r]) = (rows_board rs)(job_id r \<mapsto> (job_owner_id r, Open 0))"
    using assms(1) by (auto simp: rows_board_def map_add_def entry_def new_job_def fun_eq_iff split: option.split)
  then show ?thesis using board_step.submit [of "rows_board rs" "job_id r", OF none] by simp
qed

lemma starts_board:
  assumes ok: "db_ok c db" and "starts rt db db'"
  shows "board_step (job_max_running_per_user (rt_settings rt)) (board_of db) (board_of db')"
proof -
  from assms(2) obtain r w e where r: "r \<in> set (db_jobs db)" "job_status r = QUEUED" "db' = start_db rt w e (job_id r) db"
    and room: "count_running_for_owner (job_owner_id r) db < job_max_running_per_user (rt_settings rt)" by (auto simp: starts_def)
  have keys: "job_keys_ok db" using ok by (rule db_ok_keys)
  then have dist: "distinct (map job_id (db_jobs db))" by (simp add: job_keys_ok_def)
  have few: "job_attempt_count r < 4" using db_ok_row [OF ok r(1)] r(2) by (simp add: job_ok_def)
  obtain xs ys where split: "db_jobs db = xs @ r # ys" using r(1) by (auto simp: in_set_conv_decomp)
  let ?p = "\<lambda>x. job_id x = job_id r \<and> job_status x = QUEUED"
  obtain f where f: "db_jobs db' = update_where ?p f (db_jobs db)" "job_id (f r) = job_id r"
      "entry (f r) = (job_owner_id r, Held (job_attempt_count r + 1))"
    by (simp add: r(3) start_db_def mark_running_def snd_update_jobs entry_def)
  have "x \<in> set xs \<union> set ys \<Longrightarrow> \<not> ?p x" for x using dist split by (auto simp: image_iff)
  then have "db_jobs db' = xs @ f r # ys"
    using r(2) unfolding f(1) split by (auto simp: update_where_def intro!: map_idI)
  then have "board_of db' = (board_of db)(job_id r \<mapsto> (job_owner_id r, Held (job_attempt_count r + 1)))"
    using rows_board_replace [of r xs "f r" ys] f(2,3) dist split by (simp add: board_of_def)
  moreover have "board_of db (job_id r) = Some (job_owner_id r, Open (job_attempt_count r))"
    using rows_board_row [OF dist r(1)] r(2) by (simp add: board_of_def entry_def)
  ultimately show ?thesis
    using board_step.begin_work [of "board_of db" "job_id r", OF _ few] room by (simp add: working_count [OF keys])
qed

section \<open>Refinement\<close>

text \<open>A forward simulation in which a concrete step may take any number of abstract ones.\<close>

locale simulation =
  fixes conc :: "'s \<Rightarrow> 's \<Rightarrow> bool" and abst :: "'b \<Rightarrow> 'b \<Rightarrow> bool" and abs :: "'s \<Rightarrow> 'b" and inv :: "'s \<Rightarrow> bool"
  assumes inv_step: "inv s \<Longrightarrow> conc s s' \<Longrightarrow> inv s'"
    and simulated: "inv s \<Longrightarrow> conc s s' \<Longrightarrow> abst\<^sup>*\<^sup>* (abs s) (abs s')"
begin

lemma run_simulated: "conc\<^sup>*\<^sup>* s s' \<Longrightarrow> inv s \<Longrightarrow> abst\<^sup>*\<^sup>* (abs s) (abs s') \<and> inv s'"
  by (induction rule: rtranclp_induct) (auto intro: inv_step simulated rtranclp_trans)

lemma abstract_invariant:
  assumes run: "conc\<^sup>*\<^sup>* s s'" and inv: "inv s" and base: "P (abs s)" and step: "\<And>b b'. P b \<Longrightarrow> abst b b' \<Longrightarrow> P b'"
  shows "P (abs s')"
proof -
  have "abst\<^sup>*\<^sup>* (abs s) (abs s')" using run_simulated [OF run inv] by simp
  then show ?thesis by (induction rule: rtranclp_induct) (use base step in auto)
qed

end

interpretation board: simulation "step rt lib" "board_step (job_max_running_per_user (rt_settings rt))"
    "\<lambda>s. board_of (sys_db s)" "\<lambda>s. codec_ok (rt_codec rt) \<and> system_ok rt s" for rt lib
proof
  fix s s' assume "codec_ok (rt_codec rt) \<and> system_ok rt s" and step: "step rt lib s s'"
  then have c: "codec_ok (rt_codec rt)" and ok: "system_ok rt s" by simp_all
  have ok': "system_ok rt s'" using step_ok [OF c step ok] .
  then show "codec_ok (rt_codec rt) \<and> system_ok rt s'" using c by simp
  have keys: "distinct (map job_id (db_jobs (sys_db s)))" "distinct (map job_id (db_jobs (sys_db s')))"
    using db_ok_keys [OF system_ok_parts(1) [OF ok]] db_ok_keys [OF system_ok_parts(1) [OF ok']] by (simp_all add: job_keys_ok_def)
  show "(board_step (job_max_running_per_user (rt_settings rt)))\<^sup>*\<^sup>* (board_of (sys_db s)) (board_of (sys_db s'))"
    using step_kinds [OF c step ok]
  proof (elim disjE exE conjE)
    assume "evolves (Collect quiet) (sys_db s) (sys_db s')"
    then show ?thesis using rows_moves_board [of _ _ "[]"] keys(1) by (simp add: evolves_def board_of_def)
  next
    fix r assume "new_job r" "db_jobs (sys_db s') = db_jobs (sys_db s) @ [r]"
    then show ?thesis using rows_board_new keys(2) by (auto simp: board_of_def)
  next
    assume "starts rt (sys_db s) (sys_db s')"
    then show ?thesis using starts_board [OF system_ok_parts(1) [OF ok]] by blast
  qed
qed

end
