(* ===== verification/Interleaved_Claims.thy ===== *)
theory Interleaved_Claims
  imports System_History Example_Run "HOL-Library.Multiset"
begin

text \<open>
  The claim of a job, statement by statement. \<open>System_Model\<close> makes every transaction one step. The
  claim is the transaction that decides on more than the row it writes: it counts the running jobs
  of the owner. Here any number of claims are under way at once, each of its statements sees what
  is committed by then, and only the row locks of \<^verbatim>\<open>JobWorker._claim_execution\<close> (\<^verbatim>\<open>SELECT ... FOR UPDATE\<close> on the
  owner, then on the job) keep them apart.
\<close>

section \<open>The statements of a claim\<close>

text \<open>What the transaction knows after each of its statements.\<close>

datatype claim_phase =
    Begun
  | OwnerKnown uuid
  | OwnerLocked uuid
  | JobLocked uuid job_execution_dto
  | Counted uuid job_execution_dto int

record claiming =
  cg_worker :: string
  cg_env :: env
  cg_message :: message
  cg_dispatch :: dispatch_message
  cg_phase :: claim_phase

text \<open>
  The next statement on the committed database: the next phase, or the end of the transaction with
  its result. The writes and the COMMIT are the last step: they touch only the locked job row and
  rows of their own, and the dispatch events of the job, which nobody adds or marks without the lock
  of the job.
\<close>

definition claim_next :: "runtime \<Rightarrow> claiming \<Rightarrow> database \<Rightarrow> claim_phase + execution_claim option txn" where
  "claim_next rt cg db =
     (case cg_phase cg of
        Begun \<Rightarrow>
          (case get_owner_id (dm_job_id (cg_dispatch cg)) db of
             None \<Rightarrow> Inr (Inr None, db, [])
           | Some owner_id \<Rightarrow> Inl (OwnerKnown owner_id))
      | OwnerKnown owner_id \<Rightarrow>
          (case lock_by_id owner_id db of
             None \<Rightarrow> Inr (Inr None, db, [])
           | Some _ \<Rightarrow> Inl (OwnerLocked owner_id))
      | OwnerLocked owner_id \<Rightarrow>
          (case get_execution_candidate_for_update (dm_job_id (cg_dispatch cg)) db of
             None \<Rightarrow> Inr (Inr None, db, [])
           | Some job \<Rightarrow>
               if je_status job = PENDING then Inr (Inr None, db, [])
               else if je_status job = RUNNING then Inr (Inr None, db, [])
               else if je_status job \<in> {COMPLETED, FAILED, CANCELLED} then Inr (Inr None, db, [])
               else if je_attempt_count job + 1 > max_total_attempts job
                    then Inr (with_uow (claim_exhausted (cg_env cg) job) db)
               else Inl (JobLocked owner_id job))
      | JobLocked owner_id job \<Rightarrow> Inl (Counted owner_id job (count_running_for_owner owner_id db))
      | Counted owner_id job running_count \<Rightarrow>
          Inr (with_uow
            (if running_count \<ge> job_max_running_per_user (rt_settings rt)
             then claim_defer rt (cg_env cg) job
             else claim_start rt (cg_worker cg) (cg_env cg) job) db))"

text \<open>When nothing is committed in between, the statements are the transaction \<open>claim_execution\<close>.\<close>

fun claim_alone :: "nat \<Rightarrow> runtime \<Rightarrow> claiming \<Rightarrow> database \<Rightarrow> execution_claim option txn option" where
  "claim_alone 0 rt cg db = None"
| "claim_alone (Suc n) rt cg db =
     (case claim_next rt cg db of
        Inr result \<Rightarrow> Some result
      | Inl phase \<Rightarrow> claim_alone n rt (cg\<lparr>cg_phase := phase\<rparr>) db)"

lemma claim_alone_execution:
  assumes "cg_phase cg = Begun"
  shows "claim_alone 5 rt cg db = Some (claim_execution rt (cg_worker cg) (cg_env cg) (cg_dispatch cg) db)"
proof -
  have five: "(5::nat) = Suc (Suc (Suc (Suc (Suc 0))))" by simp
  have session: "uow_session (aenter (new_uow db)) = db" by (simp add: uow_defs)
  show ?thesis
    unfolding five
    by (simp add: claim_next_def assms claim_execution_def claim_body_def with_uow_def session aexit_def uow_defs
        split: option.split prod.split)
qed

section \<open>Claims under way\<close>

text \<open>The row locks a claim holds, from the statement that takes them to its end.\<close>

fun owner_lock :: "claim_phase \<Rightarrow> uuid option" where
  "owner_lock Begun = None"
| "owner_lock (OwnerKnown owner_id) = None"
| "owner_lock (OwnerLocked owner_id) = Some owner_id"
| "owner_lock (JobLocked owner_id job) = Some owner_id"
| "owner_lock (Counted owner_id job running_count) = Some owner_id"

fun job_lock :: "claim_phase \<Rightarrow> uuid option" where
  "job_lock (JobLocked owner_id job) = Some (je_id job)"
| "job_lock (Counted owner_id job running_count) = Some (je_id job)"
| "job_lock phase = None"

text \<open>A statement that locks a row waits as long as another claim holds the lock.\<close>

definition may_proceed :: "claiming list \<Rightarrow> claiming \<Rightarrow> bool" where
  "may_proceed others cg \<longleftrightarrow>
     (case cg_phase cg of
        OwnerKnown owner_id \<Rightarrow> (\<forall>c \<in> set others. owner_lock (cg_phase c) \<noteq> Some owner_id)
      | OwnerLocked owner_id \<Rightarrow> (\<forall>c \<in> set others. job_lock (cg_phase c) \<noteq> Some (dm_job_id (cg_dispatch cg)))
      | _ \<Rightarrow> True)"

text \<open>What the locks leave of a transaction of somebody else: it does not write a locked job row.\<close>

definition keeps_locked_rows :: "claiming list \<Rightarrow> database \<Rightarrow> database \<Rightarrow> bool" where
  "keeps_locked_rows cgs db db' \<longleftrightarrow>
     (\<forall>c \<in> set cgs. \<forall>r \<in> set (db_jobs db). job_lock (cg_phase c) = Some (job_id r) \<longrightarrow> r \<in> set (db_jobs db'))"

record claim_system =
  cs_system :: system
  cs_claims :: "claiming list"

text \<open>
  A delivered message stays in the queue until it is acknowledged, and is not delivered a second
  time meanwhile. Transactions other than claims are the steps of \<open>System_Model\<close> that start no
  job. A claim whose connection or process fails is rolled back.
\<close>

abbreviation handled :: "claiming list \<Rightarrow> message multiset" where
  "handled cgs \<equiv> mset (map cg_message cgs)"

inductive claim_step :: "runtime \<Rightarrow> text_lib \<Rightarrow> claim_system \<Rightarrow> claim_system \<Rightarrow> bool" for rt lib where
  deliver: "add_mset msg (handled (cs_claims f)) \<subseteq># mset (sys_queue (cs_system f)) \<Longrightarrow>
     model_validate_json (rt_codec rt) (msg_body msg) = Inr m \<Longrightarrow>
     claim_step rt lib f (f\<lparr>cs_claims := cs_claims f @
       [\<lparr>cg_worker = w, cg_env = e, cg_message = msg, cg_dispatch = m, cg_phase = Begun\<rparr>]\<rparr>)"
| advance: "cs_claims f = cs @ cg # cs' \<Longrightarrow> may_proceed (cs @ cs') cg \<Longrightarrow>
     claim_next rt cg (sys_db (cs_system f)) = Inl phase \<Longrightarrow>
     claim_step rt lib f (f\<lparr>cs_claims := cs @ cg\<lparr>cg_phase := phase\<rparr> # cs'\<rparr>)"
| acknowledge: "cs_claims f = cs @ cg # cs' \<Longrightarrow> may_proceed (cs @ cs') cg \<Longrightarrow> fresh 2 (cg_env cg) (cs_system f) \<Longrightarrow>
     claim_next rt cg (sys_db (cs_system f)) = Inr (Inr None, db', ns) \<Longrightarrow>
     sys_queue (cs_system f) = q @ cg_message cg # q' \<Longrightarrow>
     claim_step rt lib f \<lparr>cs_system = (cs_system f)\<lparr>sys_db := db', sys_queue := q @ q'\<rparr>, cs_claims = cs @ cs'\<rparr>"
| execute: "cs_claims f = cs @ cg # cs' \<Longrightarrow> may_proceed (cs @ cs') cg \<Longrightarrow> fresh 2 (cg_env cg) (cs_system f) \<Longrightarrow>
     claim_next rt cg (sys_db (cs_system f)) = Inr (Inr (Some claim), db', ns) \<Longrightarrow>
     sys_queue (cs_system f) = q @ cg_message cg # q' \<Longrightarrow>
     claim_step rt lib f \<lparr>cs_system = (cs_system f)\<lparr>sys_db := db', sys_queue := q @ q',
       sys_flights := sys_flights (cs_system f) @ [\<lparr>fl_message = cg_message cg, fl_claim = claim, fl_polls = []\<rparr>]\<rparr>,
       cs_claims = cs @ cs'\<rparr>"
| raise: "cs_claims f = cs @ cg # cs' \<Longrightarrow> may_proceed (cs @ cs') cg \<Longrightarrow>
     claim_next rt cg (sys_db (cs_system f)) = Inr (Inl x, db', ns) \<Longrightarrow>
     claim_step rt lib f \<lparr>cs_system = (cs_system f)\<lparr>sys_db := db'\<rparr>, cs_claims = cs @ cs'\<rparr>"
| roll_back: "cs_claims f = cs @ cg # cs' \<Longrightarrow> claim_step rt lib f (f\<lparr>cs_claims := cs @ cs'\<rparr>)"
| other: "step rt lib (cs_system f) s' \<Longrightarrow> \<not> starts rt (sys_db (cs_system f)) (sys_db s') \<Longrightarrow>
     keeps_locked_rows (cs_claims f) (sys_db (cs_system f)) (sys_db s') \<Longrightarrow> handled (cs_claims f) \<subseteq># mset (sys_queue s') \<Longrightarrow>
     claim_step rt lib f (f\<lparr>cs_system := s'\<rparr>)"

definition claim_reachable :: "runtime \<Rightarrow> text_lib \<Rightarrow> claim_system \<Rightarrow> bool" where
  "claim_reachable rt lib f \<longleftrightarrow> (claim_step rt lib)\<^sup>*\<^sup>* \<lparr>cs_system = initial_system, cs_claims = []\<rparr> f"

section \<open>What a claim may rely on\<close>

text \<open>The owner of the job never changes; a locked job stays as it was read; the count can only have become too high.\<close>

definition owner_of :: "database \<Rightarrow> uuid \<Rightarrow> uuid \<Rightarrow> bool" where
  "owner_of db i owner_id \<longleftrightarrow> (\<exists>r \<in> set (db_jobs db). job_id r = i \<and> job_owner_id r = owner_id)"

definition read_row :: "database \<Rightarrow> uuid \<Rightarrow> uuid \<Rightarrow> job_execution_dto \<Rightarrow> bool" where
  "read_row db i owner_id job \<longleftrightarrow>
     (\<exists>r \<in> set (db_jobs db). job_id r = i \<and> job_owner_id r = owner_id \<and> job_status r = QUEUED \<and> job = to_job_execution_dto r)"

fun phase_ok :: "database \<Rightarrow> uuid \<Rightarrow> claim_phase \<Rightarrow> bool" where
  "phase_ok db i Begun = True"
| "phase_ok db i (OwnerKnown owner_id) = owner_of db i owner_id"
| "phase_ok db i (OwnerLocked owner_id) = owner_of db i owner_id"
| "phase_ok db i (JobLocked owner_id job) = read_row db i owner_id job"
| "phase_ok db i (Counted owner_id job running_count) =
     (read_row db i owner_id job \<and> count_running_for_owner owner_id db \<le> running_count)"

definition locked_owners :: "claiming list \<Rightarrow> uuid list" where
  "locked_owners cgs = concat (map (\<lambda>c. case owner_lock (cg_phase c) of None \<Rightarrow> [] | Some owner_id \<Rightarrow> [owner_id]) cgs)"

definition claims_ok :: "runtime \<Rightarrow> database \<Rightarrow> claiming list \<Rightarrow> bool" where
  "claims_ok rt db cgs \<longleftrightarrow>
     distinct (locked_owners cgs) \<and>
     (\<forall>c \<in> set cgs. model_validate_json (rt_codec rt) (msg_body (cg_message c)) = Inr (cg_dispatch c) \<and>
        phase_ok db (dm_job_id (cg_dispatch c)) (cg_phase c))"

definition claim_system_ok :: "runtime \<Rightarrow> claim_system \<Rightarrow> bool" where
  "claim_system_ok rt f \<longleftrightarrow>
     system_ok rt (cs_system f) \<and> claims_ok rt (sys_db (cs_system f)) (cs_claims f) \<and>
     handled (cs_claims f) \<subseteq># mset (sys_queue (cs_system f))"

text \<open>Changes under which the knowledge of a claim is stable.\<close>

lemma phase_ok_stable:
  assumes ph: "phase_ok db i ph"
    and owners: "\<And>ow. owner_of db i ow \<Longrightarrow> owner_of db' i ow"
    and row: "\<And>r. r \<in> set (db_jobs db) \<Longrightarrow> job_lock ph = Some (job_id r) \<Longrightarrow> r \<in> set (db_jobs db')"
    and count: "\<And>ow. owner_lock ph = Some ow \<Longrightarrow> count_running_for_owner ow db' \<le> count_running_for_owner ow db"
  shows "phase_ok db' i ph"
proof (cases ph)
  case (JobLocked ow job)
  then show ?thesis using ph row by (auto simp: read_row_def)
next
  case (Counted ow job n)
  then show ?thesis using ph row order_trans [OF count, of ow n] by (auto simp: read_row_def)
qed (use ph owners in auto)

lemma step_keeps_owner:
  assumes c: "codec_ok (rt_codec rt)" and step: "step rt lib s s'" and ok: "system_ok rt s" and own: "owner_of (sys_db s) i ow"
  shows "owner_of (sys_db s') i ow"
proof -
  from own obtain r where r: "r \<in> set (db_jobs (sys_db s))" "job_id r = i" "job_owner_id r = ow" by (auto simp: owner_of_def)
  from run_follows [OF c ok r(1) r_into_rtranclp [of "step rt lib", OF step]] r(2,3) show ?thesis
    by (force simp: follows_def owner_of_def same_identity_def dest: moves_in_identity)
qed

lemma other_step_count:
  assumes c: "codec_ok (rt_codec rt)" and step: "step rt lib s s'" and ok: "system_ok rt s" and no: "\<not> starts rt (sys_db s) (sys_db s')"
  shows "count_running_for_owner ow (sys_db s') \<le> count_running_for_owner ow (sys_db s)"
  using step_kinds [OF c step ok]
proof (elim disjE)
  assume "evolves (Collect quiet) (sys_db s) (sys_db s')"
  then show ?thesis using evolves_running_mono [of "Collect quiet"] by (auto simp: count_running_for_owner_def)
next
  assume "\<exists>r. new_job r \<and> db_jobs (sys_db s') = db_jobs (sys_db s) @ [r]"
  then show ?thesis by (auto simp: count_running_for_owner_def rowcount_def new_job_def)
qed (use no in simp)

lemma claim_next_phase_ok:
  assumes ok: "db_ok c db" and ph: "phase_ok db (dm_job_id (cg_dispatch cg)) (cg_phase cg)" and go: "claim_next rt cg db = Inl phase"
  shows "phase_ok db (dm_job_id (cg_dispatch cg)) phase"
proof (cases "cg_phase cg")
  case Begun
  then show ?thesis using go
    by (auto simp: claim_next_def get_owner_id_def owner_of_def job_lookup_iff [OF db_ok_keys [OF ok]] split: option.splits)
next
  case (OwnerLocked ow)
  then obtain r where r: "r \<in> set (db_jobs db)" "job_id r = dm_job_id (cg_dispatch cg)" "job_owner_id r = ow"
    using ph by (auto simp: owner_of_def)
  then have "scalar_where (\<lambda>x. job_id x = dm_job_id (cg_dispatch cg)) (db_jobs db) = Some r"
    by (simp add: job_lookup_iff db_ok_keys [OF ok])
  then show ?thesis using go r OwnerLocked
    by (cases "job_status r") (auto simp: claim_next_def get_execution_candidate_for_update_def read_row_def split: if_splits)
qed (use ph go in \<open>auto simp: claim_next_def split: option.splits\<close>)

lemma claim_defer_settle:
  "with_uow (claim_defer rt e job) db =
    settle True (commit_ok e 0) None (defer_db rt e (je_id job) db)
      [job_notification (je_id job) (je_owner_id job) QUEUED (je_attempt_count job) (clock_now e 0)] None db"
  by (simp add: claim_defer_def uow_defs settle_def defer_db_def Let_def split_def split: option.split)

lemma claim_start_settle:
  assumes keys: "job_keys_ok db" and r: "r \<in> set (db_jobs db)" "job_status r = QUEUED"
  shows "with_uow (claim_start rt w e (to_job_execution_dto r)) db =
    settle True (commit_ok e 0) (Some (claim_of e r)) (start_db rt w e (job_id r) db)
      [job_notification (job_id r) (job_owner_id r) RUNNING (job_attempt_count r + 1) (clock_now e 0)] None db"
proof -
  have "fst (mark_running (job_id r) w tok now lease db)" for tok now lease
    unfolding mark_running_def using keys r by (subst fst_update_jobs) auto
  then show ?thesis
    by (simp add: claim_start_def uow_defs settle_def start_db_def claim_of_def Let_def split_def)
qed

text \<open>How a claim ends, on the database of its last statement.\<close>

lemma claim_ends:
  assumes ok: "db_ok c db" and ph: "phase_ok db (dm_job_id (cg_dispatch cg)) (cg_phase cg)"
    and m: "model_validate_json (rt_codec rt) (msg_body (cg_message cg)) = Inr (cg_dispatch cg)"
    and run: "claim_next rt cg db = Inr (res, db', ns)"
  obtains (ignored) "res = Inr None" "db' = db" "receive_message rt (cg_worker cg) (cg_env cg) (cg_message cg) db = (Settled Ack, db, [])"
  | (raised) x where "res = Inl x" "db' = db"
  | (deferred) r where "res = Inr None" "r \<in> set (db_jobs db)" "job_status r = QUEUED" "job_id r = dm_job_id (cg_dispatch cg)"
      "db' = defer_db rt (cg_env cg) (job_id r) db"
  | (started) r where "res = Inr (Some (claim_of (cg_env cg) r))" "r \<in> set (db_jobs db)" "job_status r = QUEUED"
      "job_id r = dm_job_id (cg_dispatch cg)" "owner_lock (cg_phase cg) = Some (job_owner_id r)"
      "count_running_for_owner (job_owner_id r) db < job_max_running_per_user (rt_settings rt)"
      "db' = start_db rt (cg_worker cg) (cg_env cg) (job_id r) db" "commit_ok (cg_env cg) 0"
proof (cases "cg_phase cg")
  case Begun
  then have "scalar_where (\<lambda>r. job_id r = dm_job_id (cg_dispatch cg)) (db_jobs db) = None" and res: "res = Inr None" "db' = db"
    using run by (auto simp: claim_next_def get_owner_id_def split: option.splits)
  from claim_missing [OF this(1)] m res show ?thesis by (intro ignored) (simp_all add: receive_message_def)
next
  case (OwnerKnown ow)
  then obtain u where "lock_by_id ow db = Some u" using ph db_ok_owner_lock [OF ok] by (fastforce simp: owner_of_def)
  then show ?thesis using run OwnerKnown by (simp add: claim_next_def)
next
  case (OwnerLocked ow)
  then obtain r where r: "r \<in> set (db_jobs db)" "job_id r = dm_job_id (cg_dispatch cg)" using ph by (auto simp: owner_of_def)
  then have look: "scalar_where (\<lambda>x. job_id x = dm_job_id (cg_dispatch cg)) (db_jobs db) = Some r"
    by (simp add: job_lookup_iff db_ok_keys [OF ok])
  have row: "job_ok r" using db_ok_row [OF ok r(1)] by simp
  have "job_status r \<noteq> QUEUED"
  proof
    assume queued: "job_status r = QUEUED"
    then have "job_attempt_count r + 1 \<le> 4" using row by (simp add: job_ok_def)
    then show False using run look OwnerLocked queued max_total_attempts_row [OF row]
      by (simp add: claim_next_def get_execution_candidate_for_update_def)
  qed
  moreover have "res = Inr None \<and> db' = db" using run look OwnerLocked calculation
    by (cases "job_status r") (simp_all add: claim_next_def get_execution_candidate_for_update_def)
  ultimately have "job_status r \<noteq> QUEUED \<and> res = Inr None \<and> db' = db" by simp
  then show ?thesis using claim_execution_eq [OF ok r] m by (intro ignored) (simp_all add: receive_message_def)
next
  case (JobLocked ow job)
  then show ?thesis using run by (simp add: claim_next_def)
next
  case (Counted ow job n)
  then obtain r where r: "r \<in> set (db_jobs db)" "job_id r = dm_job_id (cg_dispatch cg)" "job_owner_id r = ow" "job_status r = QUEUED"
    and job: "job = to_job_execution_dto r" and n: "count_running_for_owner ow db \<le> n" using ph by (auto simp: read_row_def)
  consider "job_max_running_per_user (rt_settings rt) \<le> n" "with_uow (claim_defer rt (cg_env cg) job) db = (res, db', ns)"
    | "n < job_max_running_per_user (rt_settings rt)" "with_uow (claim_start rt (cg_worker cg) (cg_env cg) job) db = (res, db', ns)"
    using run Counted by (simp add: claim_next_def split: if_splits)
  then show ?thesis
  proof cases
    case 1
    then show ?thesis using deferred [of r] raised [of DatabaseError] r unfolding claim_defer_settle job settle_def
      by (auto split: if_splits)
  next
    case 2
    then show ?thesis using started [of r] raised [of DatabaseError] r n Counted
      unfolding job claim_start_settle [OF db_ok_keys [OF ok] r(1,4)] settle_def by (auto split: if_splits)
  qed
qed

section \<open>The invariant\<close>

lemma claims_ok_member:
  assumes "claims_ok rt db (cs @ cg # cs')"
  shows "phase_ok db (dm_job_id (cg_dispatch cg)) (cg_phase cg)"
    and "model_validate_json (rt_codec rt) (msg_body (cg_message cg)) = Inr (cg_dispatch cg)"
  using assms by (simp_all add: claims_ok_def)

lemma claims_ok_drop: "claims_ok rt db (cs @ cg # cs') \<Longrightarrow> claims_ok rt db (cs @ cs')"
  by (auto simp: claims_ok_def locked_owners_def)

lemma claims_ok_same_jobs: "claims_ok rt db cgs \<Longrightarrow> db_jobs db' = db_jobs db \<Longrightarrow> claims_ok rt db' cgs"
proof -
  assume "db_jobs db' = db_jobs db"
  then have "phase_ok db' i ph = phase_ok db i ph" for i ph
    by (cases ph) (auto simp: owner_of_def read_row_def count_running_for_owner_def)
  then show "claims_ok rt db cgs \<Longrightarrow> claims_ok rt db' cgs" by (simp add: claims_ok_def)
qed

lemma advance_claims_ok:
  assumes ok: "db_ok c db" and cgs: "claims_ok rt db (cs @ cg # cs')" and may: "may_proceed (cs @ cs') cg"
    and go: "claim_next rt cg db = Inl phase"
  shows "claims_ok rt db (cs @ cg\<lparr>cg_phase := phase\<rparr> # cs')"
proof -
  note ph = claims_ok_member(1) [OF cgs]
  have "owner_lock phase = owner_lock (cg_phase cg) \<or>
      (\<exists>ow. owner_lock phase = Some ow \<and> owner_lock (cg_phase cg) = None \<and> (\<forall>c \<in> set (cs @ cs'). owner_lock (cg_phase c) \<noteq> Some ow))"
    using go may by (cases "cg_phase cg") (auto simp: claim_next_def may_proceed_def split: option.splits if_splits)
  then have "distinct (locked_owners (cs @ cg\<lparr>cg_phase := phase\<rparr> # cs'))"
    using cgs by (auto simp: claims_ok_def locked_owners_def split: option.splits)
  then show ?thesis using cgs claim_next_phase_ok [OF ok ph go] by (auto simp: claims_ok_def)
qed

text \<open>A start leaves the other claims alone: they hold the locks of other owners, and so of other jobs.\<close>

lemma start_claims_ok:
  assumes ok: "db_ok c db" and cgs: "claims_ok rt db (cs @ cg # cs')"
    and r: "r \<in> set (db_jobs db)" "job_status r = QUEUED" and lock: "owner_lock (cg_phase cg) = Some (job_owner_id r)"
  shows "claims_ok rt (start_db rt w e (job_id r) db) (cs @ cs')"
proof -
  let ?d = "start_db rt w e (job_id r) db"
  note keys = db_ok_keys [OF ok]
  have "phase_ok ?d (dm_job_id (cg_dispatch x)) (cg_phase x)" if x: "x \<in> set (cs @ cs')" for x
  proof (rule phase_ok_stable)
    show ph: "phase_ok db (dm_job_id (cg_dispatch x)) (cg_phase x)" using x cgs by (auto simp: claims_ok_def)
    have apart: "ow \<noteq> job_owner_id r" if "owner_lock (cg_phase x) = Some ow" for ow
      using that lock cgs x by (auto simp: claims_ok_def locked_owners_def split: option.splits)
    show "count_running_for_owner ow ?d \<le> count_running_for_owner ow db" if "owner_lock (cg_phase x) = Some ow" for ow
      using apart [OF that] by (simp add: start_count [OF keys r])
    fix y assume y: "y \<in> set (db_jobs db)" "job_lock (cg_phase x) = Some (job_id y)"
    then have "\<exists>ow. owner_lock (cg_phase x) = Some ow \<and> job_owner_id y = ow"
      using ph by (cases "cg_phase x") (auto simp: read_row_def dest: job_row_unique [OF keys _ y(1)])
    then have "job_id y \<noteq> job_id r" using apart job_row_unique [OF keys y(1) r(1)] by auto
    then show "y \<in> set (db_jobs ?d)" using y(1) by (auto simp: start_db_def mark_running_def snd_update_jobs set_update_where)
  next
    have ev: "evolves {Start (uuid4 e 0)} db ?d" using start_db_safe [OF ok r] by (simp add: safe_def)
    show "owner_of ?d i ow" if "owner_of db i ow" for i ow
      using that evolves_forth [OF ev] by (metis (no_types, lifting) moves_in_identity owner_of_def same_identity_def)
  qed
  then show ?thesis using claims_ok_drop [OF cgs] by (auto simp: claims_ok_def)
qed

lemma handled_drop: "handled (cs @ cg # cs') \<subseteq># q \<Longrightarrow> handled (cs @ cs') \<subseteq># q"
  by (auto intro: subset_mset.order_trans [OF mset_subset_eq_add_right [of _ "{#cg_message cg#}"]])

lemma claim_raises:
  assumes ok: "db_ok c db" and cgs: "claims_ok rt db (cs @ cg # cs')" and run: "claim_next rt cg db = Inr (Inl x, db', ns)"
  shows "db' = db"
  using ok claims_ok_member [OF cgs] run by (cases rule: claim_ends) auto

lemma handled_ended:
  assumes "handled (cs @ cg # cs') \<subseteq># mset (q @ cg_message cg # q')"
  shows "handled (cs @ cs') \<subseteq># mset (q @ q')"
  using assms by simp

lemma only_carried:
  "model_validate_json c (msg_body msg) = Inr m \<Longrightarrow> carries c j msg \<Longrightarrow> j = dm_job_id m"
  by (auto simp: carries_def)

lemma acknowledge_ok:
  assumes c: "codec_ok (rt_codec rt)" and ok: "system_ok rt s" and cgs: "claims_ok rt (sys_db s) (cs @ cg # cs')"
    and fresh: "fresh 2 (cg_env cg) s" and q: "sys_queue s = q @ cg_message cg # q'"
    and run: "claim_next rt cg (sys_db s) = Inr (Inr None, db', ns)"
  shows "system_ok rt (s\<lparr>sys_db := db', sys_queue := q @ q'\<rparr>) \<and> claims_ok rt db' (cs @ cs')"
proof -
  note db = system_ok_parts(1) [OF ok]
  note m = claims_ok_member(2) [OF cgs]
  from db claims_ok_member [OF cgs] run show ?thesis
  proof (cases rule: claim_ends)
    case ignored
    then show ?thesis using acked_ok [OF c ok fresh q ignored(3)] claims_ok_drop [OF cgs] by simp
  next
    case (deferred r)
    have "safe (rt_codec rt) {} {} (sys_db s) db' \<and> awaits (job_id r) db'"
      using defer_db_safe [OF c db, of "job_id r" "cg_env cg"] fresh_event [OF fresh, of 1] deferred by (auto simp: job_exists_def)
    then have "system_ok rt (s\<lparr>sys_db := db', sys_queue := q @ q'\<rparr>)"
      using acked_safe_ok [OF ok q, of db' "job_id r"] only_carried [OF m] deferred(4) by auto
    then show ?thesis using claims_ok_same_jobs [OF claims_ok_drop [OF cgs]] deferred by simp
  qed auto
qed

lemma execute_ok:
  assumes c: "codec_ok (rt_codec rt)" and ok: "system_ok rt s" and cgs: "claims_ok rt (sys_db s) (cs @ cg # cs')"
    and fresh: "fresh 2 (cg_env cg) s" and q: "sys_queue s = q @ cg_message cg # q'"
    and run: "claim_next rt cg (sys_db s) = Inr (Inr (Some claim), db', ns)"
  shows "system_ok rt (s\<lparr>sys_db := db', sys_queue := q @ q',
      sys_flights := sys_flights s @ [\<lparr>fl_message = cg_message cg, fl_claim = claim, fl_polls = []\<rparr>]\<rparr>) \<and>
    claims_ok rt db' (cs @ cs')"
proof -
  note db = system_ok_parts(1) [OF ok]
  note m = claims_ok_member(2) [OF cgs]
  from db claims_ok_member [OF cgs] run show ?thesis
  proof (cases rule: claim_ends)
    case (started r)
    then show ?thesis
      using claimed_ok [OF ok fresh q started(2,3), of "cg_worker cg"] only_carried [OF m] start_claims_ok [OF db cgs started(2,3,5)] by simp
  qed auto
qed

lemma claim_step_ok:
  assumes c: "codec_ok (rt_codec rt)" and step: "claim_step rt lib f f'" and ok: "claim_system_ok rt f"
  shows "claim_system_ok rt f'"
  using step ok
proof (induction rule: claim_step.induct)
  case (deliver msg f m w e)
  then show ?case by (auto simp: claim_system_ok_def claims_ok_def locked_owners_def)
next
  case (advance f cs cg cs' phase)
  then show ?case
    using advance_claims_ok [OF system_ok_parts(1), of rt "cs_system f" rt cs cg cs' phase] by (simp add: claim_system_ok_def)
next
  case (acknowledge f cs cg cs' db' ns q q')
  then show ?case
    using acknowledge_ok [OF c, of "cs_system f" cs cg cs' q q' db' ns] handled_ended [of cs cg cs' q q'] by (simp add: claim_system_ok_def)
next
  case (execute f cs cg cs' claim db' ns q q')
  then show ?case
    using execute_ok [OF c, of "cs_system f" cs cg cs' q q' claim db' ns] handled_ended [of cs cg cs' q q'] by (simp add: claim_system_ok_def)
next
  case (raise f cs cg cs' x db' ns)
  then have ok: "system_ok rt (cs_system f)" and cgs: "claims_ok rt (sys_db (cs_system f)) (cs @ cg # cs')" by (auto simp: claim_system_ok_def)
  have "db' = sys_db (cs_system f)" using claim_raises [OF system_ok_parts(1) [OF ok] cgs raise.hyps(3)] .
  then show ?case using raise ok claims_ok_drop [OF cgs] handled_drop [of cs cg cs'] by (simp add: claim_system_ok_def)
next
  case (roll_back f cs cg cs')
  then show ?case
    using claims_ok_drop [of rt _ cs cg cs'] handled_drop [of cs cg cs'] by (simp add: claim_system_ok_def)
next
  case (other f s')
  then have ok: "system_ok rt (cs_system f)" and cgs: "claims_ok rt (sys_db (cs_system f)) (cs_claims f)" by (auto simp: claim_system_ok_def)
  have "phase_ok (sys_db s') (dm_job_id (cg_dispatch x)) (cg_phase x)" if x: "x \<in> set (cs_claims f)" for x
  proof (rule phase_ok_stable)
    show "phase_ok (sys_db (cs_system f)) (dm_job_id (cg_dispatch x)) (cg_phase x)" using x cgs by (simp add: claims_ok_def)
    show "r \<in> set (db_jobs (sys_db s'))" if "r \<in> set (db_jobs (sys_db (cs_system f)))" "job_lock (cg_phase x) = Some (job_id r)" for r
      using other.hyps(3) x that by (auto simp: keeps_locked_rows_def)
  qed (auto intro: step_keeps_owner [OF c other.hyps(1) ok] other_step_count [OF c other.hyps(1) ok other.hyps(2)])
  then show ?case using other cgs step_ok [OF c other.hyps(1) ok] by (auto simp: claim_system_ok_def claims_ok_def)
qed

lemma claim_reachable_ok:
  assumes "codec_ok (rt_codec rt)" and "claim_reachable rt lib f"
  shows "claim_system_ok rt f"
  using assms(2) unfolding claim_reachable_def
proof (induction rule: rtranclp_induct)
  case base
  show ?case using initial_ok by (simp add: claim_system_ok_def claims_ok_def locked_owners_def)
next
  case (step f g)
  then show ?case using claim_step_ok [OF assms(1)] by blast
qed

text \<open>
  Seen through the system alone, the interleaved claims make the steps of \<open>System_Model\<close>, with one
  exception: a claim that counted the limit defers its job even if a running job has ended since. That
  delays the job and harms nothing, as the job awaits dispatch afterwards.
\<close>

definition late_deferral :: "runtime \<Rightarrow> system \<Rightarrow> system \<Rightarrow> bool" where
  "late_deferral rt s s' \<longleftrightarrow>
     (\<exists>r \<in> set (db_jobs (sys_db s)). \<exists>e q msg q'. job_status r = QUEUED \<and> sys_queue s = q @ msg # q' \<and>
        carries (rt_codec rt) (job_id r) msg \<and> s' = s\<lparr>sys_db := defer_db rt e (job_id r) (sys_db s), sys_queue := q @ q'\<rparr>)"

lemma claim_step_atomic:
  assumes step: "claim_step rt lib f f'" and ok: "claim_system_ok rt f"
  shows "cs_system f' = cs_system f \<or> step rt lib (cs_system f) (cs_system f') \<or> late_deferral rt (cs_system f) (cs_system f')"
  using step ok
proof (induction rule: claim_step.induct)
  case (acknowledge f cs cg cs' db' ns q q')
  then have ok: "system_ok rt (cs_system f)" and cgs: "claims_ok rt (sys_db (cs_system f)) (cs @ cg # cs')" by (simp_all add: claim_system_ok_def)
  note db = system_ok_parts(1) [OF ok] and m = claims_ok_member(2) [OF cgs]
  from db claims_ok_member [OF cgs] acknowledge.hyps(4) show ?case
  proof (cases rule: claim_ends)
    case ignored
    then show ?thesis using step.receive_acked [OF acknowledge.hyps(3,5) ignored(3), of lib] by simp
  next
    case (deferred r)
    then have "carries (rt_codec rt) (job_id r) (cg_message cg)" using m by (simp add: carries_def)
    then have "late_deferral rt (cs_system f) ((cs_system f)\<lparr>sys_db := db', sys_queue := q @ q'\<rparr>)"
      unfolding late_deferral_def deferred(5) using deferred(2,3) acknowledge.hyps(5) by blast
    then show ?thesis by simp
  qed auto
next
  case (execute f cs cg cs' claim db' ns q q')
  then have ok: "system_ok rt (cs_system f)" and cgs: "claims_ok rt (sys_db (cs_system f)) (cs @ cg # cs')" by (simp_all add: claim_system_ok_def)
  note db = system_ok_parts(1) [OF ok] and m = claims_ok_member(2) [OF cgs]
  from db claims_ok_member [OF cgs] execute.hyps(4) show ?case
  proof (cases rule: claim_ends)
    case (started r)
    then have "\<exists>ns. receive_message rt (cg_worker cg) (cg_env cg) (cg_message cg) (sys_db (cs_system f)) = (Claimed claim, db', ns)"
      using started m claim_execution_eq [OF db started(2,4), of rt "cg_worker cg" "cg_env cg"] by (simp add: receive_message_def settle_def)
    then show ?thesis using step.receive_claimed [OF execute.hyps(3,5)] by auto
  qed auto
next
  case (raise f cs cg cs' x db' ns)
  then show ?case using claim_raises [OF system_ok_parts(1) _ raise.hyps(3)] by (auto simp: claim_system_ok_def)
qed simp_all

text \<open>
  Without the lock of the owner's row the decision would be worthless: two claims that both counted
  before either committed start one job too many.
\<close>

lemma unlocked_claims_exceed_limit:
  assumes ok: "db_ok c db" and r: "r1 \<in> set (db_jobs db)" "r2 \<in> set (db_jobs db)" "job_id r1 \<noteq> job_id r2"
    and queued: "job_status r1 = QUEUED" "job_status r2 = QUEUED" and owner: "job_owner_id r2 = job_owner_id r1"
    and last: "count_running_for_owner (job_owner_id r1) db = job_max_running_per_user (rt_settings rt) - 1"
    and cg1: "cg_phase cg1 = Counted (job_owner_id r1) (to_job_execution_dto r1) (count_running_for_owner (job_owner_id r1) db)" "commit_ok (cg_env cg1) 0"
    and cg2: "cg_phase cg2 = Counted (job_owner_id r1) (to_job_execution_dto r2) (count_running_for_owner (job_owner_id r1) db)" "commit_ok (cg_env cg2) 0"
  shows "\<exists>c1 db1 n1 c2 db2 n2. claim_next rt cg1 db = Inr (Inr (Some c1), db1, n1) \<and> claim_next rt cg2 db1 = Inr (Inr (Some c2), db2, n2) \<and>
    count_running_for_owner (job_owner_id r1) db2 = job_max_running_per_user (rt_settings rt) + 1"
proof -
  let ?d1 = "start_db rt (cg_worker cg1) (cg_env cg1) (job_id r1) db"
  have safe: "safe c {Start (uuid4 (cg_env cg1) 0)} {} db ?d1" by (rule start_db_safe [OF ok r(1) queued(1)])
  note keys = db_ok_keys [OF ok] db_ok_keys [OF safe_db_ok [OF ok safe]]
  have r2: "r2 \<in> set (db_jobs ?d1)" using r by (auto simp: start_db_def mark_running_def snd_update_jobs set_update_where)
  show ?thesis
    using cg1 cg2 last owner start_count [OF keys(1) r(1) queued(1), of "job_owner_id r1" rt "cg_worker cg1" "cg_env cg1"]
      start_count [OF keys(2) r2 queued(2), of "job_owner_id r1" rt "cg_worker cg2" "cg_env cg2"]
      claim_start_settle [OF keys(1) r(1) queued(1), of rt "cg_worker cg1" "cg_env cg1"]
      claim_start_settle [OF keys(2) r2 queued(2), of rt "cg_worker cg2" "cg_env cg2"]
    by (simp add: claim_next_def settle_def)
qed

section \<open>The running-job limit under interleaving\<close>

text \<open>
  C11: the locks of a claim are enough. Let any number of claims be under way, their statements
  interleaved with each other and with the transactions of everybody else, with failures at any
  point: no owner ever has more than \<^verbatim>\<open>JOB_MAX_RUNNING_PER_USER\<close> running jobs, no pending or queued job is
  left without a way to be dispatched, and a claim that has counted fewer than the limit still
  finds room and its job queued when it comes to start it.
\<close>

theorem interleaved_claims_respect_limit:
  assumes "codec_ok (rt_codec rt)" and "settings_bounds (rt_settings rt)" and "claim_reachable rt lib f"
  shows "count_running_for_owner owner (sys_db (cs_system f)) \<le> job_max_running_per_user (rt_settings rt) \<and>
    (\<forall>r \<in> set (db_jobs (sys_db (cs_system f))). row_dispatched (rt_codec rt) (sys_db (cs_system f)) (sys_queue (cs_system f)) r) \<and>
    (\<forall>cg \<in> set (cs_claims f). \<forall>owner_id job n.
       cg_phase cg = Counted owner_id job n \<and> n < job_max_running_per_user (rt_settings rt) \<longrightarrow>
       count_running_for_owner owner_id (sys_db (cs_system f)) < job_max_running_per_user (rt_settings rt) \<and>
       (\<exists>r \<in> set (db_jobs (sys_db (cs_system f))). job = to_job_execution_dto r \<and> job_status r = QUEUED))"
proof -
  from claim_reachable_ok [OF assms(1,3)] have ok: "system_ok rt (cs_system f)" and cgs: "claims_ok rt (sys_db (cs_system f)) (cs_claims f)"
    by (simp_all add: claim_system_ok_def)
  have "1 \<le> job_max_running_per_user (rt_settings rt)" using assms(2) by (simp add: settings_bounds_def)
  moreover have "count_running_for_owner owner (sys_db (cs_system f)) \<le> max 0 (job_max_running_per_user (rt_settings rt))"
    using system_ok_parts(3) [OF ok] by (simp add: capacity_ok_def)
  moreover have "\<forall>r \<in> set (db_jobs (sys_db (cs_system f))). row_dispatched (rt_codec rt) (sys_db (cs_system f)) (sys_queue (cs_system f)) r"
    using system_ok_parts(2) [OF ok] by (simp add: dispatch_ok_def)
  moreover have "count_running_for_owner owner_id (sys_db (cs_system f)) < job_max_running_per_user (rt_settings rt) \<and>
      (\<exists>r \<in> set (db_jobs (sys_db (cs_system f))). job = to_job_execution_dto r \<and> job_status r = QUEUED)"
    if "cg \<in> set (cs_claims f)" "cg_phase cg = Counted owner_id job n" "n < job_max_running_per_user (rt_settings rt)" for cg owner_id job n
    using that cgs by (fastforce simp: claims_ok_def read_row_def)
  ultimately show ?thesis by auto
qed

definition demo_claiming :: "claim_phase \<Rightarrow> claiming" where
  "demo_claiming phase =
     \<lparr>cg_worker = ''worker-1'', cg_env = demo_env 4, cg_message = demo_message, cg_dispatch = demo_dispatch, cg_phase = phase\<rparr>"

lemma demo_claim_statements:
  "claim_next demo_rt (demo_claiming Begun) demo_db3 = Inl (OwnerKnown 100)"
  "claim_next demo_rt (demo_claiming (OwnerKnown 100)) demo_db3 = Inl (OwnerLocked 100)"
  "claim_next demo_rt (demo_claiming (OwnerLocked 100)) demo_db3 = Inl (JobLocked 100 (to_job_execution_dto demo_queued))"
  "claim_next demo_rt (demo_claiming (JobLocked 100 (to_job_execution_dto demo_queued))) demo_db3 =
     Inl (Counted 100 (to_job_execution_dto demo_queued) 0)"
  by (simp_all add: claim_next_def demo_claiming_def demo_dispatch_def get_owner_id_def lock_by_id_def scalar_where_def demo_owner_def
      get_execution_candidate_for_update_def max_total_attempts_def MAX_TOTAL_JOB_ATTEMPTS_def count_running_for_owner_def rowcount_def)

lemma demo_claim_reachable:
  "claim_reachable demo_rt demo_lib
     \<lparr>cs_system = demo_s3, cs_claims = [demo_claiming (Counted 100 (to_job_execution_dto demo_queued) 0)]\<rparr>"
proof -
  let ?F = "\<lambda>s. \<lparr>cs_system = s, cs_claims = []\<rparr>" and ?G = "\<lambda>ph. \<lparr>cs_system = demo_s3, cs_claims = [demo_claiming ph]\<rparr>"
  let ?R = "claim_step demo_rt demo_lib"
  have other: "?R (?F s) (?F s')" if "step demo_rt demo_lib s s'" "\<And>r. r \<in> set (db_jobs (sys_db s)) \<Longrightarrow> job_status r \<noteq> QUEUED" for s s'
    using claim_step.other [of demo_rt demo_lib "?F s" s'] that by (auto simp: starts_def keeps_locked_rows_def)
  have run: "?R\<^sup>*\<^sup>* (?F initial_system) (?F demo_s3)"
    using other [OF demo_step1] other [OF demo_step2] other [OF demo_step3]
    by (force simp: initial_system_def empty_database_def demo_db1_def intro: rtranclp.rtrancl_into_rtrancl)
  have deliver: "?R (?F demo_s3) (?G Begun)"
    using claim_step.deliver [of demo_message "?F demo_s3" demo_rt demo_dispatch demo_lib "''worker-1''" "demo_env 4"]
    by (simp add: demo_message_valid demo_claiming_def)
  have advance: "?R (?G ph) (?G ph')" if "claim_next demo_rt (demo_claiming ph) demo_db3 = Inl ph'" for ph ph'
    using claim_step.advance [of "?G ph" "[]" "demo_claiming ph" "[]" demo_rt ph' demo_lib] that
    by (simp add: may_proceed_def demo_claiming_def split: claim_phase.split)
  note go = advance [OF demo_claim_statements(1)] advance [OF demo_claim_statements(2)] advance [OF demo_claim_statements(3)]
    advance [OF demo_claim_statements(4)]
  show ?thesis unfolding claim_reachable_def
    by (rule rtranclp.rtrancl_into_rtrancl [OF rtranclp.rtrancl_into_rtrancl [OF rtranclp.rtrancl_into_rtrancl [OF
          rtranclp.rtrancl_into_rtrancl [OF rtranclp.rtrancl_into_rtrancl [OF run deliver] go(1)] go(2)] go(3)] go(4)])
qed

theorem interleaved_claims_respect_limit_witness:
  "count_running_for_owner 100 demo_db3 < 3 \<and> (\<exists>r \<in> set (db_jobs demo_db3). to_job_execution_dto demo_queued = to_job_execution_dto r \<and> job_status r = QUEUED)"
  using interleaved_claims_respect_limit [OF _ _ demo_claim_reachable, of 100] demo_codec_ok demo_settings_ok
  by (auto simp: demo_claiming_def)

end
