(* ===== verification/Job_Ranking.thy ===== *)
theory Job_Ranking
  imports System_History Example_Run
begin

text \<open>
  Why no job is worked on for ever. The moves of a row (\<open>moves\<close>, the conditional updates of
  \<^verbatim>\<open>src/app/repositories/jobs.py\<close> as the services, workers and recovery use them) lower a number that
  starts at 10; so on any run of the system, however long and whatever fails in it, the row of a job
  changes only a bounded number of times. The locale states this for an observation whose every change
  lowers a weight.
\<close>

section \<open>Observations whose changes are ranked\<close>

locale ranked_observation =
  fixes good :: "'s \<Rightarrow> bool"
    and trans :: "'s \<Rightarrow> 's \<Rightarrow> bool"
    and obs :: "'s \<Rightarrow> 'a"
    and weight :: "'a \<Rightarrow> nat"
  assumes good_step: "good s \<Longrightarrow> trans s s' \<Longrightarrow> good s'"
    and ranked_step: "good s \<Longrightarrow> trans s s' \<Longrightarrow> obs s' \<noteq> obs s \<Longrightarrow> weight (obs s') < weight (obs s)"
begin

lemma good_run: "good (run 0) \<Longrightarrow> (\<And>k. trans (run k) (run (Suc k))) \<Longrightarrow> good (run n)"
  by (induction n) (auto intro: good_step)

lemma changes_before:
  assumes "good (run 0)" and "\<And>k. trans (run k) (run (Suc k))"
  shows "card {k. k < n \<and> obs (run (Suc k)) \<noteq> obs (run k)} + weight (obs (run n)) \<le> weight (obs (run 0))"
proof (induction n)
  case (Suc n)
  let ?C = "\<lambda>n. {k. k < n \<and> obs (run (Suc k)) \<noteq> obs (run k)}"
  have "?C (Suc n) = ?C n \<union> (if obs (run (Suc n)) \<noteq> obs (run n) then {n} else {})" by (auto simp: less_Suc_eq)
  moreover have "weight (obs (run (Suc n))) < weight (obs (run n))" if "obs (run (Suc n)) \<noteq> obs (run n)"
    using ranked_step [OF good_run [OF assms] assms(2) that] .
  ultimately show ?case using Suc.IH by (cases "obs (run (Suc n)) = obs (run n)") auto
qed simp

lemma changes_bounded:
  assumes "good (run 0)" and "\<And>k. trans (run k) (run (Suc k))"
  shows "finite {k. obs (run (Suc k)) \<noteq> obs (run k)} \<and> card {k. obs (run (Suc k)) \<noteq> obs (run k)} \<le> weight (obs (run 0))"
proof (rule finite_if_finite_subsets_card_bdd)
  fix G assume G: "G \<subseteq> {k. obs (run (Suc k)) \<noteq> obs (run k)}" "finite G"
  then obtain n where "G \<subseteq> {..<n}" by (auto simp: finite_nat_set_iff_bounded)
  with G(1) have "card G \<le> card {k. k < n \<and> obs (run (Suc k)) \<noteq> obs (run k)}" by (intro card_mono) auto
  also have "\<dots> \<le> weight (obs (run 0))" using changes_before [OF assms, of n] by simp
  finally show "card G \<le> weight (obs (run 0))" .
qed

lemma eventually_constant:
  assumes "good (run 0)" and "\<And>k. trans (run k) (run (Suc k))"
  shows "\<exists>n. \<forall>k \<ge> n. obs (run k) = obs (run n)"
proof -
  obtain n where n: "{k. obs (run (Suc k)) \<noteq> obs (run k)} \<subseteq> {..<n}"
    using conjunct1 [OF changes_bounded [OF assms]] unfolding finite_nat_set_iff_bounded by auto
  have "obs (run k) = obs (run n)" if "n \<le> k" for k
    using that
  proof (induction rule: dec_induct)
    case (step m)
    have "m \<notin> {k. obs (run (Suc k)) \<noteq> obs (run k)}" using subsetD [OF n, of m] step.hyps by (metis lessThan_iff leD)
    then show ?case using step.IH by simp
  qed simp
  then show ?thesis by blast
qed

end

section \<open>The weight of a row\<close>

text \<open>The status changes that are still possible, and one for a request to cancel; a job to come may also be created.\<close>

definition status_rank :: "job \<Rightarrow> nat" where
  "status_rank r =
     (case job_status r of
        PENDING \<Rightarrow> 9
      | QUEUED \<Rightarrow> 2 * nat (4 - job_attempt_count r)
      | RUNNING \<Rightarrow> 2 * nat (4 - job_attempt_count r) + 1
      | _ \<Rightarrow> 0)"

definition row_weight :: "job \<Rightarrow> nat" where
  "row_weight r = status_rank r + (if job_cancel_requested_at r = None then 1 else 0)"

fun job_weight :: "job option \<Rightarrow> nat" where
  "job_weight None = 11"
| "job_weight (Some r) = row_weight r"

definition row_of :: "uuid \<Rightarrow> system \<Rightarrow> job option" where
  "row_of i s = find (\<lambda>r. job_id r = i) (db_jobs (sys_db s))"

lemma moves_ranked: "moves l r r' \<Longrightarrow> job_ok r \<Longrightarrow> row_weight r' < row_weight r"
  by (induction rule: moves.induct) (auto simp: row_weight_def status_rank_def job_ok_def nat_diff_distrib' split: JobStatus.splits)

lemma moves_in_ranked:
  assumes "moves_in L r r'" and "job_ok r"
  shows "r' = r \<or> row_weight r' < row_weight r"
proof -
  from assms(1) have "job_ok r' \<and> (r' = r \<or> row_weight r' < row_weight r)"
  proof (induction rule: moves_in_induct)
    case (step s l s')
    then show ?case using moves_ranked [of l s s'] moves_ok [of l s s'] by auto
  qed (use assms(2) in simp)
  then show ?thesis ..
qed

lemma row_weight_new: "new_job r \<Longrightarrow> row_weight r = 10"
  by (simp add: new_job_def row_weight_def status_rank_def)

lemma row_weight_le: "job_ok r \<Longrightarrow> row_weight r \<le> 10"
  by (auto simp: job_ok_def row_weight_def status_rank_def split: JobStatus.splits)

lemma row_of_in: "row_of i s = Some r \<Longrightarrow> r \<in> set (db_jobs (sys_db s))"
  by (auto simp: row_of_def find_Some_iff)

lemma row_of_evolves:
  assumes "evolves L (sys_db s) (sys_db s')"
  shows "rel_option (moves_in L) (row_of i s) (row_of i s')"
  using assms unfolding evolves_def row_of_def
  by (induction rule: list_all2_induct) (auto dest: moves_in_identity simp: same_identity_def)

interpretation job_rows: ranked_observation "\<lambda>s. codec_ok (rt_codec rt) \<and> system_ok rt s" "step rt lib" "row_of i" job_weight
  for rt lib i
proof
  fix s s' assume good: "codec_ok (rt_codec rt) \<and> system_ok rt s" and step: "step rt lib s s'"
  from good step_ok [OF _ step] show "codec_ok (rt_codec rt) \<and> system_ok rt s'" by simp
  assume changed: "row_of i s' \<noteq> row_of i s"
  from good have ok: "job_ok r" if "row_of i s = Some r" for r
    using that db_ok_row [OF system_ok_parts(1), of rt s r] row_of_in by blast
  from step_jobs [OF conjunct1 [OF good] step conjunct2 [OF good]]
  show "job_weight (row_of i s') < job_weight (row_of i s)"
  proof
    assume "evolves UNIV (sys_db s) (sys_db s')"
    from row_of_evolves [OF this, of i] changed ok show ?thesis
      by (cases "row_of i s"; cases "row_of i s'") (auto dest: moves_in_ranked)
  next
    assume "\<exists>r. new_job r \<and> db_jobs (sys_db s') = db_jobs (sys_db s) @ [r]"
    then obtain r where r: "new_job r" "db_jobs (sys_db s') = db_jobs (sys_db s) @ [r]" by blast
    have "find P (xs @ [r]) = (case find P xs of Some x \<Rightarrow> Some x | None \<Rightarrow> if P r then Some r else None)" for P :: "job \<Rightarrow> bool" and xs
      by (induction xs) auto
    then show ?thesis using changed row_weight_new [OF r(1)] r(2) by (auto simp: row_of_def split: option.splits if_splits)
  qed
qed

text \<open>
  C26: every job comes to rest. On any endless run of the system from a reachable state, with any failures,
  redeliveries, recoveries and cancellations, the row of a job changes at most 11 times (its creation, at most
  9 changes of status and one request to cancel), and from some point on it never changes again.
\<close>

theorem job_comes_to_rest:
  assumes "codec_ok (rt_codec rt)" and "reachable rt lib (run 0)" and "\<And>k. step rt lib (run k) (run (Suc k))"
  shows "card {k. row_of i (run (Suc k)) \<noteq> row_of i (run k)} \<le> 11 \<and> finite {k. row_of i (run (Suc k)) \<noteq> row_of i (run k)} \<and>
    (\<exists>n. \<forall>k \<ge> n. row_of i (run k) = row_of i (run n))"
proof -
  have good: "codec_ok (rt_codec rt) \<and> system_ok rt (run 0)" using assms(1) reachable_system_ok [OF assms(1,2)] by simp
  have "job_weight (row_of i (run 0)) \<le> 11"
  proof (cases "row_of i (run 0)")
    case (Some r)
    from db_ok_row [OF system_ok_parts(1) [OF conjunct2 [OF good]] row_of_in [OF Some]] have "row_weight r \<le> 10"
      by (simp add: row_weight_le)
    then show ?thesis using Some by simp
  qed simp
  then show ?thesis
    using job_rows.changes_bounded [of rt run lib i, OF good assms(3)] job_rows.eventually_constant [of rt run lib i, OF good assms(3)]
    by (auto intro: order_trans)
qed

text \<open>A run for illustration: a worker claims the job and dies; from then on only messages from elsewhere arrive.\<close>

definition demo_endless :: "nat \<Rightarrow> system" where
  "demo_endless k = (case k of 0 \<Rightarrow> demo_s3 | Suc n \<Rightarrow> demo_s4\<lparr>sys_queue := replicate n demo_message\<rparr>)"

lemma demo_endless_step: "step demo_rt demo_lib (demo_endless k) (demo_endless (Suc k))"
proof (cases k)
  case 0
  have "demo_s4\<lparr>sys_queue := []\<rparr> = demo_s4" by (simp add: demo_s4_def)
  then show ?thesis using demo_step4 by (simp only: 0 demo_endless_def nat.case replicate.simps)
next
  case (Suc n)
  then show ?thesis using step.foreign_message [of demo_rt demo_lib "demo_endless k" demo_message]
    by (simp add: demo_endless_def replicate_append_same [symmetric])
qed

theorem job_comes_to_rest_witness:
  "row_of 200 (demo_endless 1) \<noteq> row_of 200 (demo_endless 0) \<and>
   (\<exists>n. \<forall>k \<ge> n. row_of 200 (demo_endless k) = row_of 200 (demo_endless n))"
proof
  obtain r where "db_jobs demo_db4 = [r]" "job_status r = RUNNING" "job_id r = 200" using demo_db4_jobs(1,3) by auto
  then show "row_of 200 (demo_endless 1) \<noteq> row_of 200 (demo_endless 0)"
    by (auto simp: row_of_def demo_endless_def dest: arg_cong [of _ _ job_status])
  show "\<exists>n. \<forall>k \<ge> n. row_of 200 (demo_endless k) = row_of 200 (demo_endless n)"
    using job_comes_to_rest [of demo_rt demo_lib demo_endless 200] demo_codec_ok demo_reachable3 demo_endless_step
    by (simp add: demo_endless_def)
qed

end
