(* ===== verification/Progress.thy ===== *)
theory Progress
  imports Execution_Outcomes System_History
begin

text \<open>
  Progress: from every reachable state the system can still bring an unfinished job to its end, by
  dispatch, delivery, execution, retries and recovery, whatever happened to the job before and
  however many of its owner's jobs are running.
\<close>

section \<open>What the service does by itself\<close>

text \<open>
  The steps of the background processes that this needs: the publisher processes an event, a worker
  receives a message of the execute queue, checks for cancellation and ends an execution, the
  recovery runs a batch. No request, no message from elsewhere and no crash is among them, so a job
  is dispatched only by an event of the outbox or a message that is already in the queue.
\<close>

inductive service_step :: "runtime \<Rightarrow> system \<Rightarrow> system \<Rightarrow> bool" for rt where
  publish: "process_claimed_event rt e locked pr i (sys_db s) = (res, db', ms) \<Longrightarrow>
     service_step rt s (s\<lparr>sys_db := db', sys_queue := sys_queue s @ ms,
       sys_failures := sys_failures s @ publish_failures res\<rparr>)"
| receive_claimed: "fresh 2 e s \<Longrightarrow> sys_queue s = q @ msg # q' \<Longrightarrow>
     receive_message rt w e msg (sys_db s) = (Claimed claim, db', ns) \<Longrightarrow>
     service_step rt s (s\<lparr>sys_db := db', sys_queue := q @ q',
       sys_flights := sys_flights s @ [\<lparr>fl_message = msg, fl_claim = claim, fl_polls = []\<rparr>]\<rparr>)"
| poll: "sys_flights s = fs @ fl # fs' \<Longrightarrow> run_handler rt (fl_claim fl) (fl_polls fl) = Suspended \<Longrightarrow>
     service_step rt s (s\<lparr>sys_flights := fs @
       fl\<lparr>fl_polls := fl_polls fl @ [poll_answer True (fl_claim fl) (sys_db s)]\<rparr> # fs'\<rparr>)"
| finish: "fresh 1 e s \<Longrightarrow> sys_flights s = fs @ fl # fs' \<Longrightarrow>
     execute_claim rt e (fl_claim fl) (fl_polls fl) (sys_db s) = Some (Inr (), db', ns) \<Longrightarrow>
     service_step rt s (s\<lparr>sys_db := db', sys_flights := fs @ fs'\<rparr>)"
| recover: "fresh (nat (recovery_batch_size (rt_settings rt))) e s \<Longrightarrow>
     recover_due_batch_once rt e locked (sys_db s) = (res, db', ns) \<Longrightarrow>
     service_step rt s (s\<lparr>sys_db := db'\<rparr>)"

lemma service_step_step: "service_step rt s s' \<Longrightarrow> step rt lib s s'"
  by (induction rule: service_step.induct)
    (rule step.publish step.receive_claimed step.poll step.finish step.recover; assumption)+

lemma service_step_ok: "codec_ok (rt_codec rt) \<Longrightarrow> service_step rt s s' \<Longrightarrow> system_ok rt s \<Longrightarrow> system_ok rt s'"
  using step_ok [OF _ service_step_step] .

lemma service_run_ok:
  assumes "codec_ok (rt_codec rt)" and "(service_step rt)\<^sup>*\<^sup>* s s'" and "system_ok rt s"
  shows "system_ok rt s'"
  using assms(2,3) by (induction rule: rtranclp_induct) (auto intro: service_step_ok [OF assms(1)])

section \<open>Dispatch\<close>

lemma scalar_where_unique:
  "x \<in> set xs \<Longrightarrow> p x \<Longrightarrow> (\<And>y. y \<in> set xs \<Longrightarrow> p y \<Longrightarrow> y = x) \<Longrightarrow> scalar_where p xs = Some x"
  by (metis not_None_eq scalar_where_None_iff scalar_where_SomeD)

definition queued_form :: "env \<Rightarrow> job \<Rightarrow> job" where
  "queued_form e r = (if job_status r = PENDING then r\<lparr>job_status := QUEUED, job_updated_at := clock_now e 0\<rparr> else r)"

lemma queued_form_row: "r \<in> set (db_jobs db) \<Longrightarrow> queued_form e r \<in> set (db_jobs (queued_db e r db))"
  by (auto simp: queued_form_def queued_db_def mark_queued_def snd_update_jobs set_update_where)

lemma queued_form_sel [simp]:
  "job_id (queued_form e r) = job_id r" "job_owner_id (queued_form e r) = job_owner_id r" "job_type (queued_form e r) = job_type r"
  "job_payload (queued_form e r) = job_payload r" "job_cancel_requested_at (queued_form e r) = job_cancel_requested_at r"
  "job_attempt_count (queued_form e r) = job_attempt_count r"
  by (simp_all add: queued_form_def)

lemma queued_form_status: "job_status r \<in> {PENDING, QUEUED} \<Longrightarrow> job_status (queued_form e r) = QUEUED"
  by (auto simp: queued_form_def)

lemma queued_db_tokens:
  "x \<in> set (db_jobs (queued_db e r db)) \<Longrightarrow> \<exists>y \<in> set (db_jobs db). job_execution_token x = job_execution_token y"
  by (auto simp: queued_db_def mark_queued_def snd_update_jobs elim!: in_update_whereE split: if_splits)

text \<open>A waiting job becomes a queued one with a message in the queue; no identifier is used up.\<close>

lemma dispatch_progress:
  assumes c: "codec_ok (rt_codec rt)" and ok: "system_ok rt s" and r: "r \<in> set (db_jobs (sys_db s))" "job_status r \<in> {PENDING, QUEUED}"
    and commits: "commit_ok e 0"
  obtains s1 r1 q msg q' where "(service_step rt)\<^sup>*\<^sup>* s s1" "r1 \<in> set (db_jobs (sys_db s1))" "r1 \<in> {r, queued_form e r}" "job_status r1 = QUEUED"
    "sys_queue s1 = q @ msg # q'" "carries (rt_codec rt) (job_id r) msg" "used_uuids s1 \<subseteq> used_uuids s"
    "count_running_for_owner (job_owner_id r) (sys_db s1) \<le> count_running_for_owner (job_owner_id r) (sys_db s)"
proof (cases "job_status r = QUEUED \<and> (\<exists>msg \<in> set (sys_queue s). carries (rt_codec rt) (job_id r) msg)")
  case True
  then obtain q msg q' where "sys_queue s = q @ msg # q'" "carries (rt_codec rt) (job_id r) msg" by (metis in_set_conv_decomp)
  with True r show ?thesis by (intro that [of s r q msg q']) auto
next
  case False
  note db = system_ok_parts(1) [OF ok]
  from False r system_ok_parts(2) [OF ok] obtain ev where ev: "ev \<in> set (db_outbox_events (sys_db s))" "awaits_dispatch (job_id r) ev"
    by (auto simp: dispatch_ok_def row_dispatched_def awaits_def)
  from db ev(1) obtain m where m: "model_validate (rt_codec rt) (ev_payload ev) = Inr m" "dm_job_id m = ev_aggregate_id ev"
    by (auto simp: db_ok_def events_ok_def event_ok_def)
  have agg: "job_id r = ev_aggregate_id ev" and unpub: "ev_published_at ev = None" using ev(2) by (simp_all add: awaits_dispatch_def)
  let ?d = "mark_published (ev_id ev) (clock_now e 1) (queued_db e r (sys_db s))" and ?msg = "dispatch_amqp_message (rt_codec rt) ev m"
  have "scalar_where (\<lambda>x. ev_id x = ev_id ev \<and> ev_published_at x = None) (db_outbox_events (sys_db s)) = Some ev"
    using db ev(1) unpub key_unique [of ev_id "db_outbox_events (sys_db s)" _ ev]
    by (intro scalar_where_unique) (auto simp: db_ok_def events_ok_def)
  then have "get_by_id_for_update_unpublished (\<lambda>_. False) (ev_id ev) (sys_db s) = Some ev"
    by (simp add: get_by_id_for_update_unpublished_def)
  from event_dispatch [OF db_ok_keys [OF db] this r(1) agg r(2) m(1), of e Confirmed] commits
  have run: "process_claimed_event rt e (\<lambda>_. False) Confirmed (ev_id ev) (sys_db s) = (Inr (Done True), ?d, [?msg])" by simp
  let ?s = "s\<lparr>sys_db := ?d, sys_queue := sys_queue s @ [?msg]\<rparr>"
  have "service_step rt s ?s" using service_step.publish [OF run] by simp
  moreover have "queued_form e r \<in> set (db_jobs (sys_db ?s))" using queued_form_row [OF r(1)] by simp
  moreover have "carries (rt_codec rt) (job_id r) ?msg"
    using model_validate_dump_json [OF c model_validate_kind [OF m(1)]] m(2) agg by (simp add: carries_def dispatch_amqp_message_def)
  moreover have "ev_id ` set (db_outbox_events ?d) = ev_id ` set (db_outbox_events (sys_db s))"
    using map_ev_id_update(1) [of "ev_id ev" "clock_now e 1" "queued_db e r (sys_db s)"] by (metis list.set_map queued_db_frame(3))
  then have "used_uuids ?s \<subseteq> used_uuids s" using queued_db_tokens [of _ e r "sys_db s"] by (fastforce simp: used_uuids_def)
  moreover have "count_running_for_owner (job_owner_id r) (sys_db ?s) \<le> count_running_for_owner (job_owner_id r) (sys_db s)"
    using evolves_running_mono [OF publish_evolves [OF ok run], of "job_owner_id r"] by (simp add: count_running_for_owner_def)
  ultimately show ?thesis
    using that [of ?s "queued_form e r" "sys_queue s" ?msg "[]"] queued_form_status [OF r(2)] by auto
qed

section \<open>Delivery\<close>

lemma claim_progress:
  assumes ok: "system_ok rt s" and r: "r \<in> set (db_jobs (sys_db s))" "job_status r = QUEUED"
    and q: "sys_queue s = q @ msg # q'" "carries (rt_codec rt) (job_id r) msg"
    and room: "count_running_for_owner (job_owner_id r) (sys_db s) < job_max_running_per_user (rt_settings rt)"
    and fresh: "fresh 2 e s" and commits: "commit_ok e 0"
  shows "service_step rt s (s\<lparr>sys_db := start_db rt w e (job_id r) (sys_db s), sys_queue := q @ q',
    sys_flights := sys_flights s @ [\<lparr>fl_message = msg, fl_claim = claim_of e r, fl_polls = []\<rparr>]\<rparr>)"
proof -
  from q(2) obtain m where m: "model_validate_json (rt_codec rt) (msg_body msg) = Inr m" "dm_job_id m = job_id r" by (auto simp: carries_def)
  from claim_execution_eq [OF system_ok_parts(1) [OF ok] r(1), of m rt w e]
  obtain ns where "receive_message rt w e msg (sys_db s) = (Claimed (claim_of e r), start_db rt w e (job_id r) (sys_db s), ns)"
    using m r(2) room commits by (simp add: receive_message_def settle_def)
  from service_step.receive_claimed [OF fresh q(1) this] show ?thesis .
qed

section \<open>Unused identifiers\<close>

text \<open>There are \<open>n\<close> UUIDs that no event, row or execution uses; then \<^verbatim>\<open>uuid4\<close> can draw them.\<close>

definition spare :: "nat \<Rightarrow> system \<Rightarrow> bool" where
  "spare n s \<longleftrightarrow> n \<le> card (- used_uuids s)"

lemma spare_less: "spare n s \<Longrightarrow> m \<le> n \<Longrightarrow> spare m s"
  by (simp add: spare_def)

lemma spare_card: "card (used_uuids s) + n \<le> 2 ^ 128 \<Longrightarrow> spare n s"
  by (simp add: spare_def Compl_eq_Diff_UNIV card_Diff_subset card_word)

lemma spare_env:
  assumes "spare n s"
  obtains e where "fresh n e s" "commit_ok e 0"
proof -
  from assms obtain T where T: "T \<subseteq> - used_uuids s" "card T = n" "finite T"
    unfolding spare_def by (metis obtain_subset_with_card_n)
  then obtain f where "bij_betw f {..<n} T" by (metis bij_betw_iff_card card_lessThan finite_lessThan)
  then show ?thesis using T(1)
    by (intro that [of "\<lparr>clock_now = \<lambda>_. 0, utc_now = \<lambda>_. 0, uuid4 = f, identity = \<lambda>_. 0, commit_ok = \<lambda>_. True\<rparr>"])
      (auto simp: fresh_def bij_betw_def)
qed

lemma spare_step:
  assumes "spare (Suc n) s" and "used_uuids s' \<subseteq> insert x (used_uuids s)"
  shows "spare n s'"
proof -
  have "card (- used_uuids s) \<le> card (insert x (- used_uuids s'))" by (rule card_mono) (use assms(2) in auto)
  also have "\<dots> \<le> Suc (card (- used_uuids s'))" by (rule card_insert_le_m1) simp_all
  finally show ?thesis using assms(1) by (simp add: spare_def)
qed

lemma start_used:
  "used_uuids (s\<lparr>sys_db := start_db rt w e i (sys_db s), sys_queue := q,
    sys_flights := sys_flights s @ [\<lparr>fl_message = msg, fl_claim = claim_of e r, fl_polls = polls\<rparr>]\<rparr>) \<subseteq>
   insert (uuid4 e 0) (used_uuids s)"
  using start_rows [of _ rt w e i "sys_db s"]
  by (fastforce simp: used_uuids_def claim_of_def start_db_def mark_running_def)

section \<open>Execution\<close>

lemma not_cancelled:
  assumes "job_keys_ok db" and "live_execution db cl r" and "job_cancel_requested_at r = None"
  shows "\<not> is_cancellation_requested cl db"
proof -
  have "scalar_where (\<lambda>x. job_id x = je_id (cl_job cl)) (db_jobs db) = Some r"
    using assms(2) by (simp add: job_lookup_iff [OF assms(1)] live_execution_def)
  then show ?thesis using assms(2,3)
    by (simp add: is_cancellation_requested_def get_execution_candidate_for_update_def live_execution_def to_job_execution_dto_def)
qed

lemma poll_progress:
  assumes keys: "job_keys_ok (sys_db s)" and fl: "sys_flights s = fs @ fl # fs'" "fl_polls fl = []"
    and live: "live_execution (sys_db s) (fl_claim fl) r" and quiet: "job_cancel_requested_at r = None"
    and wait: "\<And>m. m < n \<Longrightarrow> run_handler rt (fl_claim fl) (replicate m (Inr False)) = Suspended"
  shows "(service_step rt)\<^sup>*\<^sup>* s (s\<lparr>sys_flights := fs @ fl\<lparr>fl_polls := replicate n (Inr False)\<rparr> # fs'\<rparr>)"
  using wait
proof (induction n)
  case 0
  have "fl\<lparr>fl_polls := []\<rparr> = fl" using fl(2) by (cases fl) simp
  then show ?case using fl(1) by (cases s) simp
next
  case (Suc n)
  let ?s = "s\<lparr>sys_flights := fs @ fl\<lparr>fl_polls := replicate n (Inr False)\<rparr> # fs'\<rparr>"
  have "service_step rt ?s (?s\<lparr>sys_flights := fs @ (fl\<lparr>fl_polls := replicate n (Inr False)\<rparr>)\<lparr>fl_polls := replicate n (Inr False) @
      [poll_answer True (fl_claim fl) (sys_db s)]\<rparr> # fs'\<rparr>)"
    using service_step.poll [of ?s fs "fl\<lparr>fl_polls := replicate n (Inr False)\<rparr>" fs' rt] Suc.prems [of n] by simp
  then show ?case
    using Suc.IH Suc.prems not_cancelled [OF keys live quiet] by (simp add: poll_answer_def replicate_append_same rtranclp.rtrancl_into_rtrancl)
qed

text \<open>The handlers that return by themselves, and after how many checks for cancellation.\<close>

definition returning_job :: "job \<Rightarrow> nat option" where
  "returning_job r =
     (case (job_type r, job_payload r) of
        (SUCCESS, _) \<Rightarrow> Some 0
      | (SLEEP, [(k, JInt d)]) \<Rightarrow> if k = ''duration_seconds'' \<and> 0 \<le> d then Some (4 * nat d) else None
      | _ \<Rightarrow> None)"

lemma returning_job_runs:
  assumes reg: "rt_registry rt = build_job_handler_registry" and ret: "returning_job r = Some n"
    and cl: "je_type (cl_job cl) = job_type r" "je_payload (cl_job cl) = job_payload r"
  shows "run_handler rt cl (replicate n (Inr False)) = Returned \<and> (\<forall>m < n. run_handler rt cl (replicate m (Inr False)) = Suspended)"
proof (cases "job_type r")
  case SLEEP
  then obtain d where d: "job_payload r = [(''duration_seconds'', JInt d)]" "0 \<le> d" "n = 4 * nat d"
    using ret by (auto simp: returning_job_def split: list.splits prod.splits json.splits if_splits)
  then have "run_handler rt cl polls =
      (case first_stop (take n polls) of Some x \<Rightarrow> Raised x | None \<Rightarrow> if n \<le> length polls then Returned else Suspended)" for polls
    using sleep_execute_quarters [of "rt_float_str rt" "nat d" polls] SLEEP by (simp add: run_handler_def reg cl)
  moreover have "first_stop (replicate m (Inr False)) = None" for m by (auto simp: first_stop_None)
  ultimately show ?thesis by (simp add: take_replicate min_def)
qed (use ret reg cl in \<open>auto simp: returning_job_def run_handler_def success_execute_def\<close>)

lemma finish_progress:
  assumes keys: "job_keys_ok (sys_db s)" and fl: "sys_flights s = fs @ fl # fs'"
    and live: "live_execution (sys_db s) (fl_claim fl) r" and ret: "run_handler rt (fl_claim fl) (fl_polls fl) = Returned"
    and fresh: "fresh 1 e s" and commits: "commit_ok e 0"
  obtains s' r' where "service_step rt s s'" "r' \<in> set (db_jobs (sys_db s'))" "job_id r' = job_id r" "job_status r' = COMPLETED"
proof -
  have exec: "execute_claim rt e (fl_claim fl) (fl_polls fl) (sys_db s) = Some (worker_mark_completed e (fl_claim fl) (sys_db s))"
    using ret by (simp add: execute_claim_def)
  from completed_outcome [OF keys live commits]
  obtain d ns r' where out: "worker_mark_completed e (fl_claim fl) (sys_db s) = (Inr (), d, ns)"
    and r': "r' \<in> set (db_jobs d)" "job_id r' = job_id r" "job_status r' = COMPLETED"
    by (auto simp: leaves_def split: prod.splits sum.splits)
  have "service_step rt s (s\<lparr>sys_db := d, sys_flights := fs @ fs'\<rparr>)"
    using exec out by (intro service_step.finish [OF fresh fl]) simp
  with r' show ?thesis by (intro that [of "s\<lparr>sys_db := d, sys_flights := fs @ fs'\<rparr>" r']) simp_all
qed

text \<open>The row of a job that was started.\<close>

lemma started_live:
  assumes ok: "system_ok rt s" and r: "r \<in> set (db_jobs (sys_db s))" "job_status r = QUEUED"
    and ok': "system_ok rt s'" and s': "sys_db s' = start_db rt w e (job_id r) (sys_db s)" "fl \<in> set (sys_flights s')" "fl_claim fl = claim_of e r"
  obtains r' where "live_execution (sys_db s') (claim_of e r) r'" "job_id r' = job_id r" "job_type r' = job_type r"
    "job_cancel_requested_at r' = job_cancel_requested_at r"
proof -
  let ?f = "\<lambda>r. r\<lparr>job_status := RUNNING, job_worker_id := Some w, job_execution_token := Some (uuid4 e 0),
     job_lease_expires_at := Some (clock_now e 0 + timedelta_seconds (job_lease_seconds (rt_settings rt))),
     job_started_at := (case job_started_at r of None \<Rightarrow> Some (clock_now e 0) | Some t \<Rightarrow> Some t),
     job_finished_at := None, job_last_error := None, job_attempt_count := job_attempt_count r + 1,
     job_updated_at := clock_now e 0\<rparr>"
  have "?f r \<in> set (db_jobs (sys_db s'))"
    using r by (auto simp: s'(1) start_db_def mark_running_def snd_update_jobs set_update_where)
  moreover have "claim_ok (sys_db s') (claim_of e r)" using system_ok_parts(5) [OF ok' s'(2)] s'(3) by simp
  ultimately show ?thesis
    by (intro that [of "?f r"]) (simp_all add: live_execution_def claim_of_def)
qed

section \<open>Starting a waiting job\<close>

text \<open>The system after a claim of \<open>r\<close>: the last execution in flight is new and holds the token of the row \<open>r'\<close>.\<close>

definition started :: "runtime \<Rightarrow> system \<Rightarrow> job \<Rightarrow> flight list \<Rightarrow> flight \<Rightarrow> job \<Rightarrow> bool" where
  "started rt s r fs fl r' \<longleftrightarrow>
     system_ok rt s \<and> sys_flights s = fs @ [fl] \<and> fl_polls fl = [] \<and> live_execution (sys_db s) (fl_claim fl) r' \<and>
     job_id r' = job_id r \<and> job_type r' = job_type r \<and> job_cancel_requested_at r' = job_cancel_requested_at r \<and>
     je_type (cl_job (fl_claim fl)) = job_type r \<and> je_payload (cl_job (fl_claim fl)) = job_payload r \<and>
     je_max_retries (cl_job (fl_claim fl)) = 3 \<and> cl_attempt_number (fl_claim fl) = job_attempt_count r + 1"

lemma start_with_room:
  assumes c: "codec_ok (rt_codec rt)" and ok: "system_ok rt s"
    and r: "r \<in> set (db_jobs (sys_db s))" "job_status r \<in> {PENDING, QUEUED}"
    and room: "count_running_for_owner (job_owner_id r) (sys_db s) < job_max_running_per_user (rt_settings rt)"
    and spare: "spare (Suc m) s" "1 \<le> m"
  shows "\<exists>s' fs fl r'. (service_step rt)\<^sup>*\<^sup>* s s' \<and> started rt s' r fs fl r' \<and> spare m s'"
proof -
  have "spare 2 s" using spare(1) by (rule spare_less) (use spare(2) in simp)
  then obtain e where fresh: "fresh 2 e s" and commits: "commit_ok e 0" by (rule spare_env)
  obtain s1 r1 q msg q' where s1: "(service_step rt)\<^sup>*\<^sup>* s s1" "r1 \<in> set (db_jobs (sys_db s1))" "r1 \<in> {r, queued_form e r}" "job_status r1 = QUEUED"
      "sys_queue s1 = q @ msg # q'" "carries (rt_codec rt) (job_id r) msg" "used_uuids s1 \<subseteq> used_uuids s"
    and few: "count_running_for_owner (job_owner_id r) (sys_db s1) \<le> count_running_for_owner (job_owner_id r) (sys_db s)"
    by (rule dispatch_progress [OF c ok r commits])
  have same: "job_id r1 = job_id r" "job_owner_id r1 = job_owner_id r" "job_type r1 = job_type r" "job_payload r1 = job_payload r"
    "job_cancel_requested_at r1 = job_cancel_requested_at r" "job_attempt_count r1 = job_attempt_count r" using s1(3) by auto
  have ok1: "system_ok rt s1" using service_run_ok [OF c s1(1) ok] .
  have fresh1: "fresh 2 e s1" using fresh s1(7) by (auto simp: fresh_def)
  let ?fl = "\<lparr>fl_message = msg, fl_claim = claim_of e r1, fl_polls = []\<rparr>"
  let ?s2 = "s1\<lparr>sys_db := start_db rt [] e (job_id r1) (sys_db s1), sys_queue := q @ q', sys_flights := sys_flights s1 @ [?fl]\<rparr>"
  have step2: "service_step rt s1 ?s2"
    using fresh1 claim_progress [OF ok1 s1(2,4,5), of e "[]"] s1(6) same few room commits by simp
  then have ok2: "system_ok rt ?s2" using service_step_ok [OF c _ ok1] by blast
  obtain r2 where "live_execution (sys_db ?s2) (claim_of e r1) r2" "job_id r2 = job_id r1" "job_type r2 = job_type r1" "job_cancel_requested_at r2 = job_cancel_requested_at r1"
    using started_live [OF ok1 s1(2,4) ok2, of "[]" e ?fl] by auto
  moreover have "job_max_retries r1 = 3" using db_ok_row [OF system_ok_parts(1) [OF ok1] s1(2)] by (simp add: job_ok_def)
  ultimately have "started rt ?s2 r (sys_flights s1) ?fl r2"
    using ok2 same by (simp add: started_def claim_of_def to_job_execution_dto_def)
  moreover have "used_uuids ?s2 \<subseteq> insert (uuid4 e 0) (used_uuids s)"
    using subset_trans [OF start_used insert_mono [OF s1(7)]] .
  then have "spare m ?s2" by (rule spare_step [OF spare(1)])
  ultimately show ?thesis using rtranclp.rtrancl_into_rtrancl [OF s1(1) step2] by blast
qed

section \<open>Recovery\<close>

text \<open>Recovery can take back one running job, whose lease has expired by then, while the other rows are locked.\<close>

lemma filter_unique:
  assumes "distinct (map k xs)" and "x \<in> set xs" and "p x"
  shows "filter (\<lambda>y. p y \<and> k y = k x) xs = [x]"
  using assms
proof (induction xs)
  case (Cons y ys)
  have "filter (\<lambda>z. p z \<and> k z = k x) ys = []" if "k x \<notin> k ` set ys" unfolding filter_empty_conv using that by (metis image_eqI)
  then show ?case using Cons by auto
qed simp

lemma rowcount_update_le:
  assumes "\<And>x. \<not> p (f x)"
  shows "rowcount p (update_where q f xs) \<le> rowcount p xs"
  using assms by (induction xs) (simp_all add: rowcount_def update_where_def le_SucI)

lemma rowcount_update_less:
  assumes "\<And>x. \<not> p (f x)" and "r \<in> set xs" and "q r" and "p r"
  shows "rowcount p (update_where q f xs) < rowcount p xs"
proof -
  from assms(2) obtain ys zs where "xs = ys @ r # zs" by (meson split_list)
  then show ?thesis
    using rowcount_update_le [of p f q ys] rowcount_update_le [of p f q zs] assms by (simp add: rowcount_def update_where_def)
qed

lemma expired_later: "job_ok r \<Longrightarrow> job_status r = RUNNING \<Longrightarrow> \<exists>t. lease_expired t r"
  by (auto simp: job_ok_def lease_expired_def gt_ex)

definition at_time :: "datetime \<Rightarrow> env \<Rightarrow> env" where
  "at_time t e = e\<lparr>clock_now := \<lambda>_. t\<rparr>"

lemma recover_one:
  assumes ok: "db_ok (rt_codec rt) db" and r: "r \<in> set (db_jobs db)" "lease_expired t r"
    and batch: "1 \<le> recovery_batch_size (rt_settings rt)" and commits: "commit_ok e 0"
  obtains ns where "recover_due_batch_once rt (at_time t e) (\<lambda>i. i \<noteq> job_id r) db =
    (Inr 1, recovered_db (rt_codec rt) (at_time t e) t 0 r db, ns)"
proof -
  have "stale_rows (\<lambda>i. i \<noteq> job_id r) t (recovery_batch_size (rt_settings rt)) db = [r]"
    using filter_unique [of job_id "db_jobs db" r "lease_expired t"] db_ok_keys [OF ok] r batch
    by (simp add: stale_rows_def job_keys_ok_def)
  from recover_due_batch_once_eq [OF ok, of "[r]" "\<lambda>i. i \<noteq> job_id r" "at_time t e" rt] this
  show ?thesis using commits that by (simp add: at_time_def settle_def)
qed

lemma recovered_used:
  "used_uuids (s\<lparr>sys_db := recovered_db c (at_time t e) t 0 r (sys_db s)\<rparr>) \<subseteq> insert (uuid4 e 0) (used_uuids s)"
proof -
  have "ev_id ` set (db_outbox_events (recovered_db c (at_time t e) t 0 r (sys_db s))) \<subseteq>
      insert (uuid4 e 0) (ev_id ` set (db_outbox_events (sys_db s)))"
    using create_if_absent_events [of c "at_time t e" 0 0 "job_id r" t
        "(sys_db s)\<lparr>db_jobs := update_where (\<lambda>x. job_id x = job_id r) (recover_row t) (db_jobs (sys_db s))\<rparr>"]
    by (auto simp: recovered_db_def Let_def at_time_def)
  then show ?thesis by (auto simp: used_uuids_def elim!: in_update_whereE split: if_splits)
qed

lemma recover_progress:
  assumes c: "codec_ok (rt_codec rt)" and ok: "system_ok rt s" and r: "r \<in> set (db_jobs (sys_db s))" "job_status r = RUNNING"
    and batch: "1 \<le> recovery_batch_size (rt_settings rt)"
    and spare: "spare (Suc m) s" "nat (recovery_batch_size (rt_settings rt)) \<le> Suc m"
  obtains t s' where "service_step rt s s'" "system_ok rt s'" "spare m s'"
    "db_jobs (sys_db s') = update_where (\<lambda>x. job_id x = job_id r) (recover_row t) (db_jobs (sys_db s))"
    "count_running_for_owner (job_owner_id r) (sys_db s') < count_running_for_owner (job_owner_id r) (sys_db s)"
proof -
  note db = system_ok_parts(1) [OF ok]
  obtain e where fresh: "fresh (nat (recovery_batch_size (rt_settings rt))) e s" and commits: "commit_ok e 0"
    by (rule spare_env [OF spare_less [OF spare]])
  obtain t where t: "lease_expired t r" using db_ok_row [OF db r(1)] expired_later r(2) by blast
  obtain ns where rec: "recover_due_batch_once rt (at_time t e) (\<lambda>i. i \<noteq> job_id r) (sys_db s) =
      (Inr 1, recovered_db (rt_codec rt) (at_time t e) t 0 r (sys_db s), ns)"
    by (rule recover_one [OF db r(1) t batch commits])
  let ?s = "s\<lparr>sys_db := recovered_db (rt_codec rt) (at_time t e) t 0 r (sys_db s)\<rparr>"
  have "fresh (nat (recovery_batch_size (rt_settings rt))) (at_time t e) s" using fresh by (simp add: fresh_def at_time_def)
  then have step: "service_step rt s ?s" using rec by (rule service_step.recover)
  have jobs: "db_jobs (sys_db ?s) = update_where (\<lambda>x. job_id x = job_id r) (recover_row t) (db_jobs (sys_db s))" by simp
  have "count_running_for_owner (job_owner_id r) (sys_db ?s) < count_running_for_owner (job_owner_id r) (sys_db s)"
  proof -
    let ?p = "\<lambda>x. job_owner_id x = job_owner_id r \<and> job_status x = RUNNING"
    have "\<not> ?p (recover_row t x)" for x by simp
    from rowcount_update_less [of ?p "recover_row t" r "db_jobs (sys_db s)" "\<lambda>x. job_id x = job_id r", OF this r(1)] r(2)
    show ?thesis unfolding count_running_for_owner_def jobs by simp
  qed
  then show ?thesis using that [of ?s t] step jobs service_step_ok [OF c step ok] spare_step [OF spare(1) recovered_used] by blast
qed

section \<open>Starting any waiting job\<close>

lemma recover_row_keeps [simp]:
  "job_type (recover_row t r) = job_type r" "job_payload (recover_row t r) = job_payload r"
  "job_cancel_requested_at (recover_row t r) = job_cancel_requested_at r" "job_attempt_count (recover_row t r) = job_attempt_count r"
  by (simp_all add: recover_row_def)

lemma returning_job_recovered [simp]: "returning_job (recover_row t r) = returning_job r"
  unfolding returning_job_def recover_row_keeps ..

lemma capacity_le: "system_ok rt s \<Longrightarrow> 1 \<le> job_max_running_per_user (rt_settings rt) \<Longrightarrow>
    count_running_for_owner ow (sys_db s) \<le> job_max_running_per_user (rt_settings rt)"
  using system_ok_parts(3) [of rt s] by (auto simp: capacity_ok_def dest: spec [of _ ow])

lemma running_of_owner:
  assumes "0 < count_running_for_owner ow db"
  obtains r where "r \<in> set (db_jobs db)" "job_owner_id r = ow" "job_status r = RUNNING"
  using assms by (auto simp: count_running_for_owner_def rowcount_def filter_empty_conv)

abbreviation batch_of :: "runtime \<Rightarrow> nat" where
  "batch_of rt \<equiv> nat (recovery_batch_size (rt_settings rt))"

lemma batch_pos: "settings_bounds (rt_settings rt) \<Longrightarrow> 1 \<le> batch_of rt"
  by (simp add: settings_bounds_def nat_le_iff le_nat_iff)

text \<open>If the owner has no room, recovery takes a running job of the same owner back first.\<close>

lemma start_progress:
  assumes c: "codec_ok (rt_codec rt)" and ok: "system_ok rt s" and bounds: "settings_bounds (rt_settings rt)"
    and r: "r \<in> set (db_jobs (sys_db s))" "job_status r \<in> {PENDING, QUEUED}" and spare: "spare (batch_of rt + m + 2) s"
  shows "\<exists>s' fs fl r'. (service_step rt)\<^sup>*\<^sup>* s s' \<and> started rt s' r fs fl r' \<and> spare (batch_of rt + m) s'"
proof -
  let ?limit = "job_max_running_per_user (rt_settings rt)"
  have b: "1 \<le> ?limit" "1 \<le> recovery_batch_size (rt_settings rt)" using bounds by (simp_all add: settings_bounds_def)
  show ?thesis
  proof (cases "count_running_for_owner (job_owner_id r) (sys_db s) < ?limit")
    case True
    have "spare (Suc (batch_of rt + m)) s" using spare by (rule spare_less) simp
    then show ?thesis using start_with_room [OF c ok r True] b(2) by simp
  next
    case False
    then obtain x where x: "x \<in> set (db_jobs (sys_db s))" "job_owner_id x = job_owner_id r" "job_status x = RUNNING"
      using running_of_owner [of "job_owner_id r" "sys_db s"] b(1) by force
    have "spare (Suc (Suc (batch_of rt + m))) s" "batch_of rt \<le> Suc (Suc (batch_of rt + m))" using spare by simp_all
    then obtain t s1 where s1: "service_step rt s s1" "system_ok rt s1" "spare (Suc (batch_of rt + m)) s1"
        "db_jobs (sys_db s1) = update_where (\<lambda>y. job_id y = job_id x) (recover_row t) (db_jobs (sys_db s))"
        "count_running_for_owner (job_owner_id x) (sys_db s1) < count_running_for_owner (job_owner_id x) (sys_db s)"
      by (rule recover_progress [OF c ok x(1,3) b(2)])
    have "job_id r \<noteq> job_id x"
      using job_row_unique [OF db_ok_keys [OF system_ok_parts(1) [OF ok]] r(1) x(1)] r(2) x(3) by auto
    then have "r \<in> set (db_jobs (sys_db s1))" using r(1) by (auto simp: s1(4) set_update_where)
    moreover have "count_running_for_owner (job_owner_id r) (sys_db s1) < ?limit" "1 \<le> batch_of rt + m"
      using s1(5) capacity_le [OF ok b(1), of "job_owner_id r"] x(2) b(2) by simp_all
    ultimately obtain s' fs fl r' where "(service_step rt)\<^sup>*\<^sup>* s1 s'" "started rt s' r fs fl r'" "spare (batch_of rt + m) s'"
      using start_with_room [OF c s1(2) _ r(2) _ s1(3)] by blast
    then show ?thesis using s1(1) by (blast intro: converse_rtranclp_into_rtranclp)
  qed
qed

section \<open>A job that returns can be completed\<close>

lemma returning_job_completes:
  assumes c: "codec_ok (rt_codec rt)" and ok: "system_ok rt s" and bounds: "settings_bounds (rt_settings rt)"
    and reg: "rt_registry rt = build_job_handler_registry"
    and r: "r \<in> set (db_jobs (sys_db s))" "job_status r \<in> {PENDING, QUEUED}" "job_cancel_requested_at r = None"
    and ret: "returning_job r = Some n" and spare: "spare (batch_of rt + 2) s"
  shows "\<exists>s' r'. (service_step rt)\<^sup>*\<^sup>* s s' \<and> r' \<in> set (db_jobs (sys_db s')) \<and> job_id r' = job_id r \<and> job_status r' = COMPLETED"
proof -
  obtain s1 fs fl r1 where run1: "(service_step rt)\<^sup>*\<^sup>* s s1" and st: "started rt s1 r fs fl r1" and spare1: "spare (batch_of rt) s1"
    using start_progress [OF c ok bounds r(1,2), of 0] spare by auto
  have keys: "job_keys_ok (sys_db s1)" and live: "live_execution (sys_db s1) (fl_claim fl) r1"
    and fl: "sys_flights s1 = fs @ fl # []" "fl_polls fl = []"
    using st db_ok_keys [OF system_ok_parts(1)] by (auto simp: started_def)
  note returns = returning_job_runs [OF reg ret, of "fl_claim fl"]
  let ?s2 = "s1\<lparr>sys_flights := fs @ fl\<lparr>fl_polls := replicate n (Inr False)\<rparr> # []\<rparr>"
  have run2: "(service_step rt)\<^sup>*\<^sup>* s1 ?s2"
    using poll_progress [OF keys fl live] returns st r(3) by (simp add: started_def)
  have "spare 1 ?s2" using spare_less [OF spare1 batch_pos [OF bounds]] fl(1) by (simp add: spare_def used_uuids_def)
  then obtain e where "fresh 1 e ?s2" "commit_ok e 0" by (rule spare_env)
  then obtain s3 r3 where "service_step rt ?s2 s3" "r3 \<in> set (db_jobs (sys_db s3))" "job_id r3 = job_id r1" "job_status r3 = COMPLETED"
    using finish_progress [of ?s2 fs "fl\<lparr>fl_polls := replicate n (Inr False)\<rparr>" "[]" r1 rt e] keys live returns st
    by (auto simp: started_def)
  then show ?thesis using rtranclp_trans [OF run1 run2] st by (auto simp: started_def intro: rtranclp.rtrancl_into_rtrancl)
qed

section \<open>A job that fails can be failed for good\<close>

lemma retry_used:
  "used_uuids (s\<lparr>sys_db := retry_db rt e cl er d (sys_db s), sys_flights := fs\<rparr>) \<subseteq>
   insert (uuid4 e 0) (used_uuids (s\<lparr>sys_flights := fs\<rparr>))"
proof -
  let ?db = "snd (requeue_running (je_id (cl_job cl)) (cl_execution_token cl) (clock_now e 0) (truncate_job_error er) (sys_db s))"
  have "ev_id ` set (db_outbox_events (retry_db rt e cl er d (sys_db s))) \<subseteq> insert (uuid4 e 0) (ev_id ` set (db_outbox_events ?db))"
    using create_if_absent_events [of "rt_codec rt" e 0 0 "je_id (cl_job cl)" "clock_now e 0 + timedelta_seconds d" ?db]
    by (auto simp: retry_db_def create_system_log_def add_log_def)
  then show ?thesis
    by (auto simp: used_uuids_def retry_db_def requeue_running_def snd_update_jobs create_system_log_def add_log_def
        elim!: in_update_whereE split: if_splits)
qed

lemma failing_run:
  "rt_registry rt = build_job_handler_registry \<Longrightarrow> je_type (cl_job cl) = FAILURE \<Longrightarrow>
   \<exists>er. execute_claim rt e cl polls db = Some (finalize_failure rt e cl er db)"
  by (auto simp: execute_claim_def run_handler_def failure_execute_def split: option.splits json.splits)

text \<open>
  One attempt: the execution in flight fails, and the job waits for the next attempt, for which the
  retry uses up one identifier, or has failed for good.
\<close>

lemma failure_ends_attempt:
  assumes keys: "job_keys_ok (sys_db s)" and fl: "sys_flights s = fs @ fl # fs'"
    and live: "live_execution (sys_db s) (fl_claim fl) r" and commits: "commit_ok e 0" and fresh: "fresh 1 e s"
    and run: "execute_claim rt e (fl_claim fl) (fl_polls fl) (sys_db s) = Some (finalize_failure rt e (fl_claim fl) er (sys_db s))"
    and spare: "spare (Suc m) s"
  obtains s' r' where "service_step rt s s'" "r' \<in> set (db_jobs (sys_db s'))" "job_id r' = job_id r"
    "if cl_attempt_number (fl_claim fl) < 4
     then job_status r' = QUEUED \<and> job_type r' = job_type r \<and> job_attempt_count r' = cl_attempt_number (fl_claim fl) \<and> spare m s'
     else job_status r' = FAILED"
proof (cases "cl_attempt_number (fl_claim fl) < 4")
  case True
  have four: "max_total_attempts (cl_job (fl_claim fl)) = 4"
    using live by (auto simp: live_execution_def intro: max_total_attempts_claim)
  let ?d = "retry_db rt e (fl_claim fl) er (retry_delay (cl_attempt_number (fl_claim fl))) (sys_db s)"
  let ?s = "s\<lparr>sys_db := ?d, sys_flights := fs @ fs'\<rparr>"
  obtain ns r' where out: "finalize_failure rt e (fl_claim fl) er (sys_db s) = (Inr (), ?d, ns)"
    and r': "r' \<in> set (db_jobs ?d)" "job_id r' = job_id r" "job_status r' = QUEUED" "job_type r' = job_type r"
      "job_attempt_count r' = cl_attempt_number (fl_claim fl)"
    using retried_outcome [OF keys live commits, of rt er] True
    by (auto simp: finalize_failure_def four leaves_def split: prod.splits sum.splits)
  have "service_step rt s ?s" using run out by (intro service_step.finish [OF fresh fl]) simp
  moreover have "used_uuids (s\<lparr>sys_flights := fs @ fs'\<rparr>) \<subseteq> used_uuids s" using fl by (auto simp: used_uuids_def)
  then have "spare m ?s" by (intro spare_step [OF spare subset_trans [OF retry_used insert_mono]])
  ultimately show ?thesis using that [of ?s r'] r' True by simp
next
  case False
  have four: "max_total_attempts (cl_job (fl_claim fl)) = 4"
    using live by (auto simp: live_execution_def intro: max_total_attempts_claim)
  obtain d ns r' where out: "finalize_failure rt e (fl_claim fl) er (sys_db s) = (Inr (), d, ns)"
    and r': "r' \<in> set (db_jobs d)" "job_id r' = job_id r" "job_status r' = FAILED"
    using failed_outcome [OF keys live commits, of er] False
    by (auto simp: finalize_failure_def four leaves_def split: prod.splits sum.splits)
  have "service_step rt s (s\<lparr>sys_db := d, sys_flights := fs @ fs'\<rparr>)" using run out by (intro service_step.finish [OF fresh fl]) simp
  then show ?thesis using that [of "s\<lparr>sys_db := d, sys_flights := fs @ fs'\<rparr>" r'] r' False by simp
qed

lemma fail_progress:
  assumes c: "codec_ok (rt_codec rt)" and ok: "system_ok rt s" and bounds: "settings_bounds (rt_settings rt)"
    and reg: "rt_registry rt = build_job_handler_registry"
    and r: "r \<in> set (db_jobs (sys_db s))" "job_status r \<in> {PENDING, QUEUED}" "job_type r = FAILURE"
    and spare: "spare (batch_of rt + m + 3) s"
  obtains s' r' where "(service_step rt)\<^sup>*\<^sup>* s s'" "r' \<in> set (db_jobs (sys_db s'))" "job_id r' = job_id r"
    "if job_attempt_count r < 3
     then job_status r' = QUEUED \<and> job_type r' = FAILURE \<and> job_attempt_count r' = job_attempt_count r + 1 \<and> spare (batch_of rt + m) s'
     else job_status r' = FAILED"
proof -
  obtain s1 fs fl r1 where run1: "(service_step rt)\<^sup>*\<^sup>* s s1" and st: "started rt s1 r fs fl r1" and spare1: "spare (Suc (batch_of rt + m)) s1"
    using start_progress [OF c ok bounds r(1,2), of "Suc m"] spare by (auto simp: numeral_3_eq_3)
  have keys: "job_keys_ok (sys_db s1)" and fl: "sys_flights s1 = fs @ fl # []" and live: "live_execution (sys_db s1) (fl_claim fl) r1"
    and same: "cl_attempt_number (fl_claim fl) = job_attempt_count r + 1" "job_id r1 = job_id r" "job_type r1 = FAILURE"
    using st db_ok_keys [OF system_ok_parts(1)] r(3) by (auto simp: started_def)
  obtain e where fresh: "fresh 1 e s1" and commits: "commit_ok e 0" by (rule spare_env [OF spare_less [OF spare1, of 1]]) simp
  obtain er where "execute_claim rt e (fl_claim fl) (fl_polls fl) (sys_db s1) = Some (finalize_failure rt e (fl_claim fl) er (sys_db s1))"
    using failing_run [OF reg, of "fl_claim fl" e "fl_polls fl" "sys_db s1"] st r(3) by (auto simp: started_def)
  then obtain s2 r2 where "service_step rt s1 s2" "r2 \<in> set (db_jobs (sys_db s2))" "job_id r2 = job_id r1"
    "if cl_attempt_number (fl_claim fl) < 4
     then job_status r2 = QUEUED \<and> job_type r2 = job_type r1 \<and> job_attempt_count r2 = cl_attempt_number (fl_claim fl) \<and> spare (batch_of rt + m) s2
     else job_status r2 = FAILED"
    by (rule failure_ends_attempt [OF keys fl live commits fresh _ spare1])
  then show ?thesis using that [of s2 r2] run1 same by (auto intro: rtranclp.rtrancl_into_rtrancl split: if_splits)
qed

lemma failing_job_fails:
  assumes c: "codec_ok (rt_codec rt)" and bounds: "settings_bounds (rt_settings rt)" and reg: "rt_registry rt = build_job_handler_registry"
    and "system_ok rt s" and "r \<in> set (db_jobs (sys_db s))" "job_status r \<in> {PENDING, QUEUED}" "job_type r = FAILURE"
    and "job_attempt_count r + int k = 4" and "spare (batch_of rt + 3 * k) s"
  shows "\<exists>s' r'. (service_step rt)\<^sup>*\<^sup>* s s' \<and> r' \<in> set (db_jobs (sys_db s')) \<and> job_id r' = job_id r \<and> job_status r' = FAILED"
  using assms(4-9)
proof (induction k arbitrary: s r)
  case 0
  then show ?case using db_ok_row [OF system_ok_parts(1) [OF 0(1)] 0(2)] by (auto simp: job_ok_def)
next
  case (Suc k)
  have "spare (batch_of rt + 3 * k + 3) s" using Suc.prems(6) by (simp add: ac_simps)
  then obtain s1 r1 where s1: "(service_step rt)\<^sup>*\<^sup>* s s1" "r1 \<in> set (db_jobs (sys_db s1))" "job_id r1 = job_id r"
    "if job_attempt_count r < 3
     then job_status r1 = QUEUED \<and> job_type r1 = FAILURE \<and> job_attempt_count r1 = job_attempt_count r + 1 \<and> spare (batch_of rt + 3 * k) s1
     else job_status r1 = FAILED"
    by (rule fail_progress [OF c Suc.prems(1) bounds reg Suc.prems(2-4)])
  show ?case
  proof (cases "job_attempt_count r < 3")
    case True
    have "system_ok rt s1" using service_run_ok [OF c s1(1) Suc.prems(1)] .
    then show ?thesis using Suc.IH [of s1 r1] True s1 Suc.prems(5) by (auto intro: rtranclp_trans)
  qed (use s1 in auto)
qed

section \<open>Every unfinished job can be finished\<close>

lemma waiting_job_ends:
  assumes c: "codec_ok (rt_codec rt)" and ok: "system_ok rt s" and bounds: "settings_bounds (rt_settings rt)"
    and reg: "rt_registry rt = build_job_handler_registry"
    and r: "r \<in> set (db_jobs (sys_db s))" "job_status r \<in> {PENDING, QUEUED}" "job_cancel_requested_at r = None"
    and kind: "job_type r = FAILURE \<or> returning_job r \<noteq> None" and spare: "spare (batch_of rt + 12) s"
  shows "\<exists>s' r'. (service_step rt)\<^sup>*\<^sup>* s s' \<and> r' \<in> set (db_jobs (sys_db s')) \<and> job_id r' = job_id r \<and>
    job_status r' = (if job_type r = FAILURE then FAILED else COMPLETED)"
proof (cases "job_type r = FAILURE")
  case True
  define k where "k = nat (4 - job_attempt_count r)"
  have "0 \<le> job_attempt_count r" "job_attempt_count r \<le> 4" using db_ok_row [OF system_ok_parts(1) [OF ok] r(1)] by (simp_all add: job_ok_def)
  then have "job_attempt_count r + int k = 4" "k \<le> 4" by (simp_all add: k_def)
  then show ?thesis using failing_job_fails [OF c bounds reg ok r(1,2) True, of k] spare_less [OF spare, of "batch_of rt + 3 * k"] True by simp
next
  case False
  then obtain n where "returning_job r = Some n" using kind by auto
  then show ?thesis using returning_job_completes [OF c ok bounds reg r, of n] spare_less [OF spare, of "batch_of rt + 2"] False by simp
qed

lemma unfinished_job_ends:
  assumes c: "codec_ok (rt_codec rt)" and ok: "system_ok rt s" and bounds: "settings_bounds (rt_settings rt)"
    and reg: "rt_registry rt = build_job_handler_registry"
    and r: "r \<in> set (db_jobs (sys_db s))" "\<not> is_terminal_status (job_status r)" "job_cancel_requested_at r = None"
    and kind: "job_type r = FAILURE \<or> returning_job r \<noteq> None" and spare: "spare (batch_of rt + 13) s"
  shows "\<exists>s' r'. (service_step rt)\<^sup>*\<^sup>* s s' \<and> r' \<in> set (db_jobs (sys_db s')) \<and> job_id r' = job_id r \<and>
    job_status r' = (if job_type r = FAILURE \<or> job_status r = RUNNING \<and> job_attempt_count r = 4 then FAILED else COMPLETED)"
proof (cases "job_status r = RUNNING")
  case True
  have "spare (Suc (batch_of rt + 12)) s" using spare by (simp add: spare_def)
  moreover have "1 \<le> recovery_batch_size (rt_settings rt)" using bounds by (simp add: settings_bounds_def)
  ultimately obtain t s1 where s1: "service_step rt s s1" "system_ok rt s1" "spare (batch_of rt + 12) s1"
      "db_jobs (sys_db s1) = update_where (\<lambda>x. job_id x = job_id r) (recover_row t) (db_jobs (sys_db s))"
    using recover_progress [OF c ok r(1) True] by (metis le_add1 le_SucI)
  have row: "recover_row t r \<in> set (db_jobs (sys_db s1))" using r(1) by (auto simp: s1(4) set_update_where)
  have "job_attempt_count r \<le> 4" using db_ok_row [OF system_ok_parts(1) [OF ok] r(1)] by (simp add: job_ok_def)
  then consider "job_attempt_count r < 4" | "job_attempt_count r = 4" by linarith
  then show ?thesis
  proof cases
    case 1
    then obtain s' r' where "(service_step rt)\<^sup>*\<^sup>* s1 s'" "r' \<in> set (db_jobs (sys_db s'))" "job_id r' = job_id r"
      "job_status r' = (if job_type r = FAILURE then FAILED else COMPLETED)"
      using waiting_job_ends [OF c s1(2) bounds reg row _ _ _ s1(3)] r(3) kind by auto
    then show ?thesis using converse_rtranclp_into_rtranclp [of "service_step rt", OF s1(1)] 1 by (intro exI [of _ s'] exI [of _ r']) simp
  next
    case 2
    then show ?thesis using row s1(1) True by (intro exI [of _ s1] exI [of _ "recover_row t r"]) auto
  qed
next
  case False
  then have "job_status r \<in> {PENDING, QUEUED}" using r(2) by (cases "job_status r") (auto simp: is_terminal_status_def)
  then show ?thesis using waiting_job_ends [OF c ok bounds reg r(1) _ r(3) kind spare_less [OF spare]] False by simp
qed

end
