(* ===== verification/Background.thy ===== *)
theory Background
  imports System_Model Job_List_Cache Event_Stream
begin

text \<open>
  What runs around the batches and transactions: the polling loops \<^verbatim>\<open>run_forever\<close> of the outbox
  publisher and of the recovery, the heartbeat of \<^verbatim>\<open>src/app/cli/heartbeat.py\<close>, and the notifier that
  \<^verbatim>\<open>src/app/main.py\<close> and the worker processes put together from the cache and the event channel.
\<close>

section \<open>Polling loops\<close>

text \<open>
  \<open>stop k\<close>: the stop event is set when round \<open>k\<close> begins. A batch that raises ends the loop; one that
  found nothing is followed by a wait for the poll interval or the stop event, which the result
  records by the number of the round. \<open>fuel\<close> bounds the rounds looked at.
\<close>

datatype loop_end = LoopStopped | LoopRaised exn | LoopRunning

fun run_forever ::
  "(nat \<Rightarrow> bool) \<Rightarrow> (nat \<Rightarrow> 's \<Rightarrow> (exn + int) \<times> 's) \<Rightarrow> nat \<Rightarrow> nat \<Rightarrow> 's \<Rightarrow> loop_end \<times> nat list \<times> 's" where
  "run_forever stop batch 0 k s = (LoopRunning, [], s)"
| "run_forever stop batch (Suc fuel) k s =
     (if stop k then (LoopStopped, [], s)
      else case batch k s of
             (Inl x, s') \<Rightarrow> (LoopRaised x, [], s')
           | (Inr processed_count, s') \<Rightarrow>
               (case run_forever stop batch fuel (Suc k) s' of
                  (out, waits, s'') \<Rightarrow> (out, if processed_count = 0 then k # waits else waits, s'')))"

text \<open>The inputs of a round are its environments, the rows others have locked and the broker's answers.\<close>

definition publisher_run_forever ::
  "runtime \<Rightarrow> (nat \<Rightarrow> datetime) \<Rightarrow> (nat \<Rightarrow> nat \<Rightarrow> env) \<Rightarrow> (nat \<Rightarrow> uuid \<Rightarrow> bool) \<Rightarrow> (nat \<Rightarrow> nat \<Rightarrow> publish_result) \<Rightarrow> (nat \<Rightarrow> bool)
    \<Rightarrow> nat \<Rightarrow> nat \<Rightarrow> database \<times> message list \<Rightarrow> loop_end \<times> nat list \<times> database \<times> message list" where
  "publisher_run_forever rt now es locked prs stop =
     run_forever stop (\<lambda>k (db, sent).
       case publish_due_batch_once rt (now k) (es k) (locked k) (prs k) db of (r, db', ms) \<Rightarrow> (r, db', sent @ ms))"

definition recovery_run_forever ::
  "runtime \<Rightarrow> (nat \<Rightarrow> env) \<Rightarrow> (nat \<Rightarrow> uuid \<Rightarrow> bool) \<Rightarrow> (nat \<Rightarrow> bool)
    \<Rightarrow> nat \<Rightarrow> nat \<Rightarrow> database \<times> notification list \<Rightarrow> loop_end \<times> nat list \<times> database \<times> notification list" where
  "recovery_run_forever rt es locked stop =
     run_forever stop (\<lambda>k (db, notified).
       case recover_due_batch_once rt (es k) (locked k) db of (r, db', ns) \<Rightarrow> (r, db', notified @ ns))"

text \<open>\<^verbatim>\<open>touch_heartbeat_forever\<close>: every round touches the file (here: counts a touch) and waits.\<close>

definition touch_heartbeat_forever :: "(nat \<Rightarrow> exn option) \<Rightarrow> (nat \<Rightarrow> bool) \<Rightarrow> nat \<Rightarrow> nat \<Rightarrow> nat \<Rightarrow> loop_end \<times> nat list \<times> nat" where
  "touch_heartbeat_forever touch stop =
     run_forever stop (\<lambda>k touched. case touch k of Some x \<Rightarrow> (Inl x, touched) | None \<Rightarrow> (Inr 0, Suc touched))"

lemma run_forever_fst:
  "fst (run_forever stop batch (Suc fuel) k s) =
     (if stop k then LoopStopped
      else case batch k s of (Inl x, _) \<Rightarrow> LoopRaised x | (Inr _, s') \<Rightarrow> fst (run_forever stop batch fuel (Suc k) s'))"
  by (simp add: split_def split: sum.split prod.split)

text \<open>Once the stop event is set the loop ends, after at most the round in progress.\<close>

lemma run_forever_ends:
  "stop n \<Longrightarrow> k \<le> n \<Longrightarrow> n - k < fuel \<Longrightarrow> fst (run_forever stop batch fuel k s) \<noteq> LoopRunning"
proof (induction fuel arbitrary: k s)
  case (Suc fuel)
  show ?case
  proof (cases "k = n")
    case False
    then have "fst (run_forever stop batch fuel (Suc k) s') \<noteq> LoopRunning" for s' using Suc.prems by (intro Suc.IH) simp_all
    then show ?thesis unfolding run_forever_fst by (simp split: prod.split sum.split)
  qed (use Suc.prems in simp)
qed simp

lemma run_forever_not_raised:
  "(\<And>j s. \<not> isl (fst (batch j s))) \<Longrightarrow> fst (run_forever stop batch fuel k s) \<noteq> LoopRaised x"
proof (induction fuel arbitrary: k s)
  case (Suc fuel)
  have "fst (run_forever stop batch fuel (Suc k) s') \<noteq> LoopRaised x" for s' using Suc by blast
  moreover obtain m s' where "batch k s = (Inr m, s')" using Suc.prems [of k s] by (cases "batch k s"; cases "fst (batch k s)") auto
  ultimately show ?case unfolding run_forever_fst by simp
qed simp

lemma run_forever_stops:
  assumes "stop n" and "k \<le> n" and "n - k < fuel" and "\<And>j s. \<not> isl (fst (batch j s))"
  shows "fst (run_forever stop batch fuel k s) = LoopStopped"
  using run_forever_ends [of stop n k fuel batch s] assms(1-3) run_forever_not_raised [where batch = batch and stop = stop and fuel = fuel and k = k and s = s] assms(4)
  by (cases "fst (run_forever stop batch fuel k s)") auto

text \<open>Nothing catches the exception of a batch: no later round takes place.\<close>

lemma run_forever_raises:
  "\<not> stop k \<Longrightarrow> batch k s = (Inl x, s') \<Longrightarrow> run_forever stop batch (Suc fuel) k s = (LoopRaised x, [], s')"
  by simp

lemma run_forever_invariant:
  assumes "P s" and "\<And>j s r s'. P s \<Longrightarrow> batch j s = (r, s') \<Longrightarrow> P s'" and "run_forever stop batch fuel k s = (out, waits, s')"
  shows "P s'"
  using assms(1,3)
proof (induction fuel arbitrary: k s out waits)
  case (Suc fuel)
  obtain r s1 where r: "batch k s = (r, s1)" by fastforce
  have "P s1" using assms(2) [OF Suc.prems(1) r] .
  with Suc r show ?case by (cases r) (auto split: if_splits prod.splits)
qed simp

text \<open>What the publisher's loop does is a sequence of publishing steps of the system.\<close>

lemma process_once_steps:
  assumes "process_claimed_event_once rt e locked pr i (sys_db s) = (r, d, ms)"
  shows "(step rt lib)\<^sup>*\<^sup>* s (s\<lparr>sys_db := d, sys_queue := sys_queue s @ ms\<rparr>)"
proof -
  obtain res d1 ms1 where first: "process_claimed_event rt e locked pr i (sys_db s) = (res, d1, ms1)" by (metis prod_cases3)
  let ?s = "s\<lparr>sys_db := d1, sys_queue := sys_queue s @ ms1, sys_failures := sys_failures s @ publish_failures res\<rparr>"
  have one: "step rt lib s ?s" using first by (rule step.publish)
  show ?thesis
  proof (cases "\<exists>ev er. res = Inr (PublishFailed ev er)")
    case True
    then obtain ev er where res: "res = Inr (PublishFailed ev er)" by blast
    obtain r2 d2 ms2 where second: "record_failure e ev er d1 = (r2, d2, ms2)" by (metis prod_cases3)
    have "step rt lib ?s (?s\<lparr>sys_db := d2, sys_failures := sys_failures s @ []\<rparr>)"
      using second by (intro step.publish_failed [where fs' = "[]"]) (simp_all add: res)
    moreover have "d = d2" "ms = ms1" using assms first second res by (auto simp: process_claimed_event_once_def split: sum.splits)
    moreover have "?s\<lparr>sys_db := d2, sys_failures := sys_failures s @ []\<rparr> = s\<lparr>sys_db := d2, sys_queue := sys_queue s @ ms1\<rparr>"
      by (cases s) simp
    ultimately have "step rt lib ?s (s\<lparr>sys_db := d, sys_queue := sys_queue s @ ms\<rparr>)" by (simp only:)
    with one show ?thesis by (rule converse_rtranclp_into_rtranclp [OF _ r_into_rtranclp])
  next
    case False
    then have "publish_failures res = []" by (cases res rule: publish_failures.cases) auto
    moreover have "d = d1" "ms = ms1"
      using assms first False by (auto simp: process_claimed_event_once_def split: sum.splits processed.splits)
    ultimately show ?thesis using one by auto
  qed
qed

lemma process_events_steps:
  "process_events rt es locked prs n is db = (res, db', ms) \<Longrightarrow> sys_db s = db \<Longrightarrow>
    (step rt lib)\<^sup>*\<^sup>* s (s\<lparr>sys_db := db', sys_queue := sys_queue s @ ms\<rparr>)"
proof (induction "is" arbitrary: n db res db' ms s)
  case (Cons i "is")
  obtain r d ms1 where first: "process_claimed_event_once rt (es n) locked (prs n) i db = (r, d, ms1)" by (metis prod_cases3)
  let ?s = "s\<lparr>sys_db := d, sys_queue := sys_queue s @ ms1\<rparr>"
  have one: "(step rt lib)\<^sup>*\<^sup>* s ?s" using first Cons.prems(2) process_once_steps by blast
  show ?case
  proof (cases r)
    case (Inl x)
    then show ?thesis using Cons.prems(1) first one by auto
  next
    case (Inr b)
    obtain r2 d2 ms2 where rest: "process_events rt es locked prs (Suc n) is d = (r2, d2, ms2)" by (metis prod_cases3)
    have "(step rt lib)\<^sup>*\<^sup>* ?s (?s\<lparr>sys_db := d2, sys_queue := sys_queue ?s @ ms2\<rparr>)" by (rule Cons.IH [OF rest]) simp
    moreover have "db' = d2" "ms = ms1 @ ms2" using Cons.prems(1) first rest Inr by (auto split: sum.splits)
    ultimately show ?thesis using one by simp
  qed
qed auto

lemma publisher_loop_steps:
  assumes "publisher_run_forever rt now es locked prs stop fuel k (sys_db s, []) = (out, waits, db', ms)"
  shows "(step rt lib)\<^sup>*\<^sup>* s (s\<lparr>sys_db := db', sys_queue := sys_queue s @ ms\<rparr>)"
proof -
  let ?P = "\<lambda>(d, sent). (step rt lib)\<^sup>*\<^sup>* s (s\<lparr>sys_db := d, sys_queue := sys_queue s @ sent\<rparr>)"
  have keep: "?P st'" if st0: "?P st" and st1: "(\<lambda>(db, sent). case publish_due_batch_once rt (now j) (es j) (locked j) (prs j) db of
      (r, db', ms) \<Rightarrow> (r, db', sent @ ms)) st = (r, st')" for j st r st'
  proof -
    obtain d sent d' ms' where st: "st = (d, sent)" "st' = (d', sent @ ms')" "publish_due_batch_once rt (now j) (es j) (locked j) (prs j) d = (r, d', ms')"
      using st1 by (auto split: prod.splits)
    from process_events_steps [OF st(3) [unfolded publish_due_batch_once_def], of "s\<lparr>sys_db := d, sys_queue := sys_queue s @ sent\<rparr>" lib]
    show ?thesis using st0 st by (auto intro: rtranclp_trans)
  qed
  from run_forever_invariant [of ?P, OF _ keep assms [unfolded publisher_run_forever_def]] show ?thesis by simp
qed

section \<open>The notifier of the processes\<close>

text \<open>What Redis holds for the notifier: the list cache, and what was published on the channels.\<close>

record redis =
  rd_cache :: list_cache
  rd_published :: "(string \<times> string) list"

definition redis_publish :: "codec \<Rightarrow> redis_call \<Rightarrow> job_status_event \<Rightarrow> redis \<Rightarrow> exn option \<times> redis" where
  "redis_publish c call ev s =
     (let s' = s\<lparr>rd_published := rd_published s @ [publish_event c ev]\<rparr> in
      case call of
        Replied \<Rightarrow> (None, s')
      | RaisedBefore \<Rightarrow> (Some (RuntimeError ''redis''), s)
      | RaisedAfter \<Rightarrow> (Some (RuntimeError ''redis''), s'))"

definition worker_post_commit_notifier :: "text_lib \<Rightarrow> codec \<Rightarrow> cache_io \<Rightarrow> redis_call \<Rightarrow> uuid \<Rightarrow> redis notifier" where
  "worker_post_commit_notifier lib c io call event_id =
     composite_notify
       [CacheInvalidatingWorkerPostCommitNotifier (\<lambda>owner s. (None, s\<lparr>rd_cache := redis_invalidate_owner lib io owner (rd_cache s)\<rparr>)),
        RedisPublishingWorkerPostCommitNotifier event_id (redis_publish c call)]"

text \<open>
  It never raises; the owner's pages are invalidated whether or not the event can be published,
  and an event that is published goes to the channel its subscribers listen on and is read back
  as it was sent.
\<close>

lemma notifier_effect:
  assumes "worker_post_commit_notifier lib c io call event_id n s = (x, s')"
  shows "x = None \<and> rd_cache s' = redis_invalidate_owner lib io (nt_owner_id n) (rd_cache s) \<and>
    (\<exists>ev. se_job_id ev = nt_job_id n \<and> se_status ev = nt_status n \<and>
       rd_published s' = rd_published s @ (if call = RaisedBefore then [] else [(channel_name c (nt_job_id n), snd (publish_event c ev))]))"
  using assms unfolding worker_post_commit_notifier_def composite_notifier_isolates
  by (cases call; auto simp: CacheInvalidatingWorkerPostCommitNotifier_def RedisPublishingWorkerPostCommitNotifier_def
      redis_publish_def publish_event_def Let_def
      intro!: exI [of _ "\<lparr>se_event_id = event_id, se_job_id = nt_job_id n, se_status = nt_status n,
        se_attempt_count = nt_attempt_count n, se_occurred_at = nt_committed_at n,
        se_cancel_requested_at = nt_cancel_requested_at n\<rparr>"])

section \<open>Which changes invalidate the cached list\<close>

text \<open>
  Creating and cancelling a job and claiming one change the jobs of one owner only, and schedule the
  invalidation of this owner's pages: they are the changes \<open>cache_step\<close> speaks of.
\<close>

lemma others_unchanged_same: "db_jobs db' = db_jobs db \<Longrightarrow> others_unchanged owner db db'"
  by (simp add: others_unchanged_def)

lemma others_unchanged_update:
  assumes "db_jobs db' = update_where p f (db_jobs db)"
    and "\<And>r. r \<in> set (db_jobs db) \<Longrightarrow> p r \<Longrightarrow> job_owner_id r = owner \<and> job_owner_id (f r) = owner"
  shows "others_unchanged owner db db'"
proof -
  have "filter (\<lambda>r. job_owner_id r \<noteq> owner) (update_where p f rs) = filter (\<lambda>r. job_owner_id r \<noteq> owner) rs"
    if "\<And>r. r \<in> set rs \<Longrightarrow> p r \<Longrightarrow> job_owner_id r = owner \<and> job_owner_id (f r) = owner" for rs
    using that by (induction rs) (auto simp: update_where_def)
  then show ?thesis using assms by (simp add: others_unchanged_def)
qed

lemma create_job_invalidates:
  assumes "create_job rt lib rl e user key t payload seen db s = (res, db', s', eff)"
  shows "db' = db \<or> others_unchanged (cu_id user) db db' \<and> InvalidateOwner (cu_id user) \<in> set eff"
  using assms by (cases rule: create_job_cases) (auto simp: others_unchanged_def)

lemma cancel_job_invalidates:
  assumes keys: "job_keys_ok db" and call: "cancel_job e user i reread db = (res, db', eff)"
  shows "db' = db \<or> (\<exists>owner. others_unchanged owner db db' \<and> InvalidateOwner owner \<in> set eff)"
proof (cases "\<exists>r \<in> set (db_jobs db). job_id r = i \<and> may_access user r")
  case True
  then obtain r where r: "r \<in> set (db_jobs db)" "job_id r = i" and acc: "may_access user r" by blast
  show ?thesis
  proof (cases "cancel_row (clock_now e 0) r")
    case None
    then show ?thesis using call cancel_job_idle [OF keys r acc None] by (auto split: if_splits)
  next
    case (Some r')
    then have same: "job_id r' = i" "job_owner_id r' = job_owner_id r" using r(2) by (auto simp: cancel_row_def split: if_splits)
    have own: "job_owner_id x = job_owner_id r" if "x \<in> set (db_jobs db)" "job_id x = i" for x
      using job_row_unique [OF keys that(1) r(1)] that(2) r(2) by simp
    have "db_jobs (cancelled_db e r r' db) = update_where (\<lambda>x. job_id x = i) (\<lambda>_. r') (db_jobs db)"
      by (simp add: put_row_def same(1))
    then have "others_unchanged (job_owner_id r) db (cancelled_db e r r' db)"
      by (rule others_unchanged_update) (simp add: own same(2))
    then show ?thesis using call cancel_job_changes [OF keys r acc Some] by (auto split: if_splits)
  qed
next
  case False
  then have "\<exists>x. load_authorized_job_for_update True user i db = Inl x"
    using load_authorized_eq [OF keys] load_authorized_missing [of db i] by (metis job_exists_def)
  then show ?thesis using call by (auto simp: cancel_job_denied)
qed

lemma claim_invalidates:
  assumes ok: "db_ok c db" and r: "r \<in> set (db_jobs db)" "job_id r = dm_job_id m"
    and call: "claim_execution rt w e m db = (res, db', ns)"
  shows "db_jobs db' = db_jobs db \<or> others_unchanged (job_owner_id r) db db' \<and> job_owner_id r \<in> nt_owner_id ` set ns"
proof (cases "job_status r = QUEUED \<and> count_running_for_owner (job_owner_id r) db < job_max_running_per_user (rt_settings rt) \<and> commit_ok e 0")
  case True
  then have "db' = start_db rt w e (job_id r) db" "job_owner_id r \<in> nt_owner_id ` set ns"
    using call claim_execution_eq [OF ok r, of rt w e] by (auto simp: settle_def job_notification_def)
  moreover have "others_unchanged (job_owner_id r) db (start_db rt w e (job_id r) db)"
  proof -
    obtain f where f: "db_jobs (start_db rt w e (job_id r) db) = update_where (\<lambda>x. job_id x = job_id r \<and> job_status x = QUEUED) f (db_jobs db)"
        "\<And>x. job_owner_id (f x) = job_owner_id x"
      by (simp add: start_db_def mark_running_def snd_update_jobs)
    have "job_owner_id x = job_owner_id r" if "x \<in> set (db_jobs db)" "job_id x = job_id r" for x
      using job_row_unique [OF db_ok_keys [OF ok] that(1) r(1) that(2)] by simp
    with f(2) show ?thesis by (intro others_unchanged_update [OF f(1)]) auto
  qed
  ultimately show ?thesis by simp
next
  case False
  then show ?thesis using call claim_execution_eq [OF ok r, of rt w e] by (auto simp: settle_def split: if_splits)
qed

end
