(* ===== verification/Announcements.thy ===== *)
theory Announcements
  imports Background System_History Example_Run
begin

text \<open>
  Which changes of a job its owner hears of. The workers, the recovery and the services notify after
  their COMMIT (\<^verbatim>\<open>src/app/workers/post_commit.py\<close>); here the notifications are compared with what the
  transaction did to the table: every change of a status is announced, with the job's owner, its new
  status and its attempts; only the services' notifications carry the request to cancel.
\<close>

section \<open>Announced changes\<close>

text \<open>
  A notification and the row it is about. Those of the services carry the request to cancel
  (\<open>full\<close>); those of the workers and of the recovery leave it out whatever the row says.
\<close>

definition announces :: "bool \<Rightarrow> notification \<Rightarrow> job \<Rightarrow> bool" where
  "announces full n r \<longleftrightarrow> nt_job_id n = job_id r \<and> nt_owner_id n = job_owner_id r \<and> nt_status n = job_status r \<and>
     nt_attempt_count n = job_attempt_count r \<and>
     nt_cancel_requested_at n = (if full then job_cancel_requested_at r else None)"

text \<open>
  A transaction took \<open>db\<close> to \<open>db'\<close> and the notifications describe the rows of \<open>seen\<close>: every row that is
  new or whose status (for the services, also whose request to cancel) differs from before has a
  notification, and every notification tells what a row of \<open>seen\<close> says.
\<close>

definition announced :: "bool \<Rightarrow> database \<Rightarrow> database \<Rightarrow> database \<Rightarrow> notification list \<Rightarrow> bool" where
  "announced full db db' seen ns \<longleftrightarrow>
     (\<forall>r' \<in> set (db_jobs db').
        (\<exists>r \<in> set (db_jobs db). job_id r = job_id r' \<and> job_status r = job_status r' \<and>
           (full \<longrightarrow> job_cancel_requested_at r = job_cancel_requested_at r')) \<or>
        (\<exists>n \<in> set ns. \<exists>r'' \<in> set (db_jobs seen). job_id r'' = job_id r' \<and> announces full n r'')) \<and>
     (\<forall>n \<in> set ns. \<exists>r'' \<in> set (db_jobs seen). announces full n r'')"

lemma announced_nothing: "db_jobs db' = db_jobs db \<Longrightarrow> announced full db db' seen []"
  by (auto simp: announced_def)

lemma announced_settle:
  assumes "settle changed ok v db' ns w db = (res, d, out)" and "changed \<Longrightarrow> ok \<Longrightarrow> announced full db db' db' ns"
  shows "announced full db d d out"
  using assms announced_nothing [OF refl] by (auto simp: settle_def split: if_splits)

text \<open>One row changes, and its new contents are announced.\<close>

lemma announced_update:
  assumes keys: "job_keys_ok db" and r: "r \<in> set (db_jobs db)" and n: "announces full n (f r)"
    and db': "db_jobs db' = update_where (\<lambda>x. job_id x = job_id r) f (db_jobs db)"
  shows "announced full db db' db' [n]"
proof -
  have "r' = f r \<or> r' \<in> set (db_jobs db)" if "r' \<in> set (db_jobs db')" for r'
    using that r keys unfolding db' set_update_where by (auto dest: job_row_unique)
  moreover have "f r \<in> set (db_jobs db')" using r unfolding db' set_update_where by auto
  ultimately show ?thesis using n unfolding announced_def by auto
qed

section \<open>Claims know their owner\<close>

definition claim_owned :: "database \<Rightarrow> execution_claim \<Rightarrow> bool" where
  "claim_owned db cl \<longleftrightarrow> (\<exists>r \<in> set (db_jobs db). job_id r = je_id (cl_job cl) \<and> job_owner_id r = je_owner_id (cl_job cl))"

definition flights_owned :: "system \<Rightarrow> bool" where
  "flights_owned s \<longleftrightarrow> (\<forall>fl \<in> set (sys_flights s). claim_owned (sys_db s) (fl_claim fl))"

lemma claim_owned_evolves:
  assumes "evolves L db db'" and "claim_owned db cl"
  shows "claim_owned db' cl"
proof -
  from assms(2) obtain r where r: "r \<in> set (db_jobs db)" "job_id r = je_id (cl_job cl)" "job_owner_id r = je_owner_id (cl_job cl)"
    by (auto simp: claim_owned_def)
  from assms(1) r(1) obtain r' where "r' \<in> set (db_jobs db')" "moves_in L r r'" by (rule evolves_forth)
  then show ?thesis using r moves_in_identity [of L r r'] by (auto simp: claim_owned_def same_identity_def)
qed

lemma claim_owned_step:
  assumes "codec_ok (rt_codec rt)" and "step rt lib s s'" and "system_ok rt s" and "claim_owned (sys_db s) cl"
  shows "claim_owned (sys_db s') cl"
  using step_jobs [OF assms(1-3)] claim_owned_evolves [OF _ assms(4)] assms(4) by (auto simp: claim_owned_def)

lemma step_flights:
  assumes "step rt lib s s'" and ok: "system_ok rt s" and "fl' \<in> set (sys_flights s')"
  shows "(\<exists>fl \<in> set (sys_flights s). fl_claim fl' = fl_claim fl) \<or> claim_owned (sys_db s) (fl_claim fl')"
  using assms(1,3)
proof cases
  case (receive_claimed e q msg q' w claim db' ns)
  from system_ok_parts(1) [OF ok] receive_claimed(4) show ?thesis
  proof (cases rule: receive_outcomes)
    case (claimed r)
    then have "claim_owned (sys_db s) claim" by (auto simp: claim_owned_def claim_of_def)
    then show ?thesis using receive_claimed assms(3) by auto
  qed auto
qed auto

lemma reachable_flights_owned:
  assumes "codec_ok (rt_codec rt)" and "reachable rt lib s"
  shows "flights_owned s"
proof -
  from assms(2) have "(step rt lib)\<^sup>*\<^sup>* initial_system s" by (simp add: reachable_def)
  then have "system_ok rt s \<and> flights_owned s"
  proof (induction rule: rtranclp_induct)
    case base
    then show ?case using initial_ok by (simp add: flights_owned_def initial_system_def)
  next
    case (step s1 s2)
    then have ok: "system_ok rt s1" and own: "flights_owned s1" by simp_all
    have "claim_owned (sys_db s2) (fl_claim fl)" if "fl \<in> set (sys_flights s2)" for fl
      using step_flights [OF step.hyps(2) ok that] own claim_owned_step [OF assms(1) step.hyps(2) ok]
      by (auto simp: flights_owned_def)
    then show ?case using step_ok [OF assms(1) step.hyps(2) ok] by (simp add: flights_owned_def)
  qed
  then show ?thesis ..
qed

section \<open>The transactions announce what they change\<close>

text \<open>A transaction that ends an execution: the update is guarded by the token, the notification is made from the claim.\<close>

lemma ending_announced:
  assumes keys: "job_keys_ok db" and cl: "claim_ok db cl" "claim_owned db cl"
    and f: "\<And>x. job_id (f x) = job_id x" "\<And>x. job_owner_id (f x) = job_owner_id x" "\<And>x. job_attempt_count (f x) = job_attempt_count x"
      "\<And>x. job_status (f x) = st"
    and hit: "fst (update_jobs (\<lambda>r. job_id r = je_id (cl_job cl) \<and> job_status r = RUNNING \<and> job_execution_token r = Some (cl_execution_token cl)) f db)"
    and db': "db_jobs db' = db_jobs (snd (update_jobs
      (\<lambda>r. job_id r = je_id (cl_job cl) \<and> job_status r = RUNNING \<and> job_execution_token r = Some (cl_execution_token cl)) f db))"
  shows "announced False db db' db' [job_notification (je_id (cl_job cl)) (je_owner_id (cl_job cl)) st (cl_attempt_number cl) now]"
proof -
  let ?p = "\<lambda>r. job_id r = je_id (cl_job cl) \<and> job_status r = RUNNING \<and> job_execution_token r = Some (cl_execution_token cl)"
  obtain r where r: "r \<in> set (db_jobs db)" "?p r" using fst_update_jobs [OF keys, of ?p "je_id (cl_job cl)" f] hit by blast
  have same: "x = r" if "x \<in> set (db_jobs db)" "job_id x = job_id r" for x using job_row_unique [OF keys that(1) r(1) that(2)] .
  have "db_jobs db' = update_where (\<lambda>x. job_id x = job_id r) f (db_jobs db)"
  proof -
    have "?p x \<longleftrightarrow> job_id x = job_id r" if "x \<in> set (db_jobs db)" for x using r(2) same [OF that] by metis
    then show ?thesis by (simp add: db' snd_update_jobs update_where_def cong: map_cong)
  qed
  moreover have "job_owner_id r = je_owner_id (cl_job cl)" using cl(2) same r(2) by (auto simp: claim_owned_def)
  moreover have "job_attempt_count r = cl_attempt_number cl" using cl(1) r by (auto simp: claim_ok_def)
  ultimately show ?thesis
    using r(2) f by (intro announced_update [OF keys r(1)]) (simp_all add: announces_def job_notification_def)
qed

lemma completed_announced:
  assumes "job_keys_ok db" "claim_ok db cl" "claim_owned db cl" and "worker_mark_completed e cl db = (res, db', ns)"
  shows "announced False db db' db' ns"
  using assms(4) unfolding worker_mark_completed_eq
  by (rule announced_settle) (rule ending_announced [OF assms(1-3)]; simp add: mark_completed_def)

lemma cancelled_announced:
  assumes "job_keys_ok db" "claim_ok db cl" "claim_owned db cl" and "worker_mark_cancelled e cl db = (res, db', ns)"
  shows "announced False db db' db' ns"
  using assms(4) unfolding worker_mark_cancelled_eq
  by (rule announced_settle) (rule ending_announced [OF assms(1-3)]; simp add: mark_cancelled_def)

lemma failed_announced:
  assumes "job_keys_ok db" "claim_ok db cl" "claim_owned db cl" and "worker_mark_failed e cl er db = (res, db', ns)"
  shows "announced False db db' db' ns"
  using assms(4) unfolding worker_mark_failed_eq
  by (rule announced_settle) (rule ending_announced [OF assms(1-3)]; simp add: mark_failed_def)

lemma retry_announced:
  assumes "job_keys_ok db" "claim_ok db cl" "claim_owned db cl" and "schedule_retry rt e cl er db = (res, db', ns)"
  shows "announced False db db' db' ns"
proof (cases "retry_backoff_seconds (cl_attempt_number cl)")
  case (Inl x)
  then show ?thesis using assms(4) announced_nothing [OF refl] by (simp add: schedule_retry_def Let_def)
next
  case (Inr d)
  show ?thesis using assms(4) unfolding schedule_retry_eq [OF Inr]
    by (rule announced_settle) (rule ending_announced [OF assms(1-3)]; simp add: requeue_running_def retry_db_def)
qed

lemma execution_announced:
  assumes "job_keys_ok db" "claim_ok db cl" "claim_owned db cl" and "execute_claim rt e cl polls db = Some (res, db', ns)"
  shows "announced False db db' db' ns"
proof -
  consider "worker_mark_completed e cl db = (res, db', ns)" | "worker_mark_cancelled e cl db = (res, db', ns)"
    | er where "worker_mark_failed e cl er db = (res, db', ns)" | er where "schedule_retry rt e cl er db = (res, db', ns)"
    using assms(4) by (auto simp: execute_claim_def finalize_failure_def split: run.splits exn.splits if_splits)
  then show ?thesis
    by cases (blast intro: completed_announced [OF assms(1-3)] cancelled_announced [OF assms(1-3)]
        failed_announced [OF assms(1-3)] retry_announced [OF assms(1-3)])+
qed

lemma receive_announced:
  assumes ok: "db_ok c db" and call: "receive_message rt w e msg db = (rcv, db', ns)"
  shows "announced False db db' db' ns"
proof (cases "model_validate_json (rt_codec rt) (msg_body msg)")
  case (Inl x)
  then show ?thesis using call announced_nothing [OF refl] by (simp add: receive_message_def)
next
  case (Inr m)
  obtain res where claim: "claim_execution rt w e m db = (res, db', ns)"
    using call Inr by (auto simp: receive_message_def split: prod.splits sum.splits option.splits)
  note keys = db_ok_keys [OF ok]
  show ?thesis
  proof (cases "scalar_where (\<lambda>r. job_id r = dm_job_id m) (db_jobs db)")
    case None
    then show ?thesis using claim announced_nothing [OF refl] by (simp add: claim_missing)
  next
    case (Some r)
    then have r: "r \<in> set (db_jobs db)" "job_id r = dm_job_id m" using keys by (simp_all add: job_lookup_iff)
    have deferred: "announced False db (defer_db rt e (job_id r) db) (defer_db rt e (job_id r) db)
        [job_notification (job_id r) (job_owner_id r) QUEUED (job_attempt_count r) now]" if "job_status r = QUEUED" for now
      using that r(1) keys by (auto simp: announced_def announces_def job_notification_def dest: job_row_unique)
    have started: "announced False db (start_db rt w e (job_id r) db) (start_db rt w e (job_id r) db)
        [job_notification (job_id r) (job_owner_id r) RUNNING (job_attempt_count r + 1) now]" if "job_status r = QUEUED" for now
    proof -
      let ?f = "\<lambda>r. r\<lparr>job_status := RUNNING, job_worker_id := Some w, job_execution_token := Some (uuid4 e 0),
        job_lease_expires_at := Some (clock_now e 0 + timedelta_seconds (job_lease_seconds (rt_settings rt))),
        job_started_at := (case job_started_at r of None \<Rightarrow> Some (clock_now e 0) | Some t \<Rightarrow> Some t),
        job_finished_at := None, job_last_error := None, job_attempt_count := job_attempt_count r + 1, job_updated_at := clock_now e 0\<rparr>"
      have "(job_id x = job_id r \<and> job_status x = QUEUED) \<longleftrightarrow> job_id x = job_id r" if "x \<in> set (db_jobs db)" for x
        using job_row_unique [OF keys that r(1)] \<open>job_status r = QUEUED\<close> by auto
      then have "db_jobs (start_db rt w e (job_id r) db) = update_where (\<lambda>x. job_id x = job_id r) ?f (db_jobs db)"
        by (simp add: start_db_def mark_running_def snd_update_jobs update_where_def cong: map_cong)
      then show ?thesis by (intro announced_update [OF keys r(1), where f = ?f]) (simp_all add: announces_def job_notification_def)
    qed
    show ?thesis
      using claim announced_nothing [OF refl] unfolding claim_execution_eq [OF ok r]
      by (auto split: if_splits dest!: announced_settle intro: deferred started)
  qed
qed

lemma recovery_announced:
  assumes ok: "db_ok c db" and call: "recover_due_batch_once rt e locked db = (res, db', ns)"
  shows "announced False db db' db' ns"
proof -
  define rs where rs: "rs = stale_rows locked (clock_now e 0) (recovery_batch_size (rt_settings rt)) db"
  note keys = db_ok_keys [OF ok]
  let ?now = "clock_now e 0"
  have old: "r \<in> set (db_jobs db)" if "r \<in> set rs" for r
    using stale_rows_recoverable [OF ok] that by (auto simp: rs recoverable_def)
  have jobs: "db_jobs (recovered_all (rt_codec rt) e ?now 0 rs db) = update_where (\<lambda>x. job_id x \<in> job_id ` set rs) (recover_row ?now) (db_jobs db)"
    using distinct_stale_rows [OF keys] by (simp add: rs recovered_all_jobs)
  have said: "announces False (recovery_notification ?now r) (recover_row ?now r)" for r
    by (simp add: announces_def recovery_notification_def job_notification_def)
  have "announced False db (recovered_all (rt_codec rt) e ?now 0 rs db) (recovered_all (rt_codec rt) e ?now 0 rs db) (map (recovery_notification ?now) rs)"
    unfolding announced_def jobs update_where_def set_map
  proof (intro conjI ballI)
    fix r' assume r': "r' \<in> (\<lambda>r. if job_id r \<in> job_id ` set rs then recover_row ?now r else r) ` set (db_jobs db)"
    from r' obtain x where x: "x \<in> set (db_jobs db)" "r' = (if job_id x \<in> job_id ` set rs then recover_row ?now x else x)" by blast
    have "(\<exists>r \<in> set (db_jobs db). job_id r = job_id r' \<and> job_status r = job_status r') \<or>
        (\<exists>n \<in> recovery_notification ?now ` set rs. announces False n r')"
    proof (cases "job_id x \<in> job_id ` set rs")
      case True
      then obtain y where "y \<in> set rs" "job_id x = job_id y" by auto
      then have "x \<in> set rs" using job_row_unique [OF keys x(1) old] by auto
      then show ?thesis using said [of x] True x(2) by auto
    qed (use x in auto)
    then show "(\<exists>r \<in> set (db_jobs db). job_id r = job_id r' \<and> job_status r = job_status r' \<and>
          (False \<longrightarrow> job_cancel_requested_at r = job_cancel_requested_at r')) \<or>
        (\<exists>n \<in> recovery_notification ?now ` set rs.
          \<exists>r'' \<in> (\<lambda>r. if job_id r \<in> job_id ` set rs then recover_row ?now r else r) ` set (db_jobs db).
            job_id r'' = job_id r' \<and> announces False n r'')"
      using r' by blast
  next
    fix n assume "n \<in> recovery_notification ?now ` set rs"
    then obtain r where r: "r \<in> set rs" "n = recovery_notification ?now r" by auto
    then show "\<exists>r' \<in> (\<lambda>r. if job_id r \<in> job_id ` set rs then recover_row ?now r else r) ` set (db_jobs db). announces False n r'"
      using said [of r] old [OF r(1)] by force
  qed
  then show ?thesis using call unfolding recover_due_batch_once_eq [OF ok rs] by (auto dest!: announced_settle)
qed

text \<open>What a service call notifies of.\<close>

fun notified :: "effect list \<Rightarrow> notification list" where
  "notified [] = []"
| "notified (Notify n # es) = n # notified es"
| "notified (InvalidateOwner u # es) = notified es"

lemma service_announces: "announces True (service_notification (to_job_public_dto (to_stored_job_dto r))) r"
  by (simp add: announces_def service_notification_def dto_defs)

text \<open>A cancellation is announced with what its second transaction reads, in a database that still has the job.\<close>

lemma cancel_announced:
  assumes ok: "db_ok c db" and call: "cancel_job e user i (\<lambda>_. Inr seen) db = (res, db', eff)"
    and later: "job_keys_ok seen" "job_id ` set (db_jobs db') \<subseteq> job_id ` set (db_jobs seen)"
  shows "announced True db db' seen (notified eff)"
proof (cases "\<exists>r \<in> set (db_jobs db). job_id r = i \<and> may_access user r")
  case True
  then obtain r where r: "r \<in> set (db_jobs db)" "job_id r = i" and acc: "may_access user r" by blast
  note keys = db_ok_keys [OF ok]
  show ?thesis
  proof (cases "cancel_row (clock_now e 0) r")
    case None
    then show ?thesis using call cancel_job_idle [OF keys r acc None] announced_nothing by (auto split: if_splits)
  next
    case (Some r')
    then have same: "job_id r' = i" using r(2) by (auto simp: cancel_row_def split: if_splits)
    have jobs: "set (db_jobs (cancelled_db e r r' db)) \<subseteq> insert r' (set (db_jobs db))"
        "r' \<in> set (db_jobs (cancelled_db e r r' db))"
      using r same by (auto simp: put_row_def set_update_where)
    show ?thesis
    proof (cases "commit_ok e 0")
      case True
      with call have db': "db' = cancelled_db e r r' db" by (simp add: cancel_job_changes [OF keys r acc Some])
      with later(2) jobs(2) same obtain r2 where r2: "r2 \<in> set (db_jobs seen)" "job_id r2 = i" by force
      then have "read_back (\<lambda>_. Inr seen) i db' = Inr (to_job_public_dto (to_stored_job_dto r2))"
        using job_lookup_iff [OF later(1), of i r2] by (simp add: read_back_def load_existing_job_by_id_def get_by_id_def)
      with call True db' have "notified eff = [service_notification (to_job_public_dto (to_stored_job_dto r2))]"
        by (auto simp: cancel_job_changes [OF keys r acc Some])
      with jobs(1) db' same r2 service_announces [of r2] show ?thesis by (fastforce simp: announced_def)
    next
      case False
      with call show ?thesis using announced_nothing by (auto simp: cancel_job_changes [OF keys r acc Some])
    qed
  qed
next
  case False
  then have "\<exists>x. load_authorized_job_for_update True user i db = Inl x"
    using load_authorized_eq [OF db_ok_keys [OF ok]] load_authorized_missing [of db i] by (metis job_exists_def)
  then show ?thesis using call announced_nothing by (auto simp: cancel_job_denied)
qed

text \<open>
  When the second transaction fails, the cancellation stands, the caller gets the error and nobody is
  notified.
\<close>

lemma unread_cancel_is_silent:
  assumes ok: "db_ok c db" and r: "r \<in> set (db_jobs db)" "job_id r = i" and acc: "may_access user r"
    and st: "job_status r \<in> {PENDING, QUEUED}" and e: "commit_ok e 0"
  shows "\<exists>db' eff. cancel_job e user i (\<lambda>_. Inl x) db = (Inl x, db', eff) \<and> notified eff = [] \<and>
    (\<exists>r' \<in> set (db_jobs db'). job_id r' = i \<and> job_status r' = CANCELLED)"
proof -
  from st obtain r' where row: "cancel_row (clock_now e 0) r = Some r'" "job_id r' = i" "job_status r' = CANCELLED"
    using r(2) by (auto simp: cancel_row_def)
  have "r' \<in> set (db_jobs (cancelled_db e r r' db))" using r row(2) by (auto simp: put_row_def set_update_where)
  then show ?thesis
    using row(2,3) e by (auto simp: cancel_job_changes [OF db_ok_keys [OF ok] r acc row(1)] read_back_def)
qed

lemma create_announced:
  assumes "create_job rt lib rl e user key t payload seen db s = (res, db', s', eff)"
  shows "announced True db db' db' (notified eff)"
  using assms
proof (cases rule: create_job_cases)
  case (created r)
  have "db_jobs db' = db_jobs db @ [r]" by (simp only: created(3)) (simp add: created_db_def add_job_def)
  moreover have "notified eff = [service_notification (to_job_public_dto (to_stored_job_dto r))]" by (simp only: created(5) notified.simps)
  ultimately show ?thesis using service_announces [of r] unfolding announced_def by auto
qed (simp add: announced_nothing)

section \<open>The transactions that notify\<close>

text \<open>
  A transaction that notifies, in state \<open>s\<close>: whether it is one of the services', the database it
  commits, the database its notifications are made from, and the notifications. A cancellation reads
  the job back in any state \<open>s2\<close> that the system has reached since.
\<close>

inductive notifying :: "runtime \<Rightarrow> text_lib \<Rightarrow> system \<Rightarrow> bool \<Rightarrow> database \<Rightarrow> database \<Rightarrow> notification list \<Rightarrow> bool" for rt lib s where
  create: "create_job rt lib (RedisCreateJobRateLimiter (tl_str_uuid lib) (rt_settings rt) io) e user key t payload seen
       (sys_db s) (sys_counters s) = (res, db', counters', eff) \<Longrightarrow>
     notifying rt lib s True db' db' (notified eff)"
| cancel: "cancel_job e user i (\<lambda>_. Inr (sys_db s2)) (sys_db s) = (res, db', eff) \<Longrightarrow>
     (step rt lib)\<^sup>*\<^sup>* (s\<lparr>sys_db := db'\<rparr>) s2 \<Longrightarrow> notifying rt lib s True db' (sys_db s2) (notified eff)"
| receive: "receive_message rt w e msg (sys_db s) = (rcv, db', ns) \<Longrightarrow> notifying rt lib s False db' db' ns"
| finish: "fl \<in> set (sys_flights s) \<Longrightarrow> execute_claim rt e (fl_claim fl) polls (sys_db s) = Some (res, db', ns) \<Longrightarrow>
     notifying rt lib s False db' db' ns"
| recover: "recover_due_batch_once rt e locked (sys_db s) = (res, db', ns) \<Longrightarrow> notifying rt lib s False db' db' ns"

lemma run_keeps_ids:
  assumes c: "codec_ok (rt_codec rt)" and ok: "system_ok rt s" and run: "(step rt lib)\<^sup>*\<^sup>* s s'"
  shows "job_keys_ok (sys_db s') \<and> job_id ` set (db_jobs (sys_db s)) \<subseteq> job_id ` set (db_jobs (sys_db s'))"
proof -
  have "system_ok rt s'" using run ok by (induction rule: rtranclp_induct) (auto intro: step_ok [OF c])
  then have "job_keys_ok (sys_db s')" using system_ok_parts(1) db_ok_keys by blast
  moreover have "job_id r \<in> job_id ` set (db_jobs (sys_db s'))" if r: "r \<in> set (db_jobs (sys_db s))" for r
  proof -
    obtain r' where "r' \<in> set (db_jobs (sys_db s'))" "moves_in UNIV r r'"
      using run_follows [OF c ok r run] by (auto simp: follows_def)
    then show ?thesis using moves_in_identity [of UNIV r r'] by (simp add: same_identity_def rev_image_eqI)
  qed
  ultimately show ?thesis by auto
qed

text \<open>
  C28: every change is announced truthfully. When a request creates or cancels a job, a worker claims
  one or ends an execution, or a recovery batch runs, in any reachable state and for every outcome: each job
  that is new or whose status changed (or, by a service, whose request to cancel changed) has a
  notification, and every notification states the owner, status and attempt count of the row, in the
  committed database, or for a cancellation in the database it is read back from later. The services'
  notifications also state the row's request to cancel; those of workers and recovery leave it
  out, even when the row has one. Two silent cases are outside: the publisher's move from pending to
  queued, and a cancellation that cannot be read back.
\<close>

theorem changes_announced:
  assumes "codec_ok (rt_codec rt)" and "reachable rt lib s" and "notifying rt lib s full db' seen ns"
  shows "announced full (sys_db s) db' seen ns"
proof -
  have ok: "system_ok rt s" using reachable_system_ok [OF assms(1,2)] .
  note db = system_ok_parts(1) [OF ok]
  from assms(3) show ?thesis
  proof cases
    case (cancel e user i s2 res eff)
    have "system_ok rt (s\<lparr>sys_db := db'\<rparr>)" using step_ok [OF assms(1) step.cancel [OF cancel(4)] ok] .
    from run_keeps_ids [OF assms(1) this cancel(5)] show ?thesis
      using cancel_announced [OF db cancel(4)] unfolding cancel(1-3) by simp
  next
    case (finish fl e polls res)
    have "claim_owned (sys_db s) (fl_claim fl)" using reachable_flights_owned [OF assms(1,2)] finish(3) by (simp add: flights_owned_def)
    then show ?thesis
      using execution_announced [OF db_ok_keys [OF db] system_ok_parts(5) [OF ok finish(3)] _ finish(4)] unfolding finish(1,2) by blast
  next
    case (create io e user key t payload seen' res counters' eff)
    show ?thesis using create_announced [OF create(4)] unfolding create(1-3) .
  next
    case (receive w e msg rcv)
    show ?thesis using receive_announced [OF db receive(3)] unfolding receive(1,2) .
  next
    case (recover e locked res)
    show ?thesis using recovery_announced [OF db recover(3)] unfolding recover(1,2) .
  qed
qed

theorem changes_announced_witness:
  "\<exists>n ns. announced False demo_db4 demo_db5 demo_db5 ns \<and> n \<in> set ns \<and> nt_job_id n = 200 \<and> nt_owner_id n = 100 \<and> nt_status n = QUEUED"
proof -
  obtain ns where ns: "recover_due_batch_once demo_rt (demo_env 70) (\<lambda>_. False) (sys_db demo_s4) = (Inr 1, demo_db5, ns)"
    using demo_recover by auto
  have a: "announced False demo_db4 demo_db5 demo_db5 ns"
    using changes_announced [OF _ demo_reachable4 notifying.recover [OF ns]] demo_codec_ok by simp
  moreover have "db_jobs demo_db4 = [demo_running]" "job_status demo_running = RUNNING" by (simp_all add: demo_db4_running)
  ultimately obtain n where "n \<in> set ns" "announces False n (recover_row 70000000 demo_running)"
    by (auto simp: announced_def demo_db5_jobs)
  then show ?thesis using a by (auto simp: announces_def)
qed

section \<open>What the worker's notifications leave out\<close>

text \<open>
  A request to cancel stays on the row whatever ends the execution, but the notification about the end carries
  none: subscribers of the status channel are told that no cancellation was requested.
\<close>

lemma moves_keep_request: "moves l r r' \<Longrightarrow> job_cancel_requested_at r = Some t \<Longrightarrow> job_cancel_requested_at r' = Some t"
  by (induction rule: moves.induct) simp_all

lemma moves_in_keep_request: "moves_in L r r' \<Longrightarrow> job_cancel_requested_at r = Some t \<Longrightarrow> job_cancel_requested_at r' = Some t"
  by (induction rule: moves_in_induct) (auto dest: moves_keep_request)

lemma execution_notification_drops_request:
  assumes "codec_ok (rt_codec rt)" "db_ok (rt_codec rt) db" "claim_ok db cl" "uuid4 e 0 \<notin> ev_id ` set (db_outbox_events db)"
    and run: "execute_claim rt e cl polls db = Some (res, db', ns)" and n: "n \<in> set ns"
    and r: "r \<in> set (db_jobs db)" "job_id r = nt_job_id n" "job_cancel_requested_at r = Some t"
  shows "nt_cancel_requested_at n = None \<and> (\<exists>r' \<in> set (db_jobs db'). job_id r' = nt_job_id n \<and> job_cancel_requested_at r' = Some t)"
proof
  have settled: "settle b c v d [job_notification i ow st k now] w d' = (res, db', ns) \<Longrightarrow> nt_cancel_requested_at n = None" for b c v d i ow st k now w d'
    using n by (auto simp: settle_def job_notification_def split: if_splits)
  have "(\<exists>er. schedule_retry rt e cl er db = (res, db', ns)) \<or> (\<exists>er. worker_mark_failed e cl er db = (res, db', ns)) \<or>
      worker_mark_cancelled e cl db = (res, db', ns) \<or> worker_mark_completed e cl db = (res, db', ns)"
    using run by (auto simp: execute_claim_def finalize_failure_def split: run.splits exn.splits if_splits)
  moreover have "nt_cancel_requested_at n = None" if "schedule_retry rt e cl er db = (res, db', ns)" for er
  proof (cases "retry_backoff_seconds (cl_attempt_number cl)")
    case (Inl x)
    then show ?thesis using that n by (auto simp: schedule_retry_def Let_def)
  next
    case (Inr d)
    from that [unfolded schedule_retry_eq [OF Inr]] show ?thesis by (rule settled)
  qed
  ultimately show "nt_cancel_requested_at n = None"
    by (auto simp: worker_mark_failed_eq worker_mark_cancelled_eq worker_mark_completed_eq dest: settled)
  have "evolves end_moves db db'" using execute_claim_safe [OF assms(1-4) run] by (simp add: safe_def)
  then obtain r' where "r' \<in> set (db_jobs db')" "moves_in end_moves r r'" using r(1) by (rule evolves_forth)
  then show "\<exists>r' \<in> set (db_jobs db'). job_id r' = nt_job_id n \<and> job_cancel_requested_at r' = Some t"
    using moves_in_keep_request [of end_moves r r' t] moves_in_identity [of end_moves r r'] r(2,3) by (auto simp: same_identity_def)
qed

end
