(* ===== verification/Migration.thy ===== *)
theory Migration
  imports Schema "HOL-Library.Char_ord" "HOL-Library.List_Lexorder"
begin

text \<open>
  The tables as they are declared: the mapped classes of \<^verbatim>\<open>src/app/models\<close> over the mixins of
  \<^verbatim>\<open>src/app/db/base.py\<close>, named by the convention of \<^verbatim>\<open>src/app/db/naming.py\<close>, and the migration
  \<^verbatim>\<open>alembic/versions/0001_initial_schema.py\<close> as a list of DDL statements. Executing the migration
  gives a catalogue; the lemmas show that this is the catalogue the mapped classes describe, that
  the downgrade removes exactly what the upgrade created, and that the constraint checks of the
  row model (\<open>jobs_insert_violation\<close>, \<open>users_insert_violation\<close>) are those of the catalogue.
\<close>

section \<open>Declarations\<close>

datatype sql_type =
    SqlUuid
  | SqlString "nat option"
  | SqlChar nat
  | SqlSmallInteger
  | SqlInteger
  | SqlBigInteger
  | SqlBoolean
  | SqlText
  | SqlJsonb
  | SqlDateTimeTz

record sql_column =
  col_name :: string
  col_type :: sql_type
  col_nullable :: bool
  col_identity :: bool

text \<open>The conditions of the CHECK constraints and of the partial indexes, as expressions.\<close>

datatype check_expr =
    ColumnIn string "string list"
  | ColumnGe string int
  | ColumnEq string int

datatype index_where =
    WhereTextIs string string
  | WhereNull string

datatype on_delete = RESTRICT | CASCADE

datatype sql_constraint =
    CheckConstraint string check_expr
  | PrimaryKeyConstraint string "string list"
  | UniqueConstraint string "string list"
  | ForeignKeyConstraint string string "string \<times> string" on_delete

text \<open>An index lists its columns, each with whether it is descending.\<close>

record sql_index =
  idx_name :: string
  idx_table :: string
  idx_columns :: "(string \<times> bool) list"
  idx_unique :: bool
  idx_where :: "index_where option"

record sql_table =
  tbl_name :: string
  tbl_columns :: "sql_column list"
  tbl_constraints :: "sql_constraint list"

record catalogue =
  cat_tables :: "sql_table list"
  cat_indexes :: "sql_index list"

definition empty_catalogue :: catalogue where
  "empty_catalogue = \<lparr>cat_tables = [], cat_indexes = []\<rparr>"

section \<open>Names\<close>

text \<open>
  Python's \<^verbatim>\<open>template % tokens\<close> for templates whose only directives are \<^verbatim>\<open>%(key)s\<close>; the second
  argument is the key being read, backwards. A missing key raises, which is \<open>None\<close>.
\<close>

fun percent_format :: "(string \<Rightarrow> string option) \<Rightarrow> string option \<Rightarrow> string \<Rightarrow> string option" where
  "percent_format tokens None [] = Some []"
| "percent_format tokens (Some k) [] = None"
| "percent_format tokens None (c # cs) =
     (if c = CHR ''%'' then percent_format tokens (Some []) (drop 1 cs)
      else map_option ((#) c) (percent_format tokens None cs))"
| "percent_format tokens (Some k) (c # cs) =
     (if c = CHR '')''
      then (case (tokens (rev k), percent_format tokens None (drop 1 cs)) of
              (Some v, Some rest) \<Rightarrow> Some (v @ rest)
            | _ \<Rightarrow> None)
      else percent_format tokens (Some (c # k)) cs)"

definition NAMING_CONVENTION :: "string \<Rightarrow> string option" where
  "NAMING_CONVENTION = map_of
     [(''ix'', ''ix_%(table_name)s_%(column_0_N_name)s''),
      (''uq'', ''uq_%(table_name)s_%(column_0_N_name)s''),
      (''ck'', ''ck_%(table_name)s_%(constraint_name)s''),
      (''fk'', ''fk_%(table_name)s_%(column_0_N_name)s_%(referred_table_name)s''),
      (''pk'', ''pk_%(table_name)s'')]"

text \<open>\<^verbatim>\<open>column_0_N_name\<close> is the column names joined by underscores.\<close>

fun join_names :: "string list \<Rightarrow> string" where
  "join_names [] = []"
| "join_names [c] = c"
| "join_names (c # cs) = c @ ''_'' @ join_names cs"

definition conventional_name :: "string \<Rightarrow> (string \<times> string) list \<Rightarrow> string" where
  "conventional_name kind tokens =
     (case Option.bind (NAMING_CONVENTION kind) (percent_format (map_of tokens) None) of Some n \<Rightarrow> n | None \<Rightarrow> [])"

section \<open>Mapped classes\<close>

text \<open>
  The arguments of \<^verbatim>\<open>mapped_column\<close>: \<open>mc_optional\<close> says whether the annotation is \<^verbatim>\<open>Mapped[... | None]\<close>, which decides
  nullability where \<^verbatim>\<open>nullable\<close> is not given; a primary key is never nullable.
\<close>

record mapped_column =
  mc_name :: string
  mc_type :: sql_type
  mc_optional :: bool
  mc_nullable :: "bool option"
  mc_primary_key :: bool
  mc_unique :: bool
  mc_foreign_key :: "(string \<times> string \<times> on_delete) option"
  mc_identity :: bool

definition column_of :: "string \<Rightarrow> sql_type \<Rightarrow> bool \<Rightarrow> bool option \<Rightarrow> mapped_column" where
  "column_of name type optional nullable =
     \<lparr>mc_name = name, mc_type = type, mc_optional = optional, mc_nullable = nullable, mc_primary_key = False,
      mc_unique = False, mc_foreign_key = None, mc_identity = False\<rparr>"

datatype table_arg =
    ArgCheck string check_expr
  | ArgUnique "string list"
  | ArgIndex string "(string \<times> bool) list" "index_where option"

record mapped_class =
  cls_tablename :: string
  cls_table_args :: "table_arg list"
  cls_columns :: "mapped_column list"

definition UUIDPrimaryKeyMixin :: "mapped_column list" where
  "UUIDPrimaryKeyMixin = [(column_of ''id'' SqlUuid False None)\<lparr>mc_primary_key := True\<rparr>]"

definition TimestampMixin :: "mapped_column list" where
  "TimestampMixin =
     [column_of ''created_at'' SqlDateTimeTz False None,
      column_of ''updated_at'' SqlDateTimeTz False None]"

definition User_class :: mapped_class where
  "User_class = \<lparr>
     cls_tablename = ''users'',
     cls_table_args = [ArgCheck ''users_role_valid'' (ColumnIn ''role'' [''user'', ''admin''])],
     cls_columns = UUIDPrimaryKeyMixin @ TimestampMixin @
       [(column_of ''email'' (SqlString (Some 320)) False (Some False))\<lparr>mc_unique := True\<rparr>,
        column_of ''password_hash'' (SqlString None) False (Some False),
        column_of ''role'' (SqlString (Some 16)) False (Some False),
        column_of ''is_active'' SqlBoolean False (Some False)]\<rparr>"

definition Job_class :: mapped_class where
  "Job_class = \<lparr>
     cls_tablename = ''jobs'',
     cls_table_args =
       [ArgCheck ''jobs_status_valid''
          (ColumnIn ''status'' [''pending'', ''queued'', ''running'', ''completed'', ''failed'', ''cancelled'']),
        ArgCheck ''jobs_attempt_count_non_negative'' (ColumnGe ''attempt_count'' 0),
        ArgCheck ''jobs_max_retries_fixed'' (ColumnEq ''max_retries'' 3),
        ArgUnique [''owner_id'', ''idempotency_key''],
        ArgIndex ''ix_jobs_owner_id_created_at_id'' [(''owner_id'', False), (''created_at'', True), (''id'', True)] None,
        ArgIndex ''ix_jobs_created_at_id'' [(''created_at'', True), (''id'', True)] None,
        ArgIndex ''ix_jobs_owner_id_running'' [(''owner_id'', False)] (Some (WhereTextIs ''status'' ''running'')),
        ArgIndex ''ix_jobs_lease_expires_at_running'' [(''lease_expires_at'', False)] (Some (WhereTextIs ''status'' ''running'')),
        ArgIndex ''ix_jobs_status_created_at'' [(''status'', False), (''created_at'', True)] None],
     cls_columns = UUIDPrimaryKeyMixin @ TimestampMixin @
       [(column_of ''owner_id'' SqlUuid False (Some False))\<lparr>mc_foreign_key := Some (''users'', ''id'', RESTRICT)\<rparr>,
        column_of ''type'' (SqlString (Some 64)) False (Some False),
        column_of ''payload'' SqlJsonb False (Some False),
        column_of ''status'' (SqlString (Some 16)) False (Some False),
        column_of ''idempotency_key'' (SqlString (Some 128)) False (Some False),
        column_of ''request_hash'' (SqlChar 64) False (Some False),
        column_of ''attempt_count'' SqlSmallInteger False (Some False),
        column_of ''max_retries'' SqlSmallInteger False (Some False),
        column_of ''cancel_requested_at'' SqlDateTimeTz True (Some True),
        column_of ''worker_id'' (SqlString (Some 128)) True (Some True),
        column_of ''execution_token'' SqlUuid True (Some True),
        column_of ''lease_expires_at'' SqlDateTimeTz True (Some True),
        column_of ''started_at'' SqlDateTimeTz True (Some True),
        column_of ''finished_at'' SqlDateTimeTz True (Some True),
        column_of ''last_error'' SqlText True (Some True)]\<rparr>"

definition JobLog_class :: mapped_class where
  "JobLog_class = \<lparr>
     cls_tablename = ''job_logs'',
     cls_table_args =
       [ArgIndex ''ix_job_logs_job_id_created_at_id'' [(''job_id'', False), (''created_at'', False), (''id'', False)] None],
     cls_columns =
       [(column_of ''id'' SqlBigInteger False None)\<lparr>mc_primary_key := True, mc_identity := True\<rparr>,
        (column_of ''job_id'' SqlUuid False (Some False))\<lparr>mc_foreign_key := Some (''jobs'', ''id'', CASCADE)\<rparr>,
        column_of ''attempt_number'' SqlSmallInteger True (Some True),
        column_of ''level'' (SqlString (Some 16)) False (Some False),
        column_of ''message'' SqlText False (Some False),
        column_of ''created_at'' SqlDateTimeTz False None]\<rparr>"

definition OutboxEvent_class :: mapped_class where
  "OutboxEvent_class = \<lparr>
     cls_tablename = ''outbox_events'',
     cls_table_args =
       [ArgIndex ''ix_outbox_events_available_at_created_at_unpublished''
          [(''available_at'', False), (''created_at'', False)] (Some (WhereNull ''published_at''))],
     cls_columns = UUIDPrimaryKeyMixin @ TimestampMixin @
       [column_of ''aggregate_id'' SqlUuid False (Some False),
        column_of ''event_type'' (SqlString (Some 64)) False (Some False),
        column_of ''payload'' SqlJsonb False (Some False),
        column_of ''available_at'' SqlDateTimeTz False (Some False),
        column_of ''publish_attempts'' SqlInteger False (Some False),
        column_of ''published_at'' SqlDateTimeTz True (Some True),
        column_of ''last_error'' SqlText True (Some True)]\<rparr>"

definition metadata :: "mapped_class list" where
  "metadata = [User_class, Job_class, JobLog_class, OutboxEvent_class]"

text \<open>What a mapped class declares: its columns, its constraints with their conventional names, its indexes.\<close>

definition declared_column :: "mapped_column \<Rightarrow> sql_column" where
  "declared_column c = \<lparr>
     col_name = mc_name c, col_type = mc_type c,
     col_nullable = (case mc_nullable c of Some b \<Rightarrow> b | None \<Rightarrow> mc_optional c \<and> \<not> mc_primary_key c),
     col_identity = mc_identity c\<rparr>"

definition column_constraints :: "string \<Rightarrow> mapped_column \<Rightarrow> sql_constraint list" where
  "column_constraints t c =
     (if mc_unique c
      then [UniqueConstraint (conventional_name ''uq'' [(''table_name'', t), (''column_0_N_name'', mc_name c)]) [mc_name c]]
      else []) @
     (case mc_foreign_key c of
        None \<Rightarrow> []
      | Some (rt, rc, od) \<Rightarrow>
          [ForeignKeyConstraint
             (conventional_name ''fk'' [(''table_name'', t), (''column_0_N_name'', mc_name c), (''referred_table_name'', rt)])
             (mc_name c) (rt, rc) od])"

fun arg_constraints :: "string \<Rightarrow> table_arg \<Rightarrow> sql_constraint list" where
  "arg_constraints t (ArgCheck n e) =
     [CheckConstraint (conventional_name ''ck'' [(''table_name'', t), (''constraint_name'', n)]) e]"
| "arg_constraints t (ArgUnique cs) =
     [UniqueConstraint (conventional_name ''uq'' [(''table_name'', t), (''column_0_N_name'', join_names cs)]) cs]"
| "arg_constraints t (ArgIndex n cs w) = []"

fun arg_indexes :: "string \<Rightarrow> table_arg \<Rightarrow> sql_index list" where
  "arg_indexes t (ArgIndex n cs w) = [\<lparr>idx_name = n, idx_table = t, idx_columns = cs, idx_unique = False, idx_where = w\<rparr>]"
| "arg_indexes t _ = []"

definition declared_table :: "mapped_class \<Rightarrow> sql_table" where
  "declared_table m = (let t = cls_tablename m in \<lparr>
     tbl_name = t,
     tbl_columns = map declared_column (cls_columns m),
     tbl_constraints =
       PrimaryKeyConstraint (conventional_name ''pk'' [(''table_name'', t)]) (map mc_name (filter mc_primary_key (cls_columns m))) #
       concat (map (column_constraints t) (cls_columns m)) @ concat (map (arg_constraints t) (cls_table_args m))\<rparr>)"

definition declared_catalogue :: "mapped_class list \<Rightarrow> catalogue" where
  "declared_catalogue ms = \<lparr>
     cat_tables = map declared_table ms,
     cat_indexes = concat (map (\<lambda>m. concat (map (arg_indexes (cls_tablename m)) (cls_table_args m))) ms)\<rparr>"

section \<open>Statements of the migration\<close>

datatype ddl =
    CreateTable sql_table
  | CreateIndex sql_index
  | DropIndex string string
  | DropTable string

datatype ddl_error =
    DuplicateRelation string
  | UndefinedTable string
  | UndefinedColumn string
  | UndefinedIndex string
  | InvalidForeignKey string
  | DependentObjectsExist string

text \<open>
  PostgreSQL keeps tables, indexes and the indexes behind primary keys and unique constraints in
  one namespace of relations.
\<close>

fun constraint_relation :: "sql_constraint \<Rightarrow> string list" where
  "constraint_relation (PrimaryKeyConstraint n cs) = [n]"
| "constraint_relation (UniqueConstraint n cs) = [n]"
| "constraint_relation _ = []"

definition table_relations :: "sql_table \<Rightarrow> string list" where
  "table_relations t = tbl_name t # concat (map constraint_relation (tbl_constraints t))"

definition relations :: "catalogue \<Rightarrow> string list" where
  "relations c = concat (map table_relations (cat_tables c)) @ map idx_name (cat_indexes c)"

definition find_table :: "catalogue \<Rightarrow> string \<Rightarrow> sql_table option" where
  "find_table c n = find (\<lambda>t. tbl_name t = n) (cat_tables c)"

fun is_key :: "string \<Rightarrow> sql_constraint \<Rightarrow> bool" where
  "is_key col (PrimaryKeyConstraint n cs) = (cs = [col])"
| "is_key col (UniqueConstraint n cs) = (cs = [col])"
| "is_key col _ = False"

text \<open>A foreign key must refer to a column that a primary key or unique constraint covers.\<close>

fun foreign_key_error :: "catalogue \<Rightarrow> sql_constraint \<Rightarrow> ddl_error option" where
  "foreign_key_error c (ForeignKeyConstraint n col (rt, rc) od) =
     (case find_table c rt of
        None \<Rightarrow> Some (UndefinedTable rt)
      | Some t \<Rightarrow> if list_ex (is_key rc) (tbl_constraints t) then None else Some (InvalidForeignKey n))"
| "foreign_key_error c _ = None"

fun references :: "string \<Rightarrow> sql_constraint \<Rightarrow> bool" where
  "references t (ForeignKeyConstraint n col (rt, rc) od) = (rt = t)"
| "references t _ = False"

definition clash :: "string list \<Rightarrow> string list \<Rightarrow> string option" where
  "clash new old = find (\<lambda>n. n \<in> set old) new"

text \<open>\<^verbatim>\<open>DROP TABLE\<close> without \<^verbatim>\<open>CASCADE\<close> fails while another table refers to it, and takes its indexes along.\<close>

fun exec_ddl :: "ddl \<Rightarrow> catalogue \<Rightarrow> ddl_error + catalogue" where
  "exec_ddl (CreateTable t) c =
     (case clash (table_relations t) (relations c) of
        Some n \<Rightarrow> Inl (DuplicateRelation n)
      | None \<Rightarrow>
          (case List.map_filter (foreign_key_error c) (tbl_constraints t) of
             e # _ \<Rightarrow> Inl e
           | [] \<Rightarrow> Inr (c\<lparr>cat_tables := cat_tables c @ [t]\<rparr>)))"
| "exec_ddl (CreateIndex i) c =
     (case find_table c (idx_table i) of
        None \<Rightarrow> Inl (UndefinedTable (idx_table i))
      | Some t \<Rightarrow>
          if idx_name i \<in> set (relations c) then Inl (DuplicateRelation (idx_name i))
          else case find (\<lambda>n. n \<notin> set (map col_name (tbl_columns t))) (map fst (idx_columns i)) of
                 Some n \<Rightarrow> Inl (UndefinedColumn n)
               | None \<Rightarrow> Inr (c\<lparr>cat_indexes := cat_indexes c @ [i]\<rparr>))"
| "exec_ddl (DropIndex n t) c =
     (if n \<in> set (map idx_name (cat_indexes c)) then Inr (c\<lparr>cat_indexes := filter (\<lambda>i. idx_name i \<noteq> n) (cat_indexes c)\<rparr>)
      else Inl (UndefinedIndex n))"
| "exec_ddl (DropTable n) c =
     (case find_table c n of
        None \<Rightarrow> Inl (UndefinedTable n)
      | Some t \<Rightarrow>
          if list_ex (\<lambda>u. tbl_name u \<noteq> n \<and> list_ex (references n) (tbl_constraints u)) (cat_tables c)
          then Inl (DependentObjectsExist n)
          else Inr (c\<lparr>cat_tables := filter (\<lambda>u. tbl_name u \<noteq> n) (cat_tables c),
                      cat_indexes := filter (\<lambda>i. idx_table i \<noteq> n) (cat_indexes c)\<rparr>))"

fun exec_ddls :: "ddl list \<Rightarrow> catalogue \<Rightarrow> ddl_error + catalogue" where
  "exec_ddls [] c = Inr c"
| "exec_ddls (d # ds) c = bind_result (exec_ddl d c) (exec_ddls ds)"

text \<open>
  \<^verbatim>\<open>with context.begin_transaction(): context.run_migrations()\<close>: DDL is transactional, a statement that
  fails takes back the ones before it.
\<close>

definition do_run_migrations :: "ddl list \<Rightarrow> catalogue \<Rightarrow> ddl_error option \<times> catalogue" where
  "do_run_migrations ds c = (case exec_ddls ds c of Inl e \<Rightarrow> (Some e, c) | Inr c' \<Rightarrow> (None, c'))"

definition Column :: "string \<Rightarrow> sql_type \<Rightarrow> bool \<Rightarrow> sql_column" where
  "Column name type nullable = \<lparr>col_name = name, col_type = type, col_nullable = nullable, col_identity = False\<rparr>"

definition create_index :: "string \<Rightarrow> string \<Rightarrow> (string \<times> bool) list \<Rightarrow> index_where option \<Rightarrow> ddl" where
  "create_index name table columns condition =
     CreateIndex \<lparr>idx_name = name, idx_table = table, idx_columns = columns, idx_unique = False, idx_where = condition\<rparr>"

definition users_table :: sql_table where
  "users_table = \<lparr>
     tbl_name = ''users'',
     tbl_columns =
       [Column ''id'' SqlUuid False,
        Column ''email'' (SqlString (Some 320)) False,
        Column ''password_hash'' (SqlString None) False,
        Column ''role'' (SqlString (Some 16)) False,
        Column ''is_active'' SqlBoolean False,
        Column ''created_at'' SqlDateTimeTz False,
        Column ''updated_at'' SqlDateTimeTz False],
     tbl_constraints =
       [CheckConstraint ''ck_users_users_role_valid'' (ColumnIn ''role'' [''user'', ''admin'']),
        PrimaryKeyConstraint ''pk_users'' [''id''],
        UniqueConstraint ''uq_users_email'' [''email'']]\<rparr>"

definition jobs_table :: sql_table where
  "jobs_table = \<lparr>
     tbl_name = ''jobs'',
     tbl_columns =
       [Column ''id'' SqlUuid False,
        Column ''owner_id'' SqlUuid False,
        Column ''type'' (SqlString (Some 64)) False,
        Column ''payload'' SqlJsonb False,
        Column ''status'' (SqlString (Some 16)) False,
        Column ''idempotency_key'' (SqlString (Some 128)) False,
        Column ''request_hash'' (SqlChar 64) False,
        Column ''attempt_count'' SqlSmallInteger False,
        Column ''max_retries'' SqlSmallInteger False,
        Column ''cancel_requested_at'' SqlDateTimeTz True,
        Column ''worker_id'' (SqlString (Some 128)) True,
        Column ''execution_token'' SqlUuid True,
        Column ''lease_expires_at'' SqlDateTimeTz True,
        Column ''started_at'' SqlDateTimeTz True,
        Column ''finished_at'' SqlDateTimeTz True,
        Column ''last_error'' SqlText True,
        Column ''created_at'' SqlDateTimeTz False,
        Column ''updated_at'' SqlDateTimeTz False],
     tbl_constraints =
       [CheckConstraint ''ck_jobs_jobs_attempt_count_non_negative'' (ColumnGe ''attempt_count'' 0),
        CheckConstraint ''ck_jobs_jobs_max_retries_fixed'' (ColumnEq ''max_retries'' 3),
        CheckConstraint ''ck_jobs_jobs_status_valid''
          (ColumnIn ''status'' [''pending'', ''queued'', ''running'', ''completed'', ''failed'', ''cancelled'']),
        ForeignKeyConstraint ''fk_jobs_owner_id_users'' ''owner_id'' (''users'', ''id'') RESTRICT,
        PrimaryKeyConstraint ''pk_jobs'' [''id''],
        UniqueConstraint ''uq_jobs_owner_id_idempotency_key'' [''owner_id'', ''idempotency_key'']]\<rparr>"

definition job_logs_table :: sql_table where
  "job_logs_table = \<lparr>
     tbl_name = ''job_logs'',
     tbl_columns =
       [(Column ''id'' SqlBigInteger False)\<lparr>col_identity := True\<rparr>,
        Column ''job_id'' SqlUuid False,
        Column ''attempt_number'' SqlSmallInteger True,
        Column ''level'' (SqlString (Some 16)) False,
        Column ''message'' SqlText False,
        Column ''created_at'' SqlDateTimeTz False],
     tbl_constraints =
       [ForeignKeyConstraint ''fk_job_logs_job_id_jobs'' ''job_id'' (''jobs'', ''id'') CASCADE,
        PrimaryKeyConstraint ''pk_job_logs'' [''id'']]\<rparr>"

definition outbox_events_table :: sql_table where
  "outbox_events_table = \<lparr>
     tbl_name = ''outbox_events'',
     tbl_columns =
       [Column ''id'' SqlUuid False,
        Column ''aggregate_id'' SqlUuid False,
        Column ''event_type'' (SqlString (Some 64)) False,
        Column ''payload'' SqlJsonb False,
        Column ''available_at'' SqlDateTimeTz False,
        Column ''publish_attempts'' SqlInteger False,
        Column ''published_at'' SqlDateTimeTz True,
        Column ''last_error'' SqlText True,
        Column ''created_at'' SqlDateTimeTz False,
        Column ''updated_at'' SqlDateTimeTz False],
     tbl_constraints = [PrimaryKeyConstraint ''pk_outbox_events'' [''id'']]\<rparr>"

definition upgrade :: "ddl list" where
  "upgrade =
     [CreateTable users_table,
      CreateTable jobs_table,
      create_index ''ix_jobs_owner_id_created_at_id'' ''jobs'' [(''owner_id'', False), (''created_at'', True), (''id'', True)] None,
      create_index ''ix_jobs_created_at_id'' ''jobs'' [(''created_at'', True), (''id'', True)] None,
      create_index ''ix_jobs_owner_id_running'' ''jobs'' [(''owner_id'', False)] (Some (WhereTextIs ''status'' ''running'')),
      create_index ''ix_jobs_lease_expires_at_running'' ''jobs'' [(''lease_expires_at'', False)] (Some (WhereTextIs ''status'' ''running'')),
      create_index ''ix_jobs_status_created_at'' ''jobs'' [(''status'', False), (''created_at'', True)] None,
      CreateTable job_logs_table,
      create_index ''ix_job_logs_job_id_created_at_id'' ''job_logs'' [(''job_id'', False), (''created_at'', False), (''id'', False)] None,
      CreateTable outbox_events_table,
      create_index ''ix_outbox_events_available_at_created_at_unpublished'' ''outbox_events''
        [(''available_at'', False), (''created_at'', False)] (Some (WhereNull ''published_at''))]"

definition downgrade :: "ddl list" where
  "downgrade =
     [DropIndex ''ix_outbox_events_available_at_created_at_unpublished'' ''outbox_events'',
      DropTable ''outbox_events'',
      DropIndex ''ix_job_logs_job_id_created_at_id'' ''job_logs'',
      DropTable ''job_logs'',
      DropIndex ''ix_jobs_status_created_at'' ''jobs'',
      DropIndex ''ix_jobs_lease_expires_at_running'' ''jobs'',
      DropIndex ''ix_jobs_owner_id_running'' ''jobs'',
      DropIndex ''ix_jobs_created_at_id'' ''jobs'',
      DropIndex ''ix_jobs_owner_id_created_at_id'' ''jobs'',
      DropTable ''jobs'',
      DropTable ''users'']"

section \<open>The migration creates what the mapped classes declare\<close>

definition same_table :: "sql_table \<Rightarrow> sql_table \<Rightarrow> bool" where
  "same_table t u \<longleftrightarrow> tbl_name t = tbl_name u \<and> set (tbl_columns t) = set (tbl_columns u) \<and>
     set (tbl_constraints t) = set (tbl_constraints u)"

definition same_catalogue :: "catalogue \<Rightarrow> catalogue \<Rightarrow> bool" where
  "same_catalogue c d \<longleftrightarrow> list_all2 same_table (cat_tables c) (cat_tables d) \<and> set (cat_indexes c) = set (cat_indexes d)"

definition initial_schema :: catalogue where
  "initial_schema = (case exec_ddls upgrade empty_catalogue of Inr c \<Rightarrow> c | Inl _ \<Rightarrow> empty_catalogue)"

lemma upgrade_runs: "exec_ddls upgrade empty_catalogue = Inr initial_schema"
  by code_simp

lemma initial_schema_matches_metadata: "same_catalogue initial_schema (declared_catalogue metadata)"
  by code_simp

lemma downgrade_runs: "exec_ddls downgrade initial_schema = Inr empty_catalogue"
  by code_simp

lemma initial_schema_tables: "cat_tables initial_schema = [users_table, jobs_table, job_logs_table, outbox_events_table]"
  by code_simp

section \<open>Other objects of the database\<close>

text \<open>
  The database may hold other tables and indexes: a catalogue whose foreign keys and indexes name its own
  tables. Statements that name none of its relations act beside it.
\<close>

fun own_foreign_key :: "string list \<Rightarrow> sql_constraint \<Rightarrow> bool" where
  "own_foreign_key ts (ForeignKeyConstraint n col (rt, rc) od) = (rt \<in> set ts)"
| "own_foreign_key ts _ = True"

definition wf_catalogue :: "catalogue \<Rightarrow> bool" where
  "wf_catalogue c \<longleftrightarrow> (let ts = map tbl_name (cat_tables c) in
     list_all (\<lambda>t. list_all (own_foreign_key ts) (tbl_constraints t)) (cat_tables c) \<and>
     list_all (\<lambda>i. idx_table i \<in> set ts) (cat_indexes c))"

definition beside :: "catalogue \<Rightarrow> catalogue \<Rightarrow> catalogue" where
  "beside c d = \<lparr>cat_tables = cat_tables c @ cat_tables d, cat_indexes = cat_indexes c @ cat_indexes d\<rparr>"

fun referred_tables :: "sql_constraint \<Rightarrow> string list" where
  "referred_tables (ForeignKeyConstraint n col (rt, rc) od) = [rt]"
| "referred_tables _ = []"

fun named :: "ddl \<Rightarrow> string list" where
  "named (CreateTable t) = table_relations t @ concat (map referred_tables (tbl_constraints t))"
| "named (CreateIndex i) = [idx_name i, idx_table i]"
| "named (DropIndex n t) = [n, t]"
| "named (DropTable n) = [n]"

lemma find_append: "find P (xs @ ys) = (case find P xs of Some x \<Rightarrow> Some x | None \<Rightarrow> find P ys)"
  by (induction xs) auto

lemma find_cong_set: "(\<And>x. x \<in> set xs \<Longrightarrow> P x = Q x) \<Longrightarrow> find P xs = find Q xs"
  by (induction xs) auto

lemma table_name_relation: "t \<in> set (cat_tables c) \<Longrightarrow> tbl_name t \<in> set (relations c)"
  by (auto simp: relations_def table_relations_def)

lemma find_table_beside: "n \<notin> set (relations c) \<Longrightarrow> find_table (beside c d) n = find_table d n"
  using table_name_relation [of _ c] find_None_iff [of "\<lambda>t. tbl_name t = n" "cat_tables c"]
  by (auto simp: find_table_def beside_def find_append split: option.split)

lemma relations_beside: "set (relations (beside c d)) = set (relations c) \<union> set (relations d)"
  by (auto simp: relations_def beside_def)

lemma foreign_key_error_beside:
  "set (referred_tables k) \<inter> set (relations c) = {} \<Longrightarrow> foreign_key_error (beside c d) k = foreign_key_error d k"
  by (induction "d" k rule: foreign_key_error.induct) (auto simp: find_table_beside)

lemma clash_beside: "set ns \<inter> set (relations c) = {} \<Longrightarrow> clash ns (relations (beside c d)) = clash ns (relations d)"
  unfolding clash_def by (rule find_cong_set) (auto simp: relations_beside)

lemma not_referenced: "own_foreign_key ts k \<Longrightarrow> n \<notin> set ts \<Longrightarrow> \<not> references n k"
  by (cases "(n, k)" rule: references.cases) auto

lemma map_filter_cong_set: "(\<And>x. x \<in> set xs \<Longrightarrow> f x = g x) \<Longrightarrow> List.map_filter f xs = List.map_filter g xs"
  by (induction xs) (auto simp: List.map_filter_simps split: option.split)

lemma exec_ddl_beside:
  assumes "wf_catalogue c" and "set (named s) \<inter> set (relations c) = {}"
  shows "exec_ddl s (beside c d) = map_sum id (beside c) (exec_ddl s d)"
proof (cases s)
  case (CreateTable t)
  have "List.map_filter (foreign_key_error (beside c d)) (tbl_constraints t) =
      List.map_filter (foreign_key_error d) (tbl_constraints t)"
    using assms(2) CreateTable by (intro map_filter_cong_set foreign_key_error_beside) auto
  then show ?thesis using CreateTable assms(2)
    by (simp add: clash_beside Int_Un_distrib2 split: option.split list.split) (simp add: beside_def)
next
  case (CreateIndex i)
  then show ?thesis using assms(2)
    by (simp add: find_table_beside relations_beside split: option.split) (simp add: beside_def)
next
  case (DropIndex n t)
  then have "n \<notin> set (map idx_name (cat_indexes c))" using assms(2) by (auto simp: relations_def)
  moreover from this have "filter (\<lambda>i. idx_name i \<noteq> n) (cat_indexes c) = cat_indexes c" by (auto intro!: filter_True)
  ultimately show ?thesis using DropIndex by (simp add: beside_def)
next
  case (DropTable n)
  then have n: "n \<notin> set (relations c)" using assms(2) by simp
  then have t: "n \<notin> set (map tbl_name (cat_tables c))" using table_name_relation by fastforce
  then have "filter (\<lambda>u. tbl_name u \<noteq> n) (cat_tables c) = cat_tables c" "filter (\<lambda>i. idx_table i \<noteq> n) (cat_indexes c) = cat_indexes c"
    using assms(1) by (auto simp: wf_catalogue_def list_all_iff Let_def intro!: filter_True)
  moreover have "\<not> list_ex (\<lambda>u. tbl_name u \<noteq> n \<and> list_ex (references n) (tbl_constraints u)) (cat_tables c)"
    using assms(1) not_referenced [OF _ t] by (auto simp: wf_catalogue_def list_all_iff list_ex_iff Let_def)
  ultimately show ?thesis using DropTable n
    by (simp add: find_table_beside split: option.split) (simp add: beside_def)
qed

lemma exec_ddls_beside:
  assumes "wf_catalogue c" and "list_all (\<lambda>s. set (named s) \<inter> set (relations c) = {}) ds"
  shows "exec_ddls ds (beside c d) = map_sum id (beside c) (exec_ddls ds d)"
  using assms(2)
proof (induction ds arbitrary: d)
  case (Cons s ds)
  then show ?case using exec_ddl_beside [OF assms(1), of s d] by (cases "exec_ddl s d") simp_all
qed simp

lemma beside_empty: "beside c empty_catalogue = c"
  by (simp add: beside_def empty_catalogue_def)

section \<open>Rows against the catalogue\<close>

text \<open>The value of a column, and a row as its columns' values.\<close>

datatype sql_value =
    VNull
  | VInt int
  | VText string
  | VUuid uuid
  | VBool bool
  | VJson json_object
  | VTime datetime

type_synonym sql_row = "(string \<times> sql_value) list"

fun nullable :: "('a \<Rightarrow> sql_value) \<Rightarrow> 'a option \<Rightarrow> sql_value" where
  "nullable f None = VNull"
| "nullable f (Some v) = f v"

definition user_row :: "user \<Rightarrow> sql_row" where
  "user_row u =
     [(''id'', VUuid (user_id u)), (''email'', VText (user_email u)), (''password_hash'', VText (user_password_hash u)),
      (''role'', VText (UserRole_value (user_role u))), (''is_active'', VBool (user_is_active u)),
      (''created_at'', VTime (user_created_at u)), (''updated_at'', VTime (user_updated_at u))]"

definition job_row :: "job \<Rightarrow> sql_row" where
  "job_row r =
     [(''id'', VUuid (job_id r)), (''owner_id'', VUuid (job_owner_id r)), (''type'', VText (JobType_value (job_type r))),
      (''payload'', VJson (job_payload r)), (''status'', VText (JobStatus_value (job_status r))),
      (''idempotency_key'', VText (job_idempotency_key r)), (''request_hash'', VText (job_request_hash r)),
      (''attempt_count'', VInt (job_attempt_count r)), (''max_retries'', VInt (job_max_retries r)),
      (''cancel_requested_at'', nullable VTime (job_cancel_requested_at r)), (''worker_id'', nullable VText (job_worker_id r)),
      (''execution_token'', nullable VUuid (job_execution_token r)), (''lease_expires_at'', nullable VTime (job_lease_expires_at r)),
      (''started_at'', nullable VTime (job_started_at r)), (''finished_at'', nullable VTime (job_finished_at r)),
      (''last_error'', nullable VText (job_last_error r)),
      (''created_at'', VTime (job_created_at r)), (''updated_at'', VTime (job_updated_at r))]"

definition job_log_row :: "job_log \<Rightarrow> sql_row" where
  "job_log_row l =
     [(''id'', VInt (log_id l)), (''job_id'', VUuid (log_job_id l)), (''attempt_number'', nullable VInt (log_attempt_number l)),
      (''level'', VText (job_log.log_level l)), (''message'', VText (log_message l)), (''created_at'', VTime (log_created_at l))]"

definition outbox_event_row :: "outbox_event \<Rightarrow> sql_row" where
  "outbox_event_row e =
     [(''id'', VUuid (ev_id e)), (''aggregate_id'', VUuid (ev_aggregate_id e)), (''event_type'', VText (ev_event_type e)),
      (''payload'', VJson (ev_payload e)), (''available_at'', VTime (ev_available_at e)),
      (''publish_attempts'', VInt (ev_publish_attempts e)), (''published_at'', nullable VTime (ev_published_at e)),
      (''last_error'', nullable VText (ev_last_error e)),
      (''created_at'', VTime (ev_created_at e)), (''updated_at'', VTime (ev_updated_at e))]"

definition stored_rows :: "database \<Rightarrow> string \<Rightarrow> sql_row list" where
  "stored_rows db t =
     (if t = ''users'' then map user_row (db_users db)
      else if t = ''jobs'' then map job_row (db_jobs db)
      else if t = ''job_logs'' then map job_log_row (db_job_logs db)
      else if t = ''outbox_events'' then map outbox_event_row (db_outbox_events db)
      else [])"

text \<open>A CHECK constraint rejects a row only when its condition is false; a condition on NULL is not.\<close>

fun check_rejects :: "sql_row \<Rightarrow> check_expr \<Rightarrow> bool" where
  "check_rejects row (ColumnIn c vs) = (case map_of row c of Some (VText s) \<Rightarrow> s \<notin> set vs | _ \<Rightarrow> False)"
| "check_rejects row (ColumnGe c n) = (case map_of row c of Some (VInt i) \<Rightarrow> i < n | _ \<Rightarrow> False)"
| "check_rejects row (ColumnEq c n) = (case map_of row c of Some (VInt i) \<Rightarrow> i \<noteq> n | _ \<Rightarrow> False)"

definition same_key :: "string list \<Rightarrow> sql_row \<Rightarrow> sql_row \<Rightarrow> bool" where
  "same_key cs a b = list_all (\<lambda>c. map_of a c = map_of b c \<and> map_of a c \<noteq> Some VNull) cs"

fun check_violation :: "sql_row \<Rightarrow> sql_constraint \<Rightarrow> (string \<times> violation) option" where
  "check_violation row (CheckConstraint n e) = (if check_rejects row e then Some (n, CheckViolation n) else None)"
| "check_violation row _ = None"

fun primary_violation :: "sql_row list \<Rightarrow> sql_row \<Rightarrow> sql_constraint \<Rightarrow> violation option" where
  "primary_violation rows row (PrimaryKeyConstraint n cs) = (if list_ex (same_key cs row) rows then Some (UniqueViolation n) else None)"
| "primary_violation rows row _ = None"

fun unique_violation :: "sql_row list \<Rightarrow> sql_row \<Rightarrow> sql_constraint \<Rightarrow> violation option" where
  "unique_violation rows row (UniqueConstraint n cs) = (if list_ex (same_key cs row) rows then Some (UniqueViolation n) else None)"
| "unique_violation rows row _ = None"

fun foreign_violation :: "(string \<Rightarrow> sql_row list) \<Rightarrow> sql_row \<Rightarrow> sql_constraint \<Rightarrow> violation option" where
  "foreign_violation db row (ForeignKeyConstraint n c (rt, rc) od) =
     (if map_of row c = Some VNull \<or> list_ex (\<lambda>r. map_of r rc = map_of row c) (db rt) then None else Some (ForeignKeyViolation n))"
| "foreign_violation db row _ = None"

definition first_of :: "'a list \<Rightarrow> 'a option" where
  "first_of xs = (case xs of [] \<Rightarrow> None | x # _ \<Rightarrow> Some x)"

fun or_else :: "'a option \<Rightarrow> 'a option \<Rightarrow> 'a option" where
  "or_else (Some x) y = Some x"
| "or_else None y = y"

text \<open>
  What an INSERT reports: of the violated CHECK constraints the first in the order of names, then the
  primary key, then the unique constraints, then the foreign keys.
\<close>

definition insert_violation :: "sql_table \<Rightarrow> (string \<Rightarrow> sql_row list) \<Rightarrow> sql_row \<Rightarrow> violation option" where
  "insert_violation t db row =
     (let ks = tbl_constraints t; rows = db (tbl_name t) in
      or_else (map_option snd (first_of (sort_key fst (List.map_filter (check_violation row) ks))))
        (or_else (first_of (List.map_filter (primary_violation rows row) ks))
          (or_else (first_of (List.map_filter (unique_violation rows row) ks))
            (first_of (List.map_filter (foreign_violation db row) ks)))))"

named_theorems row_defs "rows as column values"
declare user_row_def [row_defs] job_row_def [row_defs] job_log_row_def [row_defs] outbox_event_row_def [row_defs]

text \<open>The value lists of \<^verbatim>\<open>src/app/core/constants.py\<close> are the values of the enumerations, in their order.\<close>

definition USER_ROLE_VALUES :: "string list" where
  "USER_ROLE_VALUES = [''user'', ''admin'']"

definition JOB_STATUS_VALUES :: "string list" where
  "JOB_STATUS_VALUES = [''pending'', ''queued'', ''running'', ''completed'', ''failed'', ''cancelled'']"

lemma value_lists_match_enumerations:
  "USER_ROLE_VALUES = map UserRole_value [USER, ADMIN]" "JOB_STATUS_VALUES = map JobStatus_value enum_class.enum"
  "CheckConstraint ''ck_jobs_jobs_status_valid'' (ColumnIn ''status'' JOB_STATUS_VALUES) \<in> set (tbl_constraints jobs_table)"
  "CheckConstraint ''ck_users_users_role_valid'' (ColumnIn ''role'' USER_ROLE_VALUES) \<in> set (tbl_constraints users_table)"
  by (simp_all add: USER_ROLE_VALUES_def JOB_STATUS_VALUES_def enum_JobStatus_def jobs_table_def users_table_def)

lemma role_admitted: "UserRole_value x \<in> {''user'', ''admin''}"
  by (cases x) simp_all

lemma status_admitted:
  "JobStatus_value x \<in> {''pending'', ''queued'', ''running'', ''completed'', ''failed'', ''cancelled''}"
  by (cases x) simp_all

text \<open>The constraint checks of the row model are those of the tables the migration creates.\<close>

lemma users_violation_as_declared:
  "users_insert_violation u db = insert_violation users_table (stored_rows db) (user_row u)"
  using role_admitted [of "user_role u"]
  by (auto simp: users_insert_violation_def insert_violation_def users_table_def stored_rows_def List.map_filter_simps
      first_of_def same_key_def list_ex_iff row_defs)

lemma jobs_violation_as_declared:
  "jobs_insert_violation r db = insert_violation jobs_table (stored_rows db) (job_row r)"
  using status_admitted [of "job_status r"]
  by (auto simp: jobs_insert_violation_def insert_violation_def jobs_table_def stored_rows_def List.map_filter_simps
      first_of_def same_key_def list_ex_iff row_defs)

text \<open>Whether the rows of a table satisfy a constraint of it, whatever statement wrote them.\<close>

definition key_of :: "string list \<Rightarrow> sql_row \<Rightarrow> sql_value option list" where
  "key_of cs row = map (map_of row) cs"

fun constraint_holds :: "(string \<Rightarrow> sql_row list) \<Rightarrow> string \<Rightarrow> sql_constraint \<Rightarrow> bool" where
  "constraint_holds db t (CheckConstraint n e) = (\<not> list_ex (\<lambda>r. check_rejects r e) (db t))"
| "constraint_holds db t (PrimaryKeyConstraint n cs) =
     (distinct (map (key_of cs) (db t)) \<and> \<not> list_ex (\<lambda>r. Some VNull \<in> set (key_of cs r)) (db t))"
| "constraint_holds db t (UniqueConstraint n cs) =
     distinct (map (key_of cs) (filter (\<lambda>r. Some VNull \<notin> set (key_of cs r)) (db t)))"
| "constraint_holds db t (ForeignKeyConstraint n c (rt, rc) od) =
     list_all (\<lambda>r. map_of r c = Some VNull \<or> list_ex (\<lambda>r'. map_of r' rc = map_of r c) (db rt)) (db t)"

section \<open>Values and column types\<close>

text \<open>The values a column type takes: a string within its length, an integer within its width.\<close>

fun accepts :: "sql_type \<Rightarrow> sql_value \<Rightarrow> bool" where
  "accepts SqlUuid (VUuid i) = True"
| "accepts (SqlString None) (VText s) = True"
| "accepts (SqlString (Some n)) (VText s) = (length s \<le> n)"
| "accepts (SqlChar n) (VText s) = (length s \<le> n)"
| "accepts SqlSmallInteger (VInt i) = (- (2 ^ 15) \<le> i \<and> i < 2 ^ 15)"
| "accepts SqlInteger (VInt i) = (- (2 ^ 31) \<le> i \<and> i < 2 ^ 31)"
| "accepts SqlBigInteger (VInt i) = (- (2 ^ 63) \<le> i \<and> i < 2 ^ 63)"
| "accepts SqlBoolean (VBool b) = True"
| "accepts SqlText (VText s) = True"
| "accepts SqlJsonb (VJson j) = True"
| "accepts SqlDateTimeTz (VTime t) = True"
| "accepts _ _ = False"

definition column_fits :: "sql_row \<Rightarrow> sql_column \<Rightarrow> bool" where
  "column_fits row c =
     (case map_of row (col_name c) of
        None \<Rightarrow> False
      | Some v \<Rightarrow> if v = VNull then col_nullable c else accepts (col_type c) v)"

definition row_fits :: "sql_table \<Rightarrow> sql_row \<Rightarrow> bool" where
  "row_fits t row \<longleftrightarrow> map fst row = map col_name (tbl_columns t) \<and> list_all (column_fits row) (tbl_columns t)"

named_theorems table_defs "tables of the migration"
declare users_table_def [table_defs] jobs_table_def [table_defs] job_logs_table_def [table_defs]
  outbox_events_table_def [table_defs] Column_def [table_defs]

lemma nullable_cases: "nullable f x = (case x of None \<Rightarrow> VNull | Some v \<Rightarrow> f v)"
  by (cases x) simp_all

lemma nullable_fits [simp]:
  "nullable f x = VNull \<longleftrightarrow> x = None \<or> (\<exists>v. x = Some v \<and> f v = VNull)"
  "accepts SqlDateTimeTz (nullable VTime t) \<longleftrightarrow> t \<noteq> None"
  "accepts SqlUuid (nullable VUuid i) \<longleftrightarrow> i \<noteq> None"
  "accepts SqlText (nullable VText s) \<longleftrightarrow> s \<noteq> None"
  by (simp_all add: nullable_cases split: option.split)

lemma role_length [simp]: "length (UserRole_value x) \<le> 16"
  by (cases x) simp_all

lemma status_length [simp]: "length (JobStatus_value x) \<le> 16"
  by (cases x) simp_all

lemma type_length [simp]: "length (JobType_value x) \<le> 64"
  by (cases x) simp_all

text \<open>The integers that do not fit are those the row model rejects.\<close>

lemma data_error_as_declared:
  "jobs_data_error r \<longleftrightarrow>
     \<not> accepts SqlSmallInteger (VInt (job_attempt_count r)) \<or> \<not> accepts SqlSmallInteger (VInt (job_max_retries r))"
  by (simp add: jobs_data_error_def in_smallint_def)

text \<open>What the program has to see to when it writes a row; the rest is fixed by the types of the row model.\<close>

lemma user_row_fits: "row_fits users_table (user_row u) \<longleftrightarrow> length (user_email u) \<le> 320"
  by (simp add: row_fits_def column_fits_def table_defs row_defs)

lemma job_row_fits:
  "row_fits jobs_table (job_row r) \<longleftrightarrow>
     length (job_idempotency_key r) \<le> 128 \<and> length (job_request_hash r) \<le> 64 \<and>
     accepts SqlSmallInteger (VInt (job_attempt_count r)) \<and> accepts SqlSmallInteger (VInt (job_max_retries r)) \<and>
     pred_option (\<lambda>w. length w \<le> 128) (job_worker_id r)"
  by (cases "job_worker_id r") (simp_all add: row_fits_def column_fits_def table_defs row_defs)

end
