(* ===== verification/Schema_Integrity.thy ===== *)
theory Schema_Integrity
  imports Migration Example_Run
begin

text \<open>
  The declared schema and the running system: the migration gives the tables the mapped classes
  describe and the constraint checks of the row model, and no transaction of the system ever
  leaves a row that violates a declared constraint. The model performs the checks on inserts into
  \<^verbatim>\<open>users\<close> and \<^verbatim>\<open>jobs\<close>, where the program relies on them; the second result says that the other
  statements (every UPDATE, the inserts into \<^verbatim>\<open>job_logs\<close> and \<^verbatim>\<open>outbox_events\<close>) need none.
\<close>

section \<open>Applying and taking back the migration\<close>

lemma migration_runs_beside:
  assumes "wf_catalogue c" and "list_all (\<lambda>s. set (named s) \<inter> set (relations c) = {}) (upgrade @ downgrade)"
  shows "do_run_migrations upgrade c = (None, beside c initial_schema) \<and>
    do_run_migrations downgrade (beside c initial_schema) = (None, c)"
  using exec_ddls_beside [OF assms(1), of upgrade empty_catalogue] exec_ddls_beside [OF assms(1), of downgrade initial_schema] assms(2)
  by (simp add: do_run_migrations_def upgrade_runs downgrade_runs beside_empty)

text \<open>A second upgrade fails and changes nothing.\<close>

lemma migration_runs_once:
  "do_run_migrations upgrade initial_schema = (Some (DuplicateRelation ''users''), initial_schema)"
  by code_simp

text \<open>
  C13: the migration creates what the mapped classes declare. On an empty database the upgrade succeeds and
  gives, up to the order of columns, constraints and indexes, the tables of the four classes with the names
  of the naming convention; and the constraints an insert into \<^verbatim>\<open>users\<close> or \<^verbatim>\<open>jobs\<close> is checked for, with
  the one that is reported, are those of the tables it created.
\<close>

theorem migration_implements_models:
  "\<exists>c users jobs. do_run_migrations upgrade empty_catalogue = (None, c) \<and>
     same_catalogue c (declared_catalogue metadata) \<and>
     find_table c ''users'' = Some users \<and> find_table c ''jobs'' = Some jobs \<and>
     users_insert_violation u db = insert_violation users (stored_rows db) (user_row u) \<and>
     jobs_insert_violation r db = insert_violation jobs (stored_rows db) (job_row r)"
proof -
  have "find_table initial_schema ''users'' = Some users_table" "find_table initial_schema ''jobs'' = Some jobs_table"
    by (simp_all add: find_table_def initial_schema_tables users_table_def jobs_table_def)
  then show ?thesis
    using upgrade_runs initial_schema_matches_metadata users_violation_as_declared jobs_violation_as_declared
    by (auto simp: do_run_migrations_def)
qed

section \<open>Constraints in reachable states\<close>

lemma users_constraints:
  assumes "user_keys_ok db" and "k \<in> set (tbl_constraints users_table)"
  shows "constraint_holds (stored_rows db) ''users'' k"
  using assms role_admitted
  by (auto simp: users_table_def stored_rows_def user_keys_ok_def list_ex_iff key_of_def row_defs distinct_map inj_on_def)

lemma jobs_constraints:
  assumes "jobs_ok db" and "k \<in> set (tbl_constraints jobs_table)"
  shows "constraint_holds (stored_rows db) ''jobs'' k"
proof -
  have "\<not> job_attempt_count r < 0 \<and> job_max_retries r = 3 \<and> (\<exists>u \<in> set (db_users db). user_id u = job_owner_id r)"
    if "r \<in> set (db_jobs db)" for r
    using assms(1) that by (force simp: jobs_ok_def job_ok_def owner_exists_def)
  then show ?thesis
    using assms status_admitted
    by (auto simp: jobs_table_def stored_rows_def jobs_ok_def job_keys_ok_def idempotency_pair_def
        list_ex_iff list_all_iff key_of_def row_defs distinct_map inj_on_def)
qed

lemma job_logs_constraints:
  assumes "logs_ok db" and "k \<in> set (tbl_constraints job_logs_table)" and "k \<noteq> PrimaryKeyConstraint ''pk_job_logs'' [''id'']"
  shows "constraint_holds (stored_rows db) ''job_logs'' k"
  using assms
  by (auto simp: job_logs_table_def stored_rows_def logs_ok_def job_exists_def list_ex_iff list_all_iff row_defs)

lemma outbox_events_constraints:
  assumes "distinct (map ev_id (db_outbox_events db))" and "k \<in> set (tbl_constraints outbox_events_table)"
  shows "constraint_holds (stored_rows db) ''outbox_events'' k"
  using assms
  by (auto simp: outbox_events_table_def stored_rows_def list_ex_iff key_of_def row_defs distinct_map inj_on_def)

lemma table_names:
  "tbl_name users_table = ''users''" "tbl_name jobs_table = ''jobs''" "tbl_name job_logs_table = ''job_logs''"
  "tbl_name outbox_events_table = ''outbox_events''"
  by (simp_all add: table_defs)

text \<open>
  C8: no transaction leaves a row that violates a declared constraint. In every reachable state each CHECK,
  primary key, unique and foreign key constraint of the migrated tables holds of the stored rows (the primary
  key of \<^verbatim>\<open>job_logs\<close> is left to the identity column that generates it).
\<close>

theorem reachable_constraints_hold:
  assumes "codec_ok (rt_codec rt)" and "reachable rt lib s"
    and "t \<in> set (cat_tables initial_schema)" and "k \<in> set (tbl_constraints t)"
    and "k \<noteq> PrimaryKeyConstraint ''pk_job_logs'' [''id'']"
  shows "constraint_holds (stored_rows (sys_db s)) (tbl_name t) k"
proof -
  from system_ok_parts(1) [OF reachable_system_ok [OF assms(1,2)]]
  have "user_keys_ok (sys_db s)" "jobs_ok (sys_db s)" "logs_ok (sys_db s)" "distinct (map ev_id (db_outbox_events (sys_db s)))"
    by (simp_all add: db_ok_def events_ok_def)
  then show ?thesis
    using assms(3-5) users_constraints jobs_constraints job_logs_constraints outbox_events_constraints
    by (auto simp: initial_schema_tables table_names)
qed

theorem reachable_constraints_hold_witness:
  "constraint_holds (stored_rows demo_db4) ''job_logs''
     (ForeignKeyConstraint ''fk_job_logs_job_id_jobs'' ''job_id'' (''jobs'', ''id'') CASCADE)"
  using reachable_constraints_hold [OF _ demo_reachable4, of job_logs_table
      "ForeignKeyConstraint ''fk_job_logs_job_id_jobs'' ''job_id'' (''jobs'', ''id'') CASCADE"] demo_codec_ok
  by (simp add: initial_schema_tables table_names) (simp add: job_logs_table_def)

text \<open>The values of a job of a reachable state fit their columns when the texts that come from outside do.\<close>

lemma reachable_jobs_fit:
  assumes "codec_ok (rt_codec rt)" and "reachable rt lib s" and "r \<in> set (db_jobs (sys_db s))"
    and "length (job_idempotency_key r) \<le> 128" and "length (job_request_hash r) \<le> 64"
    and "pred_option (\<lambda>w. length w \<le> 128) (job_worker_id r)"
  shows "row_fits jobs_table (job_row r)"
  using db_ok_row [OF system_ok_parts(1) [OF reachable_system_ok [OF assms(1,2)]] assms(3)] assms(4-6)
  by (simp add: job_row_fits job_ok_def)

end
