(* ===== verification/Wiring.thy ===== *)
theory Wiring
  imports Configuration Logging Api
begin

text \<open>
  How a process of the program is put together: the root logger (\<^verbatim>\<open>configure_logging\<close> and the request
  filter of \<^verbatim>\<open>src/app/core/logging.py\<close>), the engine and session factory (\<^verbatim>\<open>src/app/db/session.py\<close>), the
  objects that \<^verbatim>\<open>lifespan\<close> in \<^verbatim>\<open>src/app/main.py\<close> stores in the application state, and the accessors
  of \<^verbatim>\<open>src/app/api/dependencies\<close> through which the routes get them. An object is the term that
  constructs it, so that two objects are equal when they were built from the same parts.
\<close>

section \<open>The root logger\<close>

record log_handler =
  lh_stream :: string
  lh_formatter :: string
  lh_filters :: "string list"

record root_logger =
  rl_handlers :: "log_handler list"
  rl_level :: int
  rl_configured :: bool

definition json_handler :: log_handler where
  "json_handler = \<lparr>lh_stream = ''stdout'', lh_formatter = ''JsonLogFormatter'', lh_filters = [''RequestContextFilter'']\<rparr>"

text \<open>\<^verbatim>\<open>getattr(logging, level.upper(), logging.INFO)\<close>, for the level names of the standard library.\<close>

definition LEVEL_NUMBERS :: "(string \<times> int) list" where
  "LEVEL_NUMBERS =
     [(''CRITICAL'', 50), (''FATAL'', 50), (''ERROR'', 40), (''WARNING'', 30), (''WARN'', 30), (''INFO'', 20),
      (''DEBUG'', 10), (''NOTSET'', 0)]"

definition level_number :: "string \<Rightarrow> int" where
  "level_number level = (case map_of LEVEL_NUMBERS (map upper_char level) of Some n \<Rightarrow> n | None \<Rightarrow> 20)"

definition configure_logging :: "string \<Rightarrow> root_logger \<Rightarrow> root_logger" where
  "configure_logging level l =
     (if rl_configured l then l\<lparr>rl_level := level_number level\<rparr>
      else \<lparr>rl_handlers = [json_handler], rl_level = level_number level, rl_configured = True\<rparr>)"

text \<open>
  \<^verbatim>\<open>RequestContextFilter.filter\<close> marks the record with the identifier of the current request and admits it;
  a handler writes one line for a record of a sufficient level.
\<close>

definition request_context_filter :: "string option \<Rightarrow> log_record \<Rightarrow> bool \<times> log_record" where
  "request_context_filter current r = (True, r\<lparr>lg_request_id := current\<rparr>)"

definition emit :: "(string \<Rightarrow> log_record \<Rightarrow> string) \<Rightarrow> string \<Rightarrow> string option \<Rightarrow> int \<Rightarrow> log_record \<Rightarrow> root_logger \<Rightarrow> string list" where
  "emit other timestamp current levelno r l =
     (if levelno < rl_level l then []
      else map (\<lambda>h. let r' = (if ''RequestContextFilter'' \<in> set (lh_filters h) then snd (request_context_filter current r) else r)
                    in if lh_formatter h = ''JsonLogFormatter'' then format_record timestamp r' else other (lh_formatter h) r')
             (rl_handlers l))"

text \<open>
  However often and with whatever levels the logger is configured, there is one handler, and the last
  level counts. (A logger that calls itself configured was configured here.)
\<close>

lemma configure_logging_once:
  assumes "rl_configured l \<Longrightarrow> rl_handlers l = [json_handler]"
  shows "fold configure_logging (levels @ [level]) l =
    \<lparr>rl_handlers = [json_handler], rl_level = level_number level, rl_configured = True\<rparr>"
  using assms by (induction levels arbitrary: l) (simp_all add: configure_logging_def)

text \<open>Then every record of a sufficient level gives one JSON line, with the identifier of the request in whose context it is written.\<close>

lemma configured_emits_once:
  assumes "rl_configured l \<Longrightarrow> rl_handlers l = [json_handler]" and "level_number level \<le> levelno"
  shows "emit other timestamp current levelno r (fold configure_logging (levels @ [level]) l) =
    [format_record timestamp (r\<lparr>lg_request_id := current\<rparr>)]"
  using assms(2) by (simp only: configure_logging_once [OF assms(1)]) (simp add: emit_def json_handler_def request_context_filter_def)

text \<open>Every level the settings admit is one of the standard library, so the fallback is never used.\<close>

lemma settings_level_known: "validate_log_level v = Inr level \<Longrightarrow> \<exists>n. map_of LEVEL_NUMBERS level = Some n"
  by (auto simp: validate_log_level_def LOG_LEVELS_def LEVEL_NUMBERS_def Let_def split: if_splits)

section \<open>Engine and session factory\<close>

datatype engine = AsyncEngine string bool
datatype session_factory = AsyncSessionmaker engine bool
datatype redis_client = RedisFromUrl string
datatype uow_factory = UowFactory session_factory

record database_runtime =
  dr_engine :: engine
  dr_session_factory :: session_factory

definition create_engine :: "settings \<Rightarrow> engine" where
  "create_engine cfg = AsyncEngine (database_url cfg) True"

definition create_session_factory :: "engine \<Rightarrow> session_factory" where
  "create_session_factory en = AsyncSessionmaker en False"

definition create_database_runtime :: "settings \<Rightarrow> database_runtime" where
  "create_database_runtime cfg =
     (let en = create_engine cfg in \<lparr>dr_engine = en, dr_session_factory = create_session_factory en\<rparr>)"

definition create_uow_factory :: "session_factory \<Rightarrow> uow_factory" where
  "create_uow_factory sf = UowFactory sf"

section \<open>Application state\<close>

datatype limiter_object = LimiterObject redis_client settings
datatype cache_object = CacheObject redis_client settings
datatype pubsub_object = PubSubObject redis_client
datatype notifier_object =
    CacheInvalidating cache_object
  | RedisPublishing pubsub_object
  | Composite "notifier_object list"

text \<open>The attributes of \<^verbatim>\<open>app.state\<close>; one that was never set is \<open>None\<close>.\<close>

record app_state =
  st_settings :: settings
  st_is_ready :: "bool option"
  st_db_engine :: "engine option"
  st_db_session_factory :: "session_factory option"
  st_uow_factory :: "uow_factory option"
  st_redis_client :: "redis_client option"
  st_create_job_rate_limiter :: "limiter_object option"
  st_job_list_cache :: "cache_object option"
  st_job_status_pubsub :: "pubsub_object option"
  st_worker_post_commit_notifier :: "notifier_object option"

definition new_app_state :: "settings \<Rightarrow> app_state" where
  "new_app_state cfg = \<lparr>
     st_settings = cfg, st_is_ready = None, st_db_engine = None, st_db_session_factory = None, st_uow_factory = None,
     st_redis_client = None, st_create_job_rate_limiter = None, st_job_list_cache = None, st_job_status_pubsub = None,
     st_worker_post_commit_notifier = None\<rparr>"

text \<open>\<^verbatim>\<open>create_app\<close> with the settings it is given, or those of the environment.\<close>

definition create_app :: "settings option \<Rightarrow> (exn + settings) \<Rightarrow> exn + app_state" where
  "create_app given loaded =
     bind_result (case given of Some cfg \<Rightarrow> Inr cfg | None \<Rightarrow> loaded) (\<lambda>cfg. Inr (new_app_state cfg))"

text \<open>\<^verbatim>\<open>lifespan\<close> up to the \<^verbatim>\<open>yield\<close>, and its \<^verbatim>\<open>finally\<close> block as far as it concerns the state.\<close>

definition lifespan_startup :: "app_state \<times> root_logger \<Rightarrow> exn option \<times> app_state \<times> root_logger" where
  "lifespan_startup p =
     (case p of (st, l) \<Rightarrow>
      let cfg = st_settings st in
      case validate_runtime cfg of
        Inl x \<Rightarrow> (Some x, st, l)
      | Inr _ \<Rightarrow>
          (let l' = configure_logging (settings.log_level cfg) l;
               st1 = st\<lparr>st_is_ready := Some False\<rparr>;
               rt = create_database_runtime cfg;
               client = RedisFromUrl (redis_url cfg);
               cache = CacheObject client cfg;
               pubsub = PubSubObject client;
               st2 = st1\<lparr>st_db_engine := Some (dr_engine rt),
                 st_db_session_factory := Some (dr_session_factory rt),
                 st_uow_factory := Some (create_uow_factory (dr_session_factory rt)),
                 st_redis_client := Some client,
                 st_create_job_rate_limiter := Some (LimiterObject client cfg),
                 st_job_list_cache := Some cache,
                 st_job_status_pubsub := Some pubsub,
                 st_worker_post_commit_notifier := Some (Composite [CacheInvalidating cache, RedisPublishing pubsub])\<rparr>
           in (None, st2\<lparr>st_is_ready := Some True\<rparr>, l')))"

definition lifespan_shutdown :: "app_state \<Rightarrow> app_state" where
  "lifespan_shutdown st = st\<lparr>st_is_ready := Some False\<rparr>"

text \<open>The accessors: an attribute that was never set raises.\<close>

definition attribute :: "string \<Rightarrow> 'a option \<Rightarrow> exn + 'a" where
  "attribute name v = (case v of None \<Rightarrow> Inl (AttributeError name) | Some x \<Rightarrow> Inr x)"

definition get_db_engine :: "app_state \<Rightarrow> exn + engine" where
  "get_db_engine st = attribute ''db_engine'' (st_db_engine st)"

definition get_session_factory :: "app_state \<Rightarrow> exn + session_factory" where
  "get_session_factory st = attribute ''db_session_factory'' (st_db_session_factory st)"

definition get_uow_factory :: "app_state \<Rightarrow> exn + uow_factory" where
  "get_uow_factory st = attribute ''uow_factory'' (st_uow_factory st)"

definition get_redis_client :: "app_state \<Rightarrow> exn + redis_client" where
  "get_redis_client st = attribute ''redis_client'' (st_redis_client st)"

definition get_create_job_rate_limiter :: "app_state \<Rightarrow> exn + limiter_object" where
  "get_create_job_rate_limiter st = attribute ''create_job_rate_limiter'' (st_create_job_rate_limiter st)"

definition get_worker_post_commit_notifier :: "app_state \<Rightarrow> exn + notifier_object" where
  "get_worker_post_commit_notifier st = attribute ''worker_post_commit_notifier'' (st_worker_post_commit_notifier st)"

definition get_job_list_cache :: "app_state \<Rightarrow> exn + cache_object" where
  "get_job_list_cache st = attribute ''job_list_cache'' (st_job_list_cache st)"

definition get_job_status_pubsub :: "app_state \<Rightarrow> exn + pubsub_object" where
  "get_job_status_pubsub st = attribute ''job_status_pubsub'' (st_job_status_pubsub st)"

text \<open>A request knows its application; the variants for requests go through it.\<close>

record request_object =
  rq_app :: app_state

definition get_session_factory_from_request :: "request_object \<Rightarrow> exn + session_factory" where
  "get_session_factory_from_request rq = get_session_factory (rq_app rq)"

definition get_uow_factory_from_request :: "request_object \<Rightarrow> exn + uow_factory" where
  "get_uow_factory_from_request rq = get_uow_factory (rq_app rq)"

definition get_redis_client_from_request :: "request_object \<Rightarrow> exn + redis_client" where
  "get_redis_client_from_request rq = get_redis_client (rq_app rq)"

definition get_create_job_rate_limiter_from_request :: "request_object \<Rightarrow> exn + limiter_object" where
  "get_create_job_rate_limiter_from_request rq = get_create_job_rate_limiter (rq_app rq)"

definition get_worker_post_commit_notifier_from_request :: "request_object \<Rightarrow> exn + notifier_object" where
  "get_worker_post_commit_notifier_from_request rq = get_worker_post_commit_notifier (rq_app rq)"

definition get_job_list_cache_from_request :: "request_object \<Rightarrow> exn + cache_object" where
  "get_job_list_cache_from_request rq = get_job_list_cache (rq_app rq)"

definition get_job_status_pubsub_from_request :: "request_object \<Rightarrow> exn + pubsub_object" where
  "get_job_status_pubsub_from_request rq = get_job_status_pubsub (rq_app rq)"

text \<open>The services of a request.\<close>

record auth_service_object =
  as_uow_factory :: uow_factory
  as_settings :: settings

record job_service_object =
  js_uow_factory :: uow_factory
  js_settings :: settings
  js_rate_limiter :: limiter_object
  js_job_list_cache :: cache_object
  js_post_commit_notifier :: notifier_object

definition get_settings_from_request :: "request_object \<Rightarrow> settings" where
  "get_settings_from_request rq = st_settings (rq_app rq)"

definition get_auth_service :: "request_object \<Rightarrow> exn + auth_service_object" where
  "get_auth_service rq =
     bind_result (attribute ''uow_factory'' (st_uow_factory (rq_app rq))) (\<lambda>uow_factory.
       Inr \<lparr>as_uow_factory = uow_factory, as_settings = get_settings_from_request rq\<rparr>)"

definition get_job_service :: "request_object \<Rightarrow> exn + job_service_object" where
  "get_job_service rq = (let st = rq_app rq in
     bind_result (attribute ''uow_factory'' (st_uow_factory st)) (\<lambda>uow_factory.
     bind_result (attribute ''create_job_rate_limiter'' (st_create_job_rate_limiter st)) (\<lambda>rate_limiter.
     bind_result (attribute ''job_list_cache'' (st_job_list_cache st)) (\<lambda>job_list_cache.
     bind_result (attribute ''worker_post_commit_notifier'' (st_worker_post_commit_notifier st)) (\<lambda>post_commit_notifier.
       Inr \<lparr>js_uow_factory = uow_factory, js_settings = get_settings_from_request rq, js_rate_limiter = rate_limiter,
            js_job_list_cache = job_list_cache, js_post_commit_notifier = post_commit_notifier\<rparr>)))))"

text \<open>\<^verbatim>\<open>/health/ready\<close> reads the flag with a fallback and then uses the session factory and the Redis client.\<close>

definition ready_route ::
  "(session_factory \<Rightarrow> bool) \<Rightarrow> (redis_client \<Rightarrow> bool) \<Rightarrow> app_state \<Rightarrow> exn + (string \<times> (string \<times> string) list option) reply" where
  "ready_route database_answers redis_answers st =
     (if st_is_ready st \<noteq> Some True then Inr (health_ready False False False)
      else bind_result (get_session_factory st) (\<lambda>sf. bind_result (get_redis_client st) (\<lambda>client.
        Inr (health_ready True (database_answers sf) (redis_answers client)))))"

named_theorems wiring "construction of the application's objects"
declare lifespan_startup_def [wiring] create_app_def [wiring] new_app_state_def [wiring] create_database_runtime_def [wiring] create_engine_def [wiring]
  create_session_factory_def [wiring] create_uow_factory_def [wiring] get_db_engine_def [wiring] get_session_factory_def [wiring]
  get_uow_factory_def [wiring] get_redis_client_def [wiring] get_create_job_rate_limiter_def [wiring]
  get_worker_post_commit_notifier_def [wiring] get_job_list_cache_def [wiring] get_job_status_pubsub_def [wiring]
  get_settings_from_request_def [wiring] get_auth_service_def [wiring] get_job_service_def [wiring] attribute_def [wiring]
  get_job_list_cache_from_request_def [wiring] get_job_status_pubsub_from_request_def [wiring]
  get_uow_factory_from_request_def [wiring] get_redis_client_from_request_def [wiring] get_session_factory_from_request_def [wiring]
  get_create_job_rate_limiter_from_request_def [wiring] get_worker_post_commit_notifier_from_request_def [wiring]

text \<open>
  After a start-up that does not raise the job service works on the database and the Redis server of the
  settings, and the cache it reads is the cache its notifier invalidates.
\<close>

lemma started_job_service:
  assumes "lifespan_startup (new_app_state cfg, l) = (None, st, l')" and "rq = \<lparr>rq_app = st\<rparr>"
  shows "\<exists>svc. get_job_service rq = Inr svc \<and> js_settings svc = cfg \<and>
    js_uow_factory svc = UowFactory (AsyncSessionmaker (AsyncEngine (database_url cfg) True) False) \<and>
    js_rate_limiter svc = LimiterObject (RedisFromUrl (redis_url cfg)) cfg \<and>
    js_post_commit_notifier svc = Composite [CacheInvalidating (js_job_list_cache svc), RedisPublishing (PubSubObject (RedisFromUrl (redis_url cfg)))] \<and>
    get_job_list_cache_from_request rq = Inr (js_job_list_cache svc) \<and>
    get_job_status_pubsub_from_request rq = Inr (PubSubObject (RedisFromUrl (redis_url cfg))) \<and>
    get_uow_factory_from_request rq = Inr (js_uow_factory svc) \<and>
    get_auth_service rq = Inr \<lparr>as_uow_factory = js_uow_factory svc, as_settings = cfg\<rparr>"
  using assms by (auto simp: wiring Let_def split: sum.splits)

text \<open>
  The readiness route answers that the service is ready exactly between the end of the start-up and the
  beginning of the shutdown, and only while the database answers; before the start-up every accessor raises.
\<close>

lemma ready_exactly_while_started:
  assumes "lifespan_startup (new_app_state cfg, l) = (None, st, l')"
  shows "map_sum id rp_status (ready_route db_up redis_up (new_app_state cfg)) = Inr 503"
    and "map_sum id rp_status (ready_route db_up redis_up st) =
      Inr (if db_up (AsyncSessionmaker (AsyncEngine (database_url cfg) True) False) then 200 else 503)"
    and "map_sum id rp_status (ready_route db_up redis_up (lifespan_shutdown st)) = Inr 503"
  using assms by (auto simp: wiring ready_route_def lifespan_shutdown_def health_ready_def ok_reply_def Let_def split: sum.splits)

lemma create_app_state: "create_app given loaded = Inr st \<Longrightarrow> \<exists>cfg. st = new_app_state cfg \<and> (given = Some cfg \<or> given = None \<and> loaded = Inr cfg)"
  by (cases given; cases loaded) (auto simp: create_app_def)

lemma unstarted_accessors_raise:
  "get_db_engine (new_app_state cfg) = Inl (AttributeError ''db_engine'')"
  "get_redis_client (new_app_state cfg) = Inl (AttributeError ''redis_client'')"
  "rq_app rq = new_app_state cfg \<Longrightarrow> get_job_service rq = Inl (AttributeError ''uow_factory'')"
  by (simp_all add: wiring Let_def)

end
