(* ===== verification/Processes.thy ===== *)
theory Processes
  imports Background Messaging Wiring Migration Example_Run
begin

text \<open>
  The entry points of \<^verbatim>\<open>src/app/cli\<close>, the life of the API process (\<^verbatim>\<open>lifespan\<close> in \<^verbatim>\<open>src/app/main.py\<close>) and the
  migration environment (\<^verbatim>\<open>alembic/env.py\<close>): in which order they open, use and close the engine, the
  connections and the background tasks. Every call may raise; \<open>faults\<close> says which ones do. What a call
  computes is modelled with its component, here only what it opens or closes.
\<close>

section \<open>Calls, resources and \<^verbatim>\<open>finally\<close>\<close>

datatype process_resource = Engine | RedisConnections | BrokerConnection | Consumer | HeartbeatTask | RecoveryTask | ServerConnection

datatype call =
    ConfigureLogging string
  | CreateEngine string
  | ConnectBroker string
  | CreateRedis string
  | InstallShutdownHandlers
  | OpenChannel bool
  | SetQos int
  | DeclareTopology
  | DeclareQueue string
  | StartConsumer
  | StartHeartbeat string int
  | StartRecovery
  | WaitForStop
  | CancelConsumer
  | CancelTask process_resource
  | Gather "process_resource list"
  | RunLoop
  | Serve
  | UpsertAdmin string
  | ConnectServer string
  | PrepareDatabases
  | RunMigrations
  | CloseServer
  | CloseRedis
  | CloseBroker
  | DisposeEngine
  | LogInfo string

fun opens :: "call \<Rightarrow> process_resource list" where
  "opens (CreateEngine url) = [Engine]"
| "opens (ConnectBroker url) = [BrokerConnection]"
| "opens (CreateRedis url) = [RedisConnections]"
| "opens StartConsumer = [Consumer]"
| "opens (StartHeartbeat path seconds) = [HeartbeatTask]"
| "opens StartRecovery = [RecoveryTask]"
| "opens (ConnectServer dsn) = [ServerConnection]"
| "opens _ = []"

text \<open>Closing the connection to the broker ends its channels and with them the consumer.\<close>

fun closes :: "call \<Rightarrow> process_resource list" where
  "closes CancelConsumer = [Consumer]"
| "closes (Gather tasks) = tasks"
| "closes CloseServer = [ServerConnection]"
| "closes CloseRedis = [RedisConnections]"
| "closes CloseBroker = [BrokerConnection, Consumer]"
| "closes DisposeEngine = [Engine]"
| "closes _ = []"

record process =
  pr_trace :: "call list"
  pr_open :: "process_resource list"

definition new_process :: process where
  "new_process = \<lparr>pr_trace = [], pr_open = []\<rparr>"

type_synonym faults = "call \<rightharpoonup> exn"
type_synonym action = "process \<Rightarrow> exn option \<times> process"

text \<open>A call that raises has no effect; the calls after it are not made.\<close>

definition effect :: "call \<Rightarrow> process_resource list \<Rightarrow> process_resource list" where
  "effect c rs = filter (\<lambda>r. r \<notin> set (closes c)) rs @ opens c"

fun calls :: "faults \<Rightarrow> call list \<Rightarrow> action" where
  "calls faults [] p = (None, p)"
| "calls faults (c # cs) p =
     (let p' = p\<lparr>pr_trace := pr_trace p @ [c]\<rparr> in
      case faults c of
        Some x \<Rightarrow> (Some x, p')
      | None \<Rightarrow> calls faults cs (p'\<lparr>pr_open := effect c (pr_open p')\<rparr>))"

definition raising :: "exn + 'a \<Rightarrow> ('a \<Rightarrow> action) \<Rightarrow> action" where
  "raising r k p = (case r of Inl x \<Rightarrow> (Some x, p) | Inr v \<Rightarrow> k v p)"

definition and_then :: "action \<Rightarrow> action \<Rightarrow> action" where
  "and_then a b p = (case a p of (Some x, p') \<Rightarrow> (Some x, p') | (None, p') \<Rightarrow> b p')"

text \<open>The \<^verbatim>\<open>finally\<close> block runs on every exit; an exception of its own replaces the one in flight.\<close>

definition try_finally :: "action \<Rightarrow> action \<Rightarrow> action" where
  "try_finally body fin p =
     (case body p of (r, p') \<Rightarrow> case fin p' of (Some x, p'') \<Rightarrow> (Some x, p'') | (None, p'') \<Rightarrow> (r, p''))"

text \<open>\<^verbatim>\<open>asyncio.run\<close> cancels and awaits the tasks that are left when its coroutine ends.\<close>

definition asyncio_run :: "action \<Rightarrow> action" where
  "asyncio_run a p =
     (case a p of (r, p') \<Rightarrow> (r, p'\<lparr>pr_open := filter (\<lambda>x. x \<noteq> HeartbeatTask \<and> x \<noteq> RecoveryTask) (pr_open p')\<rparr>))"

section \<open>Signals\<close>

datatype signal = SIGINT | SIGTERM | SIGHUP
datatype disposition = DefaultAction | LoopHandlerSetsStop | SignalHandlerSetsStop

text \<open>
  \<^verbatim>\<open>install_shutdown_handlers\<close>: where the loop does not implement signal handlers, an ordinary one is
  installed. Both set the stop event.
\<close>

definition install_shutdown_handlers :: "(signal \<Rightarrow> bool) \<Rightarrow> (signal \<Rightarrow> disposition) \<Rightarrow> signal \<Rightarrow> disposition" where
  "install_shutdown_handlers implemented d =
     fold (\<lambda>sig d. d(sig := if implemented sig then LoopHandlerSetsStop else SignalHandlerSetsStop)) [SIGINT, SIGTERM] d"

definition deliver_signal :: "(signal \<Rightarrow> disposition) \<Rightarrow> signal \<Rightarrow> bool \<Rightarrow> bool" where
  "deliver_signal d sig stop_event = (stop_event \<or> d sig \<noteq> DefaultAction)"

lemma shutdown_signals_stop:
  "sig \<in> {SIGINT, SIGTERM} \<Longrightarrow> deliver_signal (install_shutdown_handlers implemented d) sig stop_event"
  by (auto simp: deliver_signal_def install_shutdown_handlers_def)

section \<open>Entry points\<close>

text \<open>\<^verbatim>\<open>run_background_loop\<close>\<close>

definition run_background_loop :: "faults \<Rightarrow> action \<Rightarrow> string \<Rightarrow> action" where
  "run_background_loop faults run service_name =
     and_then (calls faults [InstallShutdownHandlers, LogInfo (service_name @ ''_started'')])
       (try_finally run (calls faults [LogInfo (service_name @ ''_stopped'')]))"

text \<open>
  \<^verbatim>\<open>connect\<close> is what each attempt to reach the broker ends with; the process sees the outcome of
  \<^verbatim>\<open>connect_robust_with_retry\<close>. The loop of a service ends by being stopped or by an exception.
\<close>

definition connect_fault :: "(nat \<Rightarrow> exn + unit) \<Rightarrow> exn option" where
  "connect_fault connect =
     (case fst (connect_robust_with_retry STARTUP_RETRY_ATTEMPTS connect) of Inl x \<Rightarrow> Some x | Inr _ \<Rightarrow> None)"

fun loop_fault :: "loop_end \<Rightarrow> exn option" where
  "loop_fault (LoopRaised x) = Some x"
| "loop_fault _ = None"

fun heartbeat_calls :: "string option \<Rightarrow> call list" where
  "heartbeat_calls (Some path) = (if path = [] then [] else [StartHeartbeat path 5])"
| "heartbeat_calls None = []"

definition heartbeat_tasks :: "string option \<Rightarrow> process_resource list" where
  "heartbeat_tasks path = (if heartbeat_calls path = [] then [] else [HeartbeatTask])"

definition worker_main :: "faults \<Rightarrow> (exn + settings) \<Rightarrow> (nat \<Rightarrow> exn + unit) \<Rightarrow> string option \<Rightarrow> action" where
  "worker_main faults get connect heartbeat_path =
     raising get (\<lambda>cfg. raising (validate_runtime cfg) (\<lambda>_.
       let faults = faults(ConnectBroker (rabbitmq_url cfg) := connect_fault connect);
           tasks = RecoveryTask # heartbeat_tasks heartbeat_path in
       and_then
         (calls faults
            [ConfigureLogging (settings.log_level cfg), CreateEngine (database_url cfg), ConnectBroker (rabbitmq_url cfg),
             CreateRedis (redis_url cfg), InstallShutdownHandlers])
         (try_finally
            (calls faults
               ([OpenChannel False, SetQos 4, DeclareTopology, DeclareQueue JOBS_EXECUTE_QUEUE_NAME, StartConsumer] @
                heartbeat_calls heartbeat_path @ [StartRecovery, WaitForStop, CancelConsumer] @
                map CancelTask tasks @ [Gather tasks]))
            (calls faults [CloseRedis, CloseBroker, DisposeEngine]))))"

definition publisher_run ::
  "faults \<Rightarrow> (exn + settings) \<Rightarrow> (nat \<Rightarrow> exn + unit) \<Rightarrow> string option \<Rightarrow> loop_end \<Rightarrow> action" where
  "publisher_run faults get connect heartbeat_path ended =
     raising get (\<lambda>cfg. raising (validate_runtime cfg) (\<lambda>_.
       let faults = faults(ConnectBroker (rabbitmq_url cfg) := connect_fault connect, RunLoop := loop_fault ended);
           tasks = heartbeat_tasks heartbeat_path in
       and_then
         (calls faults
            [ConfigureLogging (settings.log_level cfg), CreateEngine (database_url cfg), ConnectBroker (rabbitmq_url cfg)])
         (try_finally
            (and_then
               (calls faults ([OpenChannel True, SetQos (outbox_batch_size cfg), DeclareTopology] @ heartbeat_calls heartbeat_path))
               (try_finally (calls faults [RunLoop])
                  (calls faults (map CancelTask tasks @ (if tasks = [] then [] else [Gather tasks])))))
            (calls faults [CloseBroker, DisposeEngine]))))"

definition publisher_main :: "faults \<Rightarrow> (exn + settings) \<Rightarrow> (nat \<Rightarrow> exn + unit) \<Rightarrow> string option \<Rightarrow> loop_end \<Rightarrow> action" where
  "publisher_main faults get connect heartbeat_path ended =
     asyncio_run (run_background_loop faults (publisher_run faults get connect heartbeat_path ended) ''outbox_publisher'')"

definition recovery_run :: "faults \<Rightarrow> (exn + settings) \<Rightarrow> loop_end \<Rightarrow> action" where
  "recovery_run faults get ended =
     raising get (\<lambda>cfg. raising (validate_runtime cfg) (\<lambda>_.
       let faults = faults(RunLoop := loop_fault ended) in
       and_then
         (calls faults
            [ConfigureLogging (settings.log_level cfg), CreateEngine (database_url cfg), CreateRedis (redis_url cfg)])
         (try_finally (calls faults [RunLoop]) (calls faults [CloseRedis, DisposeEngine]))))"

definition recovery_main :: "faults \<Rightarrow> (exn + settings) \<Rightarrow> loop_end \<Rightarrow> action" where
  "recovery_main faults get ended =
     asyncio_run (run_background_loop faults (recovery_run faults get ended) ''stale_running_recovery'')"

text \<open>\<^verbatim>\<open>lifespan\<close>: the server runs between start-up and shutdown.\<close>

definition lifespan :: "faults \<Rightarrow> settings \<Rightarrow> action" where
  "lifespan faults cfg =
     raising (validate_runtime cfg) (\<lambda>_.
       and_then
         (calls faults
            [ConfigureLogging (settings.log_level cfg), CreateEngine (database_url cfg), CreateRedis (redis_url cfg)])
         (try_finally (calls faults [Serve]) (calls faults [CloseRedis, DisposeEngine])))"

section \<open>Command-line administration\<close>

text \<open>\<^verbatim>\<open>create_admin\<close>: the settings are not validated for production here; the service call decides about the database.\<close>

definition admin_password :: "string option \<Rightarrow> string \<Rightarrow> string" where
  "admin_password given prompted = (case given of None \<Rightarrow> prompted | Some w \<Rightarrow> if w = [] then prompted else w)"

definition create_admin_run ::
  "faults \<Rightarrow> (exn + settings) \<Rightarrow> security_lib \<Rightarrow> env \<Rightarrow> nat \<Rightarrow> string \<Rightarrow> string \<Rightarrow> database \<Rightarrow> (exn option \<times> process) \<times> database" where
  "create_admin_run faults get sec e salt email password db =
     (let (res, db') = service_create_or_update_admin sec e salt email password db;
          faults = faults(UpsertAdmin email := case res of Inl x \<Rightarrow> Some x | Inr _ \<Rightarrow> None);
          r = asyncio_run (raising get (\<lambda>cfg.
                and_then (calls faults [ConfigureLogging (settings.log_level cfg), CreateEngine (database_url cfg)])
                  (try_finally (calls faults [UpsertAdmin email]) (calls faults [DisposeEngine])))) new_process
      in (r, if UpsertAdmin email \<in> set (pr_trace (snd r)) then db' else db))"

definition create_admin_main ::
  "faults \<Rightarrow> (exn + settings) \<Rightarrow> security_lib \<Rightarrow> env \<Rightarrow> nat \<Rightarrow> string \<Rightarrow> string option \<Rightarrow> string \<Rightarrow> database \<Rightarrow> (exn option \<times> process) \<times> database" where
  "create_admin_main faults get sec e salt email given prompted db =
     create_admin_run faults get sec e salt email (admin_password given prompted) db"

text \<open>
  \<^verbatim>\<open>prepare_local_databases\<close>. Taking a URL apart is the standard library's \<^verbatim>\<open>urlsplit\<close>: its path, and the URL
  with another path. \<^verbatim>\<open>CREATE DATABASE\<close> may meet another session that creates the same database, which shows
  as a unique violation once the other one has committed.
\<close>

record url_lib =
  ul_path :: "string \<Rightarrow> string"
  ul_with_path :: "string \<Rightarrow> string \<Rightarrow> string"

fun replace_first :: "string \<Rightarrow> string \<Rightarrow> string \<Rightarrow> string" where
  "replace_first old new [] = []"
| "replace_first old new (c # cs) =
     (if take (length old) (c # cs) = old then new @ drop (length old) (c # cs) else c # replace_first old new cs)"

definition plain_url :: "string \<Rightarrow> string" where
  "plain_url url = replace_first ''postgresql+asyncpg://'' ''postgresql://'' url"

definition database_name :: "url_lib \<Rightarrow> string \<Rightarrow> string" where
  "database_name lib url = dropWhile (\<lambda>c. c = CHR ''/'') (ul_path lib (plain_url url))"

definition database_urls :: "string option \<Rightarrow> string option \<Rightarrow> string list" where
  "database_urls runtime test = filter (\<lambda>u. u \<noteq> []) (List.map_filter id [runtime, test])"

datatype create_outcome = CreateDone | CreateUniqueViolation | CreateRaised exn

fun prepare_loop :: "url_lib \<Rightarrow> (string \<Rightarrow> create_outcome) \<Rightarrow> string list \<Rightarrow> string list \<Rightarrow> exn option \<times> string list" where
  "prepare_loop lib create [] server = (None, server)"
| "prepare_loop lib create (url # urls) server =
     (let name = database_name lib url in
      if name = [] \<or> name \<in> set server then prepare_loop lib create urls server
      else case create name of
             CreateDone \<Rightarrow> prepare_loop lib create urls (server @ [name])
           | CreateUniqueViolation \<Rightarrow> prepare_loop lib create urls (server @ [name])
           | CreateRaised x \<Rightarrow> (Some x, server))"

definition prepare_local_databases ::
  "faults \<Rightarrow> url_lib \<Rightarrow> (string \<Rightarrow> create_outcome) \<Rightarrow> string option \<Rightarrow> string option \<Rightarrow> string list \<Rightarrow> (exn option \<times> process) \<times> string list" where
  "prepare_local_databases faults lib create runtime test server =
     (let urls = database_urls runtime test in
      if urls = [] then ((None, new_process), server)
      else let (x, server') = prepare_loop lib create urls server;
               faults = faults(PrepareDatabases := x);
               dsn = ul_with_path lib (plain_url (hd urls)) ''/postgres'';
               r = and_then (calls faults [ConnectServer dsn])
                     (try_finally (calls faults [PrepareDatabases]) (calls faults [CloseServer])) new_process
           in (r, if PrepareDatabases \<in> set (pr_trace (snd r)) then server' else server))"

text \<open>\<^verbatim>\<open>run_migrations_online\<close>: the connection is closed on every exit, the engine only after success.\<close>

definition run_migrations_online :: "faults \<Rightarrow> string \<Rightarrow> ddl list \<Rightarrow> catalogue \<Rightarrow> (exn option \<times> process) \<times> catalogue" where
  "run_migrations_online faults url ds c =
     (let (err, c') = do_run_migrations ds c;
          faults = faults(RunMigrations := map_option (\<lambda>_. DatabaseError) err);
          r = and_then (calls faults [CreateEngine url, ConnectServer url])
                (and_then (try_finally (calls faults [RunMigrations]) (calls faults [CloseServer]))
                   (calls faults [DisposeEngine])) new_process
      in (r, if RunMigrations \<in> set (pr_trace (snd r)) then c' else c))"

text \<open>
  \<^verbatim>\<open>run_migrations_offline\<close>: without a connection Alembic prints the statements instead of executing them,
  between the brackets of a transaction. What a statement looks like as text is Alembic's. The module
  \<^verbatim>\<open>alembic/env.py\<close> reads the settings first and then runs in the mode it was called in.
\<close>

datatype script_line = ScriptBegin | ScriptStatement string | ScriptCommit

definition run_migrations_offline :: "(ddl \<Rightarrow> string) \<Rightarrow> ddl list \<Rightarrow> script_line list" where
  "run_migrations_offline render ds = ScriptBegin # map (\<lambda>d. ScriptStatement (render d)) ds @ [ScriptCommit]"

definition alembic_env ::
  "faults \<Rightarrow> (exn + settings) \<Rightarrow> bool \<Rightarrow> (ddl \<Rightarrow> string) \<Rightarrow> ddl list \<Rightarrow> catalogue \<Rightarrow>
   (exn option \<times> process) \<times> script_line list \<times> catalogue" where
  "alembic_env faults get is_offline_mode render ds c =
     (case get of
        Inl x \<Rightarrow> ((Some x, new_process), [], c)
      | Inr cfg \<Rightarrow>
          if is_offline_mode then ((None, new_process), run_migrations_offline render ds, c)
          else let (r, c') = run_migrations_online faults (database_url cfg) ds c in (r, [], c'))"

section \<open>What is left open\<close>

named_theorems process_defs "combinators of actions"
declare raising_def [process_defs] and_then_def [process_defs] try_finally_def [process_defs] asyncio_run_def [process_defs]

text \<open>The calls before the first one that raises, and what they leave open.\<close>

definition made :: "faults \<Rightarrow> call list \<Rightarrow> call list" where
  "made faults cs = takeWhile (\<lambda>c. faults c = None) cs"

lemma calls_result:
  "pr_open (snd (calls f cs p)) = fold effect (made f cs) (pr_open p)"
  "fst (calls f cs p) = None \<longleftrightarrow> made f cs = cs"
  by (induction cs arbitrary: p) (simp_all add: made_def Let_def split: option.split)

lemma calls_raised: "fst (calls f cs p) = Option.bind (find (\<lambda>c. f c \<noteq> None) cs) f"
  by (induction cs arbitrary: p) (simp_all add: Let_def split: option.split)

lemma effect_open: "set (effect c rs) = (set rs - set (closes c)) \<union> set (opens c)"
  by (auto simp: effect_def)

lemma fold_effect_opens: "set (fold effect cs rs) \<subseteq> set rs \<union> (\<Union>c \<in> set cs. set (opens c))"
proof (induction cs arbitrary: rs)
  case (Cons c cs)
  show ?case using Cons.IH [of "effect c rs"] by (auto simp: effect_open)
qed simp

lemma calls_open: "set (pr_open (snd (calls f cs p))) \<subseteq> set (pr_open p) \<union> (\<Union>c \<in> set cs. set (opens c))"
  using fold_effect_opens [of "made f cs" "pr_open p"] by (auto simp: calls_result made_def dest: set_takeWhileD)

lemma fold_effect_closes:
  "(\<And>c. c \<in> set cs \<Longrightarrow> opens c = []) \<Longrightarrow> set (fold effect cs rs) = set rs - (\<Union>c \<in> set cs. set (closes c))"
  by (induction cs arbitrary: rs) (auto simp: effect_open)

definition releases :: "call list \<Rightarrow> process_resource set" where
  "releases cs = (\<Union>c \<in> set cs. set (closes c))"

text \<open>
  A \<^verbatim>\<open>finally\<close> block of closing calls, none of which raises, closes what it names, however the body ended, and
  leaves the body's result.
\<close>

lemma finally_releases:
  assumes "\<And>c. c \<in> set fin \<Longrightarrow> f c = None \<and> opens c = []"
  shows "set (pr_open (snd (try_finally body (calls f fin) p))) = set (pr_open (snd (body p))) - releases fin"
    and "fst (try_finally body (calls f fin) p) = fst (body p)"
proof -
  obtain r p' where b: "body p = (r, p')" by fastforce
  have m: "made f fin = fin" using assms by (simp add: made_def takeWhile_eq_all_conv)
  then have r: "fst (calls f fin p') = None" by (simp add: calls_result)
  show "set (pr_open (snd (try_finally body (calls f fin) p))) = set (pr_open (snd (body p))) - releases fin"
    and "fst (try_finally body (calls f fin) p) = fst (body p)"
    using r m fold_effect_closes [of fin "pr_open p'"] calls_result(1) [of f fin p'] assms
    by (auto simp: try_finally_def b releases_def split: prod.split option.split)
qed

text \<open>What the calls before the \<^verbatim>\<open>try\<close> leave open when one of them raises.\<close>

definition left_by :: "faults \<Rightarrow> call list \<Rightarrow> process_resource list" where
  "left_by faults pre = (if made faults pre = pre then [] else fold effect (made faults pre) [])"

definition is_task :: "process_resource \<Rightarrow> bool" where
  "is_task r \<longleftrightarrow> r = HeartbeatTask \<or> r = RecoveryTask"

lemma asyncio_run_open: "pr_open (snd (asyncio_run a p)) = filter (\<lambda>r. \<not> is_task r) (pr_open (snd (a p)))"
  by (simp add: asyncio_run_def is_task_def split: prod.split)

lemma asyncio_run_result: "fst (asyncio_run a p) = fst (a p)"
  by (simp add: asyncio_run_def split: prod.split)

lemma guarded_action_open:
  assumes "\<And>c. c \<in> set fin \<Longrightarrow> f c = None \<and> opens c = []"
    and "\<And>q. set (pr_open (snd (body q))) \<subseteq> set (pr_open q) \<union> X"
    and "\<And>r. r \<in> X \<union> (\<Union>c \<in> set pre. set (opens c)) \<Longrightarrow> is_task r \<or> r \<in> releases fin"
    and "\<And>c. c \<in> set pre \<Longrightarrow> \<not> list_ex is_task (opens c)"
  shows "pr_open (snd (asyncio_run (and_then (calls f pre) (try_finally body (calls f fin))) new_process)) = left_by f pre"
proof -
  obtain r p where p: "calls f pre new_process = (r, p)" by fastforce
  have o: "pr_open p = fold effect (made f pre) []" "r = None \<longleftrightarrow> made f pre = pre"
    using calls_result [of f pre new_process] p by (simp_all add: new_process_def)
  have sub: "set (pr_open p) \<subseteq> (\<Union>c \<in> set pre. set (opens c))"
    using calls_open [of f pre new_process] p by (simp add: new_process_def)
  show ?thesis
  proof (cases r)
    case None
    have "is_task x" if x: "x \<in> set (pr_open (snd (try_finally body (calls f fin) p)))" for x
    proof -
      have "x \<in> set (pr_open (snd (body p)))" "x \<notin> releases fin"
        using x finally_releases(1) [of fin f body p, OF assms(1)] by auto
      then show ?thesis using assms(2) [of p] assms(3) [of x] sub by auto
    qed
    then have "filter (\<lambda>x. \<not> is_task x) (pr_open (snd (try_finally body (calls f fin) p))) = []" by simp
    then show ?thesis using None o p by (simp add: asyncio_run_open and_then_def left_by_def)
  next
    case (Some x)
    have "filter (\<lambda>r. \<not> is_task r) (pr_open p) = pr_open p"
      using sub assms(4) by (auto simp: list_ex_iff intro!: filter_True)
    then show ?thesis using Some o p by (simp add: asyncio_run_open and_then_def left_by_def)
  qed
qed

section \<open>The processes release what they acquire\<close>

lemma heartbeat_opens: "c \<in> set (heartbeat_calls path) \<Longrightarrow> opens c = [HeartbeatTask]"
  by (cases path) (auto split: if_splits)

lemma heartbeat_tasks_are_tasks: "r \<in> set (heartbeat_tasks path) \<Longrightarrow> is_task r"
  by (auto simp: heartbeat_tasks_def is_task_def split: if_splits)

lemma calls_tasks:
  assumes "\<And>c. c \<in> set cs \<Longrightarrow> set (opens c) \<subseteq> X"
  shows "set (pr_open (snd (calls f cs p))) \<subseteq> set (pr_open p) \<union> X"
  using calls_open [of f cs p] assms by blast

lemma and_then_open:
  assumes "\<And>p. set (pr_open (snd (a p))) \<subseteq> set (pr_open p) \<union> X" and "\<And>p. set (pr_open (snd (b p))) \<subseteq> set (pr_open p) \<union> X"
  shows "set (pr_open (snd (and_then a b p))) \<subseteq> set (pr_open p) \<union> X"
  using assms(1) [of p] assms(2) [of "snd (a p)"] by (auto simp: and_then_def split: prod.split option.split)

lemma try_finally_open:
  assumes "\<And>p. set (pr_open (snd (a p))) \<subseteq> set (pr_open p) \<union> X" and "\<And>p. set (pr_open (snd (b p))) \<subseteq> set (pr_open p) \<union> X"
  shows "set (pr_open (snd (try_finally a b p))) \<subseteq> set (pr_open p) \<union> X"
  using assms(1) [of p] assms(2) [of "snd (a p)"] by (auto simp: try_finally_def split: prod.split option.split)

lemma raising_ok: "r = Inr v \<Longrightarrow> raising r k = k v"
  by (simp add: raising_def fun_eq_iff)

lemma worker_leaves:
  assumes "faults CloseRedis = None" "faults CloseBroker = None" "faults DisposeEngine = None" and "validate_runtime cfg = Inr ()"
  shows "pr_open (snd (asyncio_run (worker_main faults (Inr cfg) connect path) new_process)) =
    left_by (faults(ConnectBroker (rabbitmq_url cfg) := connect_fault connect))
      [ConfigureLogging (settings.log_level cfg), CreateEngine (database_url cfg), ConnectBroker (rabbitmq_url cfg),
       CreateRedis (redis_url cfg), InstallShutdownHandlers]"
  unfolding worker_main_def raising_ok [OF refl] raising_ok [OF assms(4)] Let_def
proof (rule guarded_action_open [where X = "{Consumer, HeartbeatTask, RecoveryTask}"])
  show "set (pr_open (snd (calls g ([OpenChannel False, SetQos 4, DeclareTopology, DeclareQueue JOBS_EXECUTE_QUEUE_NAME, StartConsumer] @
      heartbeat_calls path @ [StartRecovery, WaitForStop, CancelConsumer] @ map CancelTask tasks @ [Gather tasks]) q)))
      \<subseteq> set (pr_open q) \<union> {Consumer, HeartbeatTask, RecoveryTask}" for g tasks q
    by (rule calls_tasks) (auto dest: heartbeat_opens)
qed (use assms in \<open>auto simp: releases_def is_task_def\<close>)

lemma publisher_leaves:
  assumes "faults CloseBroker = None" "faults DisposeEngine = None" and "validate_runtime cfg = Inr ()"
  shows "pr_open (snd (asyncio_run (publisher_run faults (Inr cfg) connect path ended) new_process)) =
    left_by (faults(ConnectBroker (rabbitmq_url cfg) := connect_fault connect, RunLoop := loop_fault ended))
      [ConfigureLogging (settings.log_level cfg), CreateEngine (database_url cfg), ConnectBroker (rabbitmq_url cfg)]"
  unfolding publisher_run_def raising_ok [OF refl] raising_ok [OF assms(3)] Let_def
proof (rule guarded_action_open [where X = "{HeartbeatTask}"])
  show "set (pr_open (snd (and_then
      (calls g ([OpenChannel True, SetQos (outbox_batch_size cfg), DeclareTopology] @ heartbeat_calls path))
      (try_finally (calls g [RunLoop]) (calls g (map CancelTask tasks @ (if tasks = [] then [] else [Gather tasks])))) q)))
      \<subseteq> set (pr_open q) \<union> {HeartbeatTask}" for g tasks q
    by (intro and_then_open try_finally_open calls_tasks) (auto dest: heartbeat_opens split: if_splits)
qed (use assms in \<open>auto simp: releases_def is_task_def\<close>)

lemma recovery_leaves:
  assumes "faults CloseRedis = None" "faults DisposeEngine = None" and "validate_runtime cfg = Inr ()"
  shows "pr_open (snd (asyncio_run (recovery_run faults (Inr cfg) ended) new_process)) =
    left_by (faults(RunLoop := loop_fault ended))
      [ConfigureLogging (settings.log_level cfg), CreateEngine (database_url cfg), CreateRedis (redis_url cfg)]"
  unfolding recovery_run_def raising_ok [OF refl] raising_ok [OF assms(3)] Let_def
proof (rule guarded_action_open [where X = "{}"])
  show "set (pr_open (snd (calls g [RunLoop] q))) \<subseteq> set (pr_open q) \<union> {}" for g q by (rule calls_tasks) simp
qed (use assms in \<open>auto simp: releases_def is_task_def\<close>)

lemma lifespan_leaves:
  assumes "faults CloseRedis = None" "faults DisposeEngine = None" and "validate_runtime cfg = Inr ()"
  shows "pr_open (snd (asyncio_run (lifespan faults cfg) new_process)) =
    left_by faults [ConfigureLogging (settings.log_level cfg), CreateEngine (database_url cfg), CreateRedis (redis_url cfg)]"
  unfolding lifespan_def raising_ok [OF assms(3)]
proof (rule guarded_action_open [where X = "{}"])
  show "set (pr_open (snd (calls g [Serve] q))) \<subseteq> set (pr_open q) \<union> {}" for g q by (rule calls_tasks) simp
qed (use assms in \<open>auto simp: releases_def is_task_def\<close>)

text \<open>
  C32: the processes release what they acquire. As long as the closing calls themselves do not raise, whatever
  else does: the worker, the publisher, the recovery and the API process leave nothing open once they have
  entered their \<^verbatim>\<open>try\<close> block, not even when opening a channel, declaring the topology, the loop, or the
  cancellation of a task raises. Only a call before that block can leave something open, namely what was
  opened by the calls before it: a broker that stays unreachable leaves the engine.
\<close>

theorem processes_release_resources:
  assumes "faults CloseRedis = None" "faults CloseBroker = None" "faults DisposeEngine = None" and "validate_runtime cfg = Inr ()"
  shows "pr_open (snd (asyncio_run (worker_main faults (Inr cfg) connect path) new_process)) =
      left_by (faults(ConnectBroker (rabbitmq_url cfg) := connect_fault connect))
        [ConfigureLogging (settings.log_level cfg), CreateEngine (database_url cfg), ConnectBroker (rabbitmq_url cfg),
         CreateRedis (redis_url cfg), InstallShutdownHandlers] \<and>
    pr_open (snd (asyncio_run (publisher_run faults (Inr cfg) connect path ended) new_process)) =
      left_by (faults(ConnectBroker (rabbitmq_url cfg) := connect_fault connect, RunLoop := loop_fault ended))
        [ConfigureLogging (settings.log_level cfg), CreateEngine (database_url cfg), ConnectBroker (rabbitmq_url cfg)] \<and>
    pr_open (snd (asyncio_run (recovery_run faults (Inr cfg) ended) new_process)) =
      left_by (faults(RunLoop := loop_fault ended))
        [ConfigureLogging (settings.log_level cfg), CreateEngine (database_url cfg), CreateRedis (redis_url cfg)] \<and>
    pr_open (snd (asyncio_run (lifespan faults cfg) new_process)) =
      left_by faults [ConfigureLogging (settings.log_level cfg), CreateEngine (database_url cfg), CreateRedis (redis_url cfg)]"
  using worker_leaves [OF assms] publisher_leaves [OF assms(2-4)] recovery_leaves [OF assms(1,3,4)] lifespan_leaves [OF assms(1,3,4)]
  by blast

theorem processes_release_resources_witness:
  "pr_open (snd (asyncio_run (worker_main [WaitForStop \<mapsto> DatabaseError] (Inr demo_settings) (\<lambda>_. Inr ()) None) new_process)) = [] \<and>
   pr_open (snd (asyncio_run (worker_main Map.empty (Inr demo_settings) (\<lambda>_. Inl DatabaseError) None) new_process)) = [Engine]"
proof -
  have v: "validate_runtime demo_settings = Inr ()" by (simp add: validate_runtime_def demo_settings_def)
  have c: "connect_fault (\<lambda>_. Inr ()) = None" "connect_fault (\<lambda>_. Inl DatabaseError) = Some DatabaseError" by code_simp+
  show ?thesis
    using processes_release_resources [of "[WaitForStop \<mapsto> DatabaseError]" demo_settings "\<lambda>_. Inr ()" None LoopStopped]
      processes_release_resources [of Map.empty demo_settings "\<lambda>_. Inl DatabaseError" None LoopStopped] v
    by (simp add: left_by_def made_def c effect_def)
qed

text \<open>The broker stays unreachable: all five attempts fail, the process ends with the last failure and the engine is not disposed of.\<close>

lemma unreachable_broker_leaves_engine:
  assumes "\<And>n. connect n = Inl x" and "faults (ConfigureLogging (settings.log_level cfg)) = None"
    and "faults (CreateEngine (database_url cfg)) = None" and "validate_runtime cfg = Inr ()"
  shows "fst (worker_main faults (Inr cfg) connect path new_process) = Some x"
    and "pr_open (snd (worker_main faults (Inr cfg) connect path new_process)) = [Engine]"
proof -
  have "connect_fault connect = Some x"
    using connect_loop_fails [of 1 STARTUP_RETRY_ATTEMPTS connect None] assms(1)
    by (auto simp: connect_fault_def connect_robust_with_retry_def STARTUP_RETRY_ATTEMPTS_def)
  then show "fst (worker_main faults (Inr cfg) connect path new_process) = Some x"
    and "pr_open (snd (worker_main faults (Inr cfg) connect path new_process)) = [Engine]"
    using assms(2-4) by (simp_all add: worker_main_def process_defs new_process_def effect_def Let_def)
qed

text \<open>
  The calls of a \<^verbatim>\<open>finally\<close> block are made one after the other: if closing the Redis client raises, the
  connection to the broker and the engine are not closed.
\<close>

lemma calls_no_fault:
  assumes "\<And>c. c \<in> set cs \<Longrightarrow> f c = None"
  shows "calls f cs p = (None, p\<lparr>pr_trace := pr_trace p @ cs, pr_open := fold effect cs (pr_open p)\<rparr>)"
  using assms by (induction cs arbitrary: p) (simp_all add: Let_def)

lemma failing_close_skips_the_rest:
  assumes "\<And>c. c \<noteq> CloseRedis \<Longrightarrow> faults c = None" and "faults CloseRedis = Some x"
    and "connect 1 = Inr ()" and "validate_runtime cfg = Inr ()"
  shows "fst (worker_main faults (Inr cfg) connect path new_process) = Some x \<and>
    set (pr_open (snd (worker_main faults (Inr cfg) connect path new_process))) = {Engine, BrokerConnection, RedisConnections}"
proof -
  have "connect_fault connect = None"
    using assms(3) by (simp add: connect_fault_def connect_robust_with_retry_def connect_loop.simps STARTUP_RETRY_ATTEMPTS_def)
  then have f: "faults(ConnectBroker (rabbitmq_url cfg) := connect_fault connect) = faults"
    using assms(1) [of "ConnectBroker (rabbitmq_url cfg)"] by auto
  have none: "calls faults cs p = (None, p\<lparr>pr_trace := pr_trace p @ cs, pr_open := fold effect cs (pr_open p)\<rparr>)"
    if "CloseRedis \<notin> set cs" for cs p
    using that by (intro calls_no_fault) (metis assms(1))
  have h: "CloseRedis \<notin> set (heartbeat_calls path)" "set (heartbeat_tasks path) \<subseteq> {HeartbeatTask}"
    by (cases path; auto simp: heartbeat_tasks_def split: if_splits)+
  have hb: "fold effect (heartbeat_calls path) rs = rs @ heartbeat_tasks path" for rs
    by (cases path) (auto simp: heartbeat_tasks_def effect_def)
  have ct: "fold effect (map CancelTask ts) rs = rs" for ts rs by (induction ts arbitrary: rs) (simp_all add: effect_def)
  have "CloseRedis \<notin> CancelTask ` A" for A by blast
  then show ?thesis
    using h assms(2) unfolding worker_main_def raising_ok [OF refl] raising_ok [OF assms(4)] Let_def f
    by (simp add: and_then_def try_finally_def none hb ct new_process_def del: calls.simps)
      (auto simp: effect_def Let_def)
qed

text \<open>
  The exception that ends the loop of the publisher or the recovery ends its process; the worker, whose
  recovery runs as a task that is only gathered at the end, has no such call.
\<close>

lemma loop_failure_ends_service:
  assumes "\<And>c. c \<noteq> RunLoop \<Longrightarrow> faults c = None" and "connect 1 = Inr ()" and "validate_runtime cfg = Inr ()"
  shows "fst (publisher_main faults (Inr cfg) connect path ended new_process) = loop_fault ended"
    and "fst (recovery_main faults (Inr cfg) ended new_process) = loop_fault ended"
proof -
  have c: "connect_fault connect = None"
    using assms(2) by (simp add: connect_fault_def connect_robust_with_retry_def connect_loop.simps STARTUP_RETRY_ATTEMPTS_def)
  let ?f = "faults(ConnectBroker (rabbitmq_url cfg) := connect_fault connect, RunLoop := loop_fault ended)"
  let ?g = "faults(RunLoop := loop_fault ended)"
  have none: "calls h cs p = (None, p\<lparr>pr_trace := pr_trace p @ cs, pr_open := fold effect cs (pr_open p)\<rparr>)"
    if "RunLoop \<notin> set cs" "h \<in> {faults, ?f, ?g}" for h cs p
  proof (rule calls_no_fault)
    fix k assume "k \<in> set cs"
    then have "k \<noteq> RunLoop" using that(1) by blast
    then show "h k = None" using that(2) c assms(1) by auto
  qed
  have l: "fst (calls h [RunLoop] p) = loop_fault ended" if "h \<in> {?f, ?g}" for h p
    using that by (auto simp: Let_def split: option.split)
  have m: "RunLoop \<notin> set (heartbeat_calls path)" "RunLoop \<notin> CancelTask ` A" for A by (cases path) auto
  show "fst (publisher_main faults (Inr cfg) connect path ended new_process) = loop_fault ended"
    unfolding publisher_main_def run_background_loop_def publisher_run_def raising_ok [OF refl] raising_ok [OF assms(3)] Let_def
    using m l [of ?f] by (simp add: asyncio_run_result and_then_def try_finally_def none case_prod_beta del: calls.simps fun_upd_apply split: option.split)
  show "fst (recovery_main faults (Inr cfg) ended new_process) = loop_fault ended"
    unfolding recovery_main_def run_background_loop_def recovery_run_def raising_ok [OF refl] raising_ok [OF assms(3)] Let_def
    using l [of ?g] by (simp add: asyncio_run_result and_then_def try_finally_def none case_prod_beta del: calls.simps fun_upd_apply split: option.split)
qed

section \<open>What the administration commands do\<close>

text \<open>Creating an administrator ends with the result of the service call and with its database, and disposes of the engine.\<close>

lemma create_admin_effect:
  assumes "service_create_or_update_admin sec e salt email password db = (res, db')" and "\<And>c. faults c = None"
  shows "create_admin_run faults (Inr cfg) sec e salt email password db =
    ((case res of Inl x \<Rightarrow> Some x | Inr _ \<Rightarrow> None,
      \<lparr>pr_trace = [ConfigureLogging (settings.log_level cfg), CreateEngine (database_url cfg), UpsertAdmin email, DisposeEngine],
       pr_open = []\<rparr>), db')"
  using assms
  by (cases res) (simp_all add: create_admin_run_def process_defs new_process_def effect_def Let_def)

text \<open>
  Preparing the databases creates those that are missing and keeps the others; it succeeds when every creation
  does or meets another session's, and repeating it then changes nothing.
\<close>

lemma prepare_loop_keeps: "prepare_loop lib create urls server = (x, server') \<Longrightarrow> set server \<subseteq> set server'"
  by (induction urls arbitrary: server) (fastforce simp: Let_def split: if_splits create_outcome.splits)+

lemma prepare_loop_ok:
  assumes "\<And>n y. create n \<noteq> CreateRaised y"
  shows "\<exists>server'. prepare_loop lib create urls server = (None, server') \<and>
    set server' = set server \<union> (database_name lib ` set urls - {[]})"
proof (induction urls arbitrary: server)
  case (Cons url urls)
  let ?n = "database_name lib url"
  show ?case
  proof (cases "?n = [] \<or> ?n \<in> set server")
    case True
    then show ?thesis using Cons.IH [of server] by auto
  next
    case False
    moreover obtain s' where "prepare_loop lib create urls (server @ [?n]) = (None, s')"
      "set s' = set (server @ [?n]) \<union> (database_name lib ` set urls - {[]})" using Cons.IH by blast
    ultimately show ?thesis using assms [of ?n] by (cases "create ?n") auto
  qed
qed simp

lemma prepare_loop_noop:
  assumes "database_name lib ` set urls - {[]} \<subseteq> set server"
  shows "prepare_loop lib create urls server = (None, server)"
  using assms by (induction urls) (auto simp: Let_def)

lemma prepare_creates_missing:
  assumes "\<And>n y. create n \<noteq> CreateRaised y" and "\<And>c. faults c = None"
  shows "\<exists>p server'. prepare_local_databases faults lib create runtime test server = ((None, p), server') \<and> pr_open p = [] \<and>
    set server' = set server \<union> (database_name lib ` set (database_urls runtime test) - {[]}) \<and>
    prepare_local_databases faults lib create runtime test server' = ((None, p), server')"
proof -
  let ?urls = "database_urls runtime test"
  obtain s' where s': "prepare_loop lib create ?urls server = (None, s')" "set s' = set server \<union> (database_name lib ` set ?urls - {[]})"
    using prepare_loop_ok [of create lib ?urls server] assms(1) by blast
  have "prepare_loop lib create ?urls s' = (None, s')" by (rule prepare_loop_noop) (use s'(2) in auto)
  then show ?thesis using s' assms(2)
    by (cases "?urls = []") (auto simp: prepare_local_databases_def process_defs new_process_def effect_def Let_def)
qed

text \<open>
  A migration that fails leaves the catalogue as it was, closes its connection and raises; the engine is only
  disposed of after success.
\<close>

lemma migrations_online_effect:
  assumes "\<And>c. faults c = None"
  shows "fst (fst (run_migrations_online faults url ds c)) = map_option (\<lambda>_. DatabaseError) (fst (do_run_migrations ds c)) \<and>
    snd (run_migrations_online faults url ds c) = snd (do_run_migrations ds c) \<and>
    pr_open (snd (fst (run_migrations_online faults url ds c))) = (if fst (do_run_migrations ds c) = None then [] else [Engine])"
  using assms
  by (cases "exec_ddls ds c")
    (auto simp: run_migrations_online_def do_run_migrations_def process_defs new_process_def effect_def Let_def)

text \<open>
  Offline the database stays as it is, and the script, read back by anything that can read the
  statements, does in one transaction what the online mode would have done.
\<close>

definition script_statements :: "(string \<Rightarrow> ddl option) \<Rightarrow> script_line list \<Rightarrow> ddl list" where
  "script_statements read ls = List.map_filter (\<lambda>l. case l of ScriptStatement t \<Rightarrow> read t | _ \<Rightarrow> None) ls"

lemma offline_script_agrees:
  assumes "\<And>d. d \<in> set ds \<Longrightarrow> read (render d) = Some d" and "\<And>k. faults k = None"
    and "alembic_env faults (Inr cfg) True render ds c = (r, ls, c1)" and "alembic_env faults (Inr cfg) False render ds c = (r', ls', c2)"
  shows "c1 = c \<and> snd (do_run_migrations (script_statements read ls) c) = c2 \<and> hd ls = ScriptBegin \<and> last ls = ScriptCommit"
proof -
  have "List.map_filter (\<lambda>d. read (render d)) ds = ds"
    using assms(1) by (induction ds) (simp_all add: List.map_filter_simps)
  then have "script_statements read ls = ds"
    using assms(3) by (auto simp: alembic_env_def run_migrations_offline_def script_statements_def List.map_filter_def o_def filter_map)
  moreover have "ls = ScriptBegin # map (\<lambda>d. ScriptStatement (render d)) ds @ [ScriptCommit]"
    using assms(3) by (auto simp: alembic_env_def run_migrations_offline_def)
  ultimately show ?thesis
    using assms(3,4) migrations_online_effect [of faults "database_url cfg" ds c] assms(2)
    by (auto simp: alembic_env_def Let_def split: prod.splits)
qed

end
