(* ===== verification/Request_Log.thy ===== *)
theory Request_Log
  imports Wiring
begin

text \<open>
  What a request leaves in the log: the context variable of \<^verbatim>\<open>src/app/core/request_context.py\<close>, which the
  middleware of \<^verbatim>\<open>src/app/main.py\<close> sets and resets, the lines the error handlers of
  \<^verbatim>\<open>src/app/api/error_handlers.py\<close> and the middleware write, and the identifier the request filter puts on them.
\<close>

section \<open>The context variable\<close>

text \<open>\<^verbatim>\<open>set_request_id\<close> returns a token that remembers the value before; resetting restores it.\<close>

type_synonym context_var = "string option"

definition get_request_id :: "context_var \<Rightarrow> string option" where
  "get_request_id var = var"

definition set_request_id :: "string \<Rightarrow> context_var \<Rightarrow> context_var \<times> context_var" where
  "set_request_id request_id var = (var, Some request_id)"

definition reset_request_id :: "context_var \<Rightarrow> context_var \<Rightarrow> context_var" where
  "reset_request_id token var = token"

section \<open>Log lines of a request\<close>

text \<open>A log call: level, message, extra fields, and the value of the context variable when it is made.\<close>

record log_call =
  lc_level :: int
  lc_message :: string
  lc_extra :: json_object
  lc_context :: context_var

record request_info =
  ri_path :: string
  ri_method :: string

definition info_call :: "string \<Rightarrow> json_object \<Rightarrow> context_var \<Rightarrow> log_call" where
  "info_call message extra var = \<lparr>lc_level = 20, lc_message = message, lc_extra = extra, lc_context = var\<rparr>"

definition log_application_error :: "request_info \<Rightarrow> app_error \<Rightarrow> context_var \<Rightarrow> log_call" where
  "log_application_error rq exc =
     info_call ''application_error''
       [(''error_code'', JStr (ae_code exc)), (''status_code'', JInt (ae_status exc)),
        (''path'', JStr (ri_path rq)), (''method'', JStr (ri_method rq))]"

definition log_http_error :: "request_info \<Rightarrow> int \<Rightarrow> context_var \<Rightarrow> log_call" where
  "log_http_error rq status =
     info_call ''http_error'' [(''status_code'', JInt status), (''path'', JStr (ri_path rq)), (''method'', JStr (ri_method rq))]"

definition log_request_validation_error :: "request_info \<Rightarrow> nat \<Rightarrow> context_var \<Rightarrow> log_call" where
  "log_request_validation_error rq error_count =
     info_call ''request_validation_error''
       [(''path'', JStr (ri_path rq)), (''method'', JStr (ri_method rq)), (''error_count'', JInt (int error_count))]"

definition log_unexpected_error :: "request_info \<Rightarrow> context_var \<Rightarrow> log_call" where
  "log_unexpected_error rq var =
     \<lparr>lc_level = 40, lc_message = ''unexpected_error'',
      lc_extra = [(''path'', JStr (ri_path rq)), (''method'', JStr (ri_method rq))], lc_context = var\<rparr>"

definition log_request_completed :: "request_info \<Rightarrow> int \<Rightarrow> context_var \<Rightarrow> log_call" where
  "log_request_completed rq status =
     info_call ''request_completed'' [(''path'', JStr (ri_path rq)), (''method'', JStr (ri_method rq)), (''status_code'', JInt status)]"

text \<open>
  The handler of an exception the inner application takes runs inside the middleware and is followed by the
  line about the completed request; an exception it does not take leaves the middleware, which resets the
  variable, and is logged outside.
\<close>

definition request_log :: "request_info \<Rightarrow> string option \<Rightarrow> string \<Rightarrow> nat \<Rightarrow> context_var \<Rightarrow> response outcome \<Rightarrow> log_call list" where
  "request_log rq header new error_count var out =
     (let (token, inside) = set_request_id (request_id_of header new) var;
          outside = reset_request_id token inside;
          answered = request_context_middleware header new out;
          completed = log_request_completed rq (rs_status answered) (get_request_id inside)
      in case out of
           Responded r \<Rightarrow> [completed]
         | RequestInvalid \<Rightarrow> [log_request_validation_error rq error_count (get_request_id inside), completed]
         | EndpointRaised exc \<Rightarrow>
             (case application_error exc of
                Some ae \<Rightarrow> [log_application_error rq ae (get_request_id inside), completed]
              | None \<Rightarrow>
                  (case exc of
                     HTTPException status detail \<Rightarrow> [log_http_error rq status (get_request_id inside), completed]
                   | _ \<Rightarrow> [log_unexpected_error rq (get_request_id outside)])))"

text \<open>The record a call makes, and the line it becomes.\<close>

definition call_record :: "string \<Rightarrow> string \<Rightarrow> log_call \<Rightarrow> log_record" where
  "call_record levelname logger c =
     \<lparr>lg_levelname = levelname, lg_name = logger, lg_message = lc_message c, lg_request_id = None, lg_dict = lc_extra c,
      lg_exception = None\<rparr>"

definition logged_line :: "string \<Rightarrow> string \<Rightarrow> string \<Rightarrow> log_call \<Rightarrow> string" where
  "logged_line timestamp levelname logger c =
     format_record timestamp (snd (request_context_filter (lc_context c) (call_record levelname logger c)))"

text \<open>
  Every request leaves at least one line. The lines of a request that is answered inside carry its
  identifier, the last of them the status of the answer.
\<close>

definition answered_inside :: "response outcome \<Rightarrow> bool" where
  "answered_inside out = (case out of EndpointRaised exc \<Rightarrow> application_error exc \<noteq> None \<or> is_http_exception exc | _ \<Rightarrow> True)"

lemma answered_request_log:
  assumes "answered_inside out"
  shows "request_log rq header new error_count var out \<noteq> [] \<and>
    list_all (\<lambda>c. lc_context c = Some (request_id_of header new)) (request_log rq header new error_count var out) \<and>
    map_of (lc_extra (last (request_log rq header new error_count var out))) ''status_code'' =
      Some (JInt (rs_status (request_context_middleware header new out)))"
proof (cases out)
  case (EndpointRaised exc)
  with assms show ?thesis
    by (cases exc; cases "application_error exc")
      (auto simp: request_log_def answered_inside_def set_request_id_def get_request_id_def info_call_def log_application_error_def
        log_http_error_def log_request_completed_def)
qed (auto simp: request_log_def set_request_id_def get_request_id_def info_call_def log_request_validation_error_def
    log_request_completed_def)

text \<open>
  The line about an unexpected exception does not: although the response carries the identifier, the variable
  has been reset when it is written. Outside of any request it is empty, so the line says \<^verbatim>\<open>null\<close>.
\<close>

lemma unexpected_error_log:
  assumes "\<not> answered_inside (EndpointRaised exc)"
  shows "request_log rq header new error_count var (EndpointRaised exc) = [log_unexpected_error rq var]"
  using assms
  by (cases exc; cases "application_error exc")
    (auto simp: request_log_def answered_inside_def set_request_id_def get_request_id_def reset_request_id_def)

lemma unexpected_error_line_anonymous:
  assumes "\<not> answered_inside (EndpointRaised exc)" and "c \<in> set (request_log rq header new error_count None (EndpointRaised exc))"
  shows "lg_request_id (snd (request_context_filter (lc_context c) (call_record levelname logger c))) = None"
  using assms(2) unfolding unexpected_error_log [OF assms(1)] by (simp add: log_unexpected_error_def request_context_filter_def)

text \<open>A request leaves the context variable as it found it, so that identifiers do not leak into what follows.\<close>

lemma request_id_restored: "set_request_id request_id var = (token, inside) \<Longrightarrow> reset_request_id token changed = var"
  by (simp add: set_request_id_def reset_request_id_def)

end
