(* ===== verification/Spec2Isabelle.thy ===== *)
theory Spec2Isabelle
  imports Service_Properties Job_Board Interleaved_Claims Job_Ranking Progress Announcements Schema_Integrity Processes Request_Log
begin

text \<open>
  A verification of the job service in \<^verbatim>\<open>src/app\<close>: an HTTP API that accepts jobs, an outbox publisher
  that dispatches them to RabbitMQ, workers that execute them, and a recovery that takes back jobs
  of workers that died. PostgreSQL holds all state that matters; Redis holds counters, cached
  pages and events that may be lost.

  \<^bold>\<open>The program and its parts.\<close> A client registers and logs in (\<^verbatim>\<open>services/auth.py\<close>), creates a job
  under an idempotency key (\<^verbatim>\<open>services/jobs.py\<close>, after the rate limiter), which inserts the job, a log
  entry and a dispatch event in one transaction. The publisher (\<^verbatim>\<open>workers/outbox_publisher.py\<close>) sends
  due events to the execute queue and marks the job queued. A worker (\<^verbatim>\<open>workers/job_worker.py\<close>) claims
  the job under the lock of its owner's row, within the running-job limit, under a new execution token
  and a lease, runs the handler and records the end, a retry or the failure. The recovery
  (\<^verbatim>\<open>workers/stale_running_recovery.py\<close>) requeues or fails running jobs whose lease has expired. After
  each commit a notifier invalidates cached pages and publishes a status event.

  \<^bold>\<open>Theories and sources.\<close>
  \<^item> \<open>CJ_Prelude\<close>: tables as lists of rows, conditional updates, exceptions, the environment of an
    operation (clock, \<^verbatim>\<open>uuid4\<close>, whether each COMMIT succeeds), string functions of Python.
  \<^item> \<open>Domain_Model\<close>: \<^verbatim>\<open>domain/enums.py\<close>, \<^verbatim>\<open>domain/job_state.py\<close>, \<^verbatim>\<open>application/dto.py\<close>.
    \<open>Json_Text\<close>: JSON values, \<^verbatim>\<open>json.dumps\<close> with sorted keys and its reader.
  \<^item> \<open>Schema\<close>: the tables of \<^verbatim>\<open>models/\<close>, what a statement that violates a constraint raises, the settings record.
    \<open>Unit_Of_Work\<close>: \<^verbatim>\<open>db/uow.py\<close>. \<open>Migration\<close>: the declared tables (columns, types, widths, constraints,
    indexes) and the naming convention of \<^verbatim>\<open>models/\<close>, the statements of the migration and its downgrade,
    \<^verbatim>\<open>do_run_migrations\<close> of \<^verbatim>\<open>alembic/env.py\<close>, and what the declared constraints demand of a row.
    \<open>Schema_Integrity\<close>: the two agree, and the rows of the running system satisfy them.
  \<^item> \<open>Job_Repository\<close>, \<open>Outbox_Repository\<close>, \<open>User_Repository\<close>: \<^verbatim>\<open>repositories/\<close>, one definition per
    statement, with its guard and the columns it writes.
  \<^item> \<open>Handlers\<close>: \<^verbatim>\<open>workers/handlers/\<close>. \<open>Post_Commit\<close>: \<^verbatim>\<open>workers/post_commit.py\<close>.
    \<open>Job_Worker\<close>, \<open>Outbox_Publisher\<close>, \<open>Stale_Recovery\<close>: the three workers, each operation a function
    from the committed database to its result, the new database and what is sent.
  \<^item> \<open>Rate_Limiter\<close>: \<^verbatim>\<open>infrastructure/redis/rate_limiter.py\<close> with both Lua scripts.
    \<open>Job_Service\<close>, \<open>Auth_Service\<close>: \<^verbatim>\<open>application/services/\<close>, \<^verbatim>\<open>core/security.py\<close>.
  \<^item> \<open>Job_List_Cache\<close>: \<^verbatim>\<open>infrastructure/redis/job_list_cache.py\<close>. \<open>Event_Stream\<close>:
    \<^verbatim>\<open>infrastructure/redis/job_status_pubsub.py\<close> and the event stream of \<^verbatim>\<open>api/routes/jobs.py\<close>.
    \<open>Messaging\<close>: \<^verbatim>\<open>infrastructure/rabbitmq/\<close>. \<open>Api\<close>: \<^verbatim>\<open>api/\<close>, \<^verbatim>\<open>schemas/\<close>, \<^verbatim>\<open>core/exceptions.py\<close> and the
    middleware of \<^verbatim>\<open>main.py\<close>. \<open>Logging\<close>, \<open>Configuration\<close>: \<^verbatim>\<open>core/logging.py\<close>, \<^verbatim>\<open>core/config.py\<close>.
    \<open>Background\<close>: the \<^verbatim>\<open>run_forever\<close> loops, \<^verbatim>\<open>cli/heartbeat.py\<close>, the notifier of the processes, and which
    operations invalidate cached pages.
  \<^item> \<open>Wiring\<close>: \<^verbatim>\<open>create_app\<close> and the lifespan of \<^verbatim>\<open>main.py\<close>, \<^verbatim>\<open>db/session.py\<close>, \<^verbatim>\<open>api/dependencies/\<close>, the root logger of
    \<^verbatim>\<open>configure_logging\<close> with its filter. \<open>Request_Log\<close>: \<^verbatim>\<open>core/request_context.py\<close> and the records that the
    middleware and the exception handlers emit. \<open>Processes\<close>: the entry points in \<^verbatim>\<open>cli/\<close> and
    \<^verbatim>\<open>run_migrations_online\<close>, as sequences of calls with what each call acquires and releases and any of
    them failing.
  \<^item> \<open>System_Model\<close>: the state of the running system and its steps, one per transaction, in any order
    and with every failure the code admits. \<open>Job_Lifecycle\<close>, \<open>Fencing\<close>, \<open>System_History\<close>,
    \<open>Execution_Outcomes\<close>, \<open>Job_Listing\<close>, \<open>Lock_Order\<close>: the arguments about it.
    \<open>Job_Board\<close>: the specification it refines. \<open>Progress\<close>: what can still happen. \<open>Job_Ranking\<close>: how
    often a job can change. \<open>Interleaved_Claims\<close>: the claim statement by statement, many at once.
    \<open>Announcements\<close>: what subscribers are told of its changes.
  \<^item> \<open>Example_Run\<close>: concrete instances of all parameters and a short run, to which the theorems are
    applied. \<open>Service_Properties\<close>: the properties of the outer layers. This theory: those of the core.

  \<^bold>\<open>How the model corresponds to the code.\<close> Rows are records with the columns of the tables; a
  statement is a function on the table; a unit of work runs on a private copy that COMMIT publishes
  or that is dropped. Locks (\<^verbatim>\<open>FOR UPDATE\<close>) make transactions on the same rows sequential, so a
  transaction is one step; \<open>Interleaved_Claims\<close> takes the claim, which decides on more than the row it
  writes, apart and shows what this leaves out, \<open>Lock_Order\<close> looks inside at the order of the locks, and rows skipped by
  \<^verbatim>\<open>SKIP LOCKED\<close> are an argument. A read outside the writing transaction has a database argument of
  its own (\<open>seen\<close>, and \<open>reread\<close> for the transaction in which a cancellation reads the job back, which may also
  fail), so that other transactions can commit in between. Publishing an event takes two transactions when the broker
  fails: \<open>process_claimed_event\<close> and, at any later time, \<open>record_failure\<close>; \<open>sys_failures\<close> holds what is still to be
  recorded, and \<open>process_claimed_event_once\<close> is the two in a row. Exceptions are values of type
  \<open>exn\<close>. Times are microseconds, identifiers are 128-bit words, Python's integers are \<open>int\<close>; a value outside a
  \<^verbatim>\<open>SMALLINT\<close> column is a \<open>DataError\<close>. Message bodies, cached pages and events are texts, with the reader of the
  other side applied to them. The execution of a handler is a function of the answers its cancellation checks got so far
  (\<open>poll\<close>: yes, no, or the exception of a check that failed). Calls to Redis carry their own times, so that a clock
  may go on between a reservation and its return or between a database read and the store of its page.

  \<^bold>\<open>What the lemmas show.\<close>
  \<^item> Each conditional update is a move of a row (\<open>Job_Lifecycle\<close>), each transaction is \<open>safe\<close>
    (\<open>System_Model\<close>), and so every step keeps \<open>system_ok\<close>: consistent rows, capacity, unique tokens,
    no job without a way to be dispatched. C1 to C5 and C7 (at most one live execution, which no step
    replaces while it runs) rest on it; C11 shows that it also holds when the
    statements of claims interleave, thanks to the row locks. C39 shows that the system
    refines \<open>Job_Board\<close> by a simulation, C38 that every unfinished job without a request to cancel can be brought
    to its end by the steps of publisher, workers and recovery (\<open>service_step\<close>), C26 that
    the row of a job changes at most 11 times, by a rank that every change lowers.
  \<^item> C8, C13: the declared constraints hold in every reachable state; the migration creates the declared
    tables and its downgrade removes them.
  \<^item> C6, C9, C10, C12, C14: fencing and the outcome of each worker transaction on every branch.
    C12 covers every answer of the broker and both commits, C14 rows that are locked elsewhere.
    C28: what each of them, and each request, announces of the changes it commits, and what it leaves out.
  \<^item> C15 to C22: idempotent creation, what a request costs that creates nothing (C17), the rate limit at any
    times of a window (C18), cancellation, visibility, paging, hashing.
  \<^item> C23, C24: which transactions can deadlock. C25: a setting that cannot be used.
  \<^item> C29: the texts that are exchanged, with the one field a cached page loses. C27, C33 to C36: the API, with the one
    response that has another error body. C30: when a cached list is what the database holds, through the contract
    \<open>page_cache\<close> that both caches satisfy; C31: how old it can be at all. C37: the event stream.
    C40: the log. C32: the processes give back what they acquire.

  \<^bold>\<open>Parameters.\<close> Code that is not in the repository is an argument with its documented behaviour
  as a named hypothesis: the text forms of UUIDs and times and the reader of JSON texts (\<open>codec_ok\<close>, \<open>text_lib_ok\<close>), SHA-256 and
  base64, what the database driver reports (\<open>driver_reports_unique\<close>), password hashes and tokens
  (\<open>security_lib_ok\<close>, for tokens with the five claims the program writes), pydantic's reading of integers and e-mail addresses. \<open>Example_Run\<close> has an
  instance of each that satisfies the hypothesis. New identifiers are assumed to be unused
  (\<open>fresh\<close>) where no constraint of the database would reject a repetition.

  \<^bold>\<open>Termination.\<close> All definitions are total. The loops that wait for others (the handler, the event
  stream, the polling loops, the connection attempts) are functions of the inputs received so far, and
  say so when they need more; \<open>run_forever\<close> has a bound on the rounds it looks at, and ends within
  any bound that exceeds the round in which the stop event is set.

  \<^bold>\<open>Not modelled.\<close> Routing, header parsing, serialization and the generated API description of the
  framework; the argument parser of \<^verbatim>\<open>cli/create_admin.py\<close> (its results are arguments of
  \<open>create_admin_main\<close>); the SQL text of a migration (an argument of \<open>run_migrations_offline\<close>). \<^verbatim>\<open>core/clock.py\<close> (one call of the system clock, the field \<open>clock_now\<close> of the
  environment), the protocols of \<^verbatim>\<open>domain/handlers.py\<close> and of the repositories (method signatures without
  bodies) and \<^verbatim>\<open>domain/events.py\<close> (a record that nothing uses). Signals, event loops and
  connection pools appear as the calls that install, start or close them. Of the log calls, those of the
  HTTP layer are modelled; those of workers and services are left out.
\<close>

section \<open>Invariants of the running system\<close>

text \<open>
  C1: the running-job limit holds in every reachable state of the system, whatever the order of
  requests, deliveries, retries, recoveries, crashes and failed commits: no owner ever has more
  than \<^verbatim>\<open>JOB_MAX_RUNNING_PER_USER\<close> jobs in status \<^verbatim>\<open>running\<close>.
\<close>

theorem running_limit_holds:
  assumes "codec_ok (rt_codec rt)" and "settings_bounds (rt_settings rt)" and "reachable rt lib s"
  shows "count_running_for_owner owner (sys_db s) \<le> job_max_running_per_user (rt_settings rt)"
proof -
  have "1 \<le> job_max_running_per_user (rt_settings rt)" using assms(2) by (simp add: settings_bounds_def)
  with system_ok_parts(3) [OF reachable_system_ok [OF assms(1,3)]] show ?thesis
    unfolding capacity_ok_def by (metis max.absorb2 order_trans zero_le_one)
qed

theorem running_limit_holds_witness:
  "map job_status (db_jobs (sys_db demo_s4)) = [RUNNING] \<and> count_running_for_owner 100 (sys_db demo_s4) \<le> 3"
  using running_limit_holds [OF _ _ demo_reachable4, of 100] demo_db4_jobs demo_codec_ok demo_settings_ok by simp

text \<open>
  C2: no job is stranded. In every reachable state a \<^verbatim>\<open>pending\<close> job has an unpublished dispatch
  event in the outbox, and a \<^verbatim>\<open>queued\<close> job has one or is named by a valid message in the execute
  queue. So a job that waits for execution can always still be dispatched, also after a crash
  between publish and commit, a lost publish, a deferral or a recovery.
\<close>

theorem no_job_stranded:
  assumes "codec_ok (rt_codec rt)" and "reachable rt lib s" and "r \<in> set (db_jobs (sys_db s))"
    and "job_status r \<in> {PENDING, QUEUED}"
  shows "(\<exists>ev \<in> set (db_outbox_events (sys_db s)).
            ev_aggregate_id ev = job_id r \<and> ev_event_type ev = ''job.dispatch'' \<and> ev_published_at ev = None) \<or>
    job_status r = QUEUED \<and>
      (\<exists>msg \<in> set (sys_queue s). \<exists>m. model_validate_json (rt_codec rt) (msg_body msg) = Inr m \<and> dm_job_id m = job_id r)"
  using system_ok_parts(2) [OF reachable_system_ok [OF assms(1,2)]] assms(3,4)
  by (auto simp: dispatch_ok_def row_dispatched_def awaits_def awaits_dispatch_def carries_def)

theorem no_job_stranded_witness:
  "(\<exists>ev \<in> set (db_outbox_events demo_db3).
      ev_aggregate_id ev = 200 \<and> ev_event_type ev = ''job.dispatch'' \<and> ev_published_at ev = None) \<or>
   QUEUED = QUEUED \<and>
     (\<exists>msg \<in> {demo_message}. \<exists>m. model_validate_json demo_codec (msg_body msg) = Inr m \<and> dm_job_id m = 200)"
  using no_job_stranded [OF _ demo_reachable3, of demo_queued] demo_codec_ok by simp

text \<open>
  C3: every job row of a reachable state is consistent: at most 4 attempts, a worker, token and
  lease exactly while it runs, a finish time exactly when it has ended, a start time exactly when
  it was attempted, at most 3 attempts used up while it is queued, none while it is pending.
\<close>

theorem reachable_rows_consistent:
  assumes "codec_ok (rt_codec rt)" and "reachable rt lib s" and "r \<in> set (db_jobs (sys_db s))"
  shows "0 \<le> job_attempt_count r \<and> job_attempt_count r \<le> 4 \<and>
    (job_status r = PENDING \<longrightarrow> job_attempt_count r = 0) \<and> (job_status r = QUEUED \<longrightarrow> job_attempt_count r \<le> 3) \<and>
    (job_execution_token r \<noteq> None \<longleftrightarrow> job_status r = RUNNING) \<and> (job_worker_id r \<noteq> None \<longleftrightarrow> job_status r = RUNNING) \<and>
    (job_lease_expires_at r \<noteq> None \<longleftrightarrow> job_status r = RUNNING) \<and>
    (job_finished_at r \<noteq> None \<longleftrightarrow> is_terminal_status (job_status r)) \<and>
    (job_started_at r \<noteq> None \<longleftrightarrow> 0 < job_attempt_count r)"
  using db_ok_row [OF system_ok_parts(1) [OF reachable_system_ok [OF assms(1,2)]] assms(3)] by (simp add: job_ok_def)

theorem reachable_rows_consistent_witness:
  "job_execution_token (hd (db_jobs demo_db4)) \<noteq> None \<and> job_attempt_count (hd (db_jobs demo_db4)) \<le> 4"
proof -
  obtain r where r: "db_jobs demo_db4 = [r]" "job_status r = RUNNING" using demo_db4_jobs(1) by auto
  then show ?thesis using reachable_rows_consistent [OF _ demo_reachable4, of r] demo_codec_ok by auto
qed

text \<open>
  C4: the life of a job obeys the job state policy. Whatever happens after a state, a job of that
  state is still there with its identity, owner, type, payload, idempotency key and request hash
  unchanged; its status has changed along transitions the policy allows; and once its status is
  terminal the whole row never changes again.
\<close>

theorem job_follows_policy:
  assumes "codec_ok (rt_codec rt)" and "reachable rt lib s" and "r \<in> set (db_jobs (sys_db s))"
    and "(step rt lib)\<^sup>*\<^sup>* s s'"
  shows "\<exists>r' \<in> set (db_jobs (sys_db s')).
    job_id r' = job_id r \<and> job_owner_id r' = job_owner_id r \<and> job_type r' = job_type r \<and>
    job_payload r' = job_payload r \<and> job_idempotency_key r' = job_idempotency_key r \<and>
    job_request_hash r' = job_request_hash r \<and>
    can_transition\<^sup>*\<^sup>* (job_status r) (job_status r') \<and>
    (is_terminal_status (job_status r) \<longrightarrow> r' = r)"
proof -
  from run_follows [OF assms(1) reachable_system_ok [OF assms(1,2)] assms(3,4)]
  obtain r' where r': "r' \<in> set (db_jobs (sys_db s'))" "moves_in UNIV r r'" by (auto simp: follows_def)
  then show ?thesis
    using moves_in_identity [OF r'(2)] moves_in_policy [OF r'(2)] moves_in_terminal [OF r'(2)]
    by (intro bexI [of _ r']) (auto simp: same_identity_def)
qed

theorem job_follows_policy_witness:
  "\<exists>r' \<in> set (db_jobs demo_db4). job_id r' = 200 \<and> can_transition\<^sup>*\<^sup>* QUEUED (job_status r')"
  using job_follows_policy [OF _ demo_reachable3, of demo_queued demo_s4] demo_step4 demo_codec_ok by auto

text \<open>
  C5: there is one job per owner and idempotency key in every reachable state.
\<close>

theorem one_job_per_key:
  assumes "codec_ok (rt_codec rt)" and "reachable rt lib s"
    and "r \<in> set (db_jobs (sys_db s))" and "r' \<in> set (db_jobs (sys_db s))"
    and "job_owner_id r = job_owner_id r'" and "job_idempotency_key r = job_idempotency_key r'"
  shows "r = r'"
  using system_ok_parts(1) [OF reachable_system_ok [OF assms(1,2)]] assms(3-6)
  by (intro key_unique [of idempotency_pair "db_jobs (sys_db s)"])
    (auto simp: db_ok_def jobs_ok_def idempotency_pair_def)

theorem one_job_per_key_witness:
  "hd (db_jobs demo_db3) = last (db_jobs demo_db3)"
  by (rule one_job_per_key [OF _ demo_reachable3]) (simp_all add: demo_codec_ok)

text \<open>
  C6: an execution that lost its token cannot change anything. In a reachable state, when the
  row of a job no longer runs under the token of an execution in flight (it was recovered, or
  taken by another delivery), whatever that execution ends with, it leaves the database exactly as
  it is and notifies nobody.
\<close>

theorem stale_execution_fenced:
  assumes "codec_ok (rt_codec rt)" and "reachable rt lib s" and "fl \<in> set (sys_flights s)"
    and "\<not> (\<exists>r \<in> set (db_jobs (sys_db s)). job_id r = je_id (cl_job (fl_claim fl)) \<and> job_status r = RUNNING \<and>
      job_execution_token r = Some (cl_execution_token (fl_claim fl)))"
    and "execute_claim rt e (fl_claim fl) polls (sys_db s) = Some out"
  shows "out = (Inr (), sys_db s, [])"
proof -
  note ok = reachable_system_ok [OF assms(1,2)]
  show ?thesis
    by (rule fenced_execution [OF db_ok_keys [OF system_ok_parts(1) [OF ok]] _ system_ok_parts(5) [OF ok assms(3)] assms(5)])
      (use assms(4) in \<open>simp add: holds_token_def\<close>)
qed

theorem stale_execution_fenced_witness:
  "execute_claim demo_rt (demo_env 80) demo_claim [] demo_db5 = Some (Inr (), demo_db5, [])"
proof -
  have "worker_mark_completed (demo_env 80) demo_claim demo_db5 = (Inr (), sys_db demo_s5, [])"
    by (rule stale_execution_fenced [OF _ demo_reachable5 demo_flight5])
      (simp_all add: demo_codec_ok demo_execute demo_s5_def demo_db5_jobs)
  then show ?thesis by (simp add: demo_execute demo_s5_def)
qed

text \<open>
  C7: at most one execution of a job is live, and no other execution can take its place. In every
  reachable state at most one of the executions in flight for a job holds the token on the job's row,
  however many deliveries of its messages the workers have taken. And in no step is a running job
  handed to somebody else: its row keeps its token, attempt and lease for as long as it is running, so a
  second execution can only begin after the job has left the status \<^verbatim>\<open>running\<close> (by its end, a retry or
  recovery).
\<close>

theorem at_most_one_live_execution:
  assumes "codec_ok (rt_codec rt)" and "reachable rt lib s"
  shows "length (filter (\<lambda>fl. je_id (cl_job (fl_claim fl)) = i \<and>
      (\<exists>r \<in> set (db_jobs (sys_db s)). job_id r = i \<and> job_execution_token r = Some (cl_execution_token (fl_claim fl))))
    (sys_flights s)) \<le> 1 \<and>
   (\<forall>s' r. step rt lib s s' \<longrightarrow> r \<in> set (db_jobs (sys_db s)) \<longrightarrow> job_status r = RUNNING \<longrightarrow>
      (\<exists>r' \<in> set (db_jobs (sys_db s')). job_id r' = job_id r \<and> job_attempt_count r' = job_attempt_count r \<and>
         (job_status r' = RUNNING \<longrightarrow>
            job_execution_token r' = job_execution_token r \<and> job_lease_expires_at r' = job_lease_expires_at r)))"
proof (intro conjI allI impI)
  note ok = reachable_system_ok [OF assms]
  let ?tok = "\<lambda>fl. cl_execution_token (fl_claim fl)"
  let ?fs = "filter (\<lambda>fl. je_id (cl_job (fl_claim fl)) = i \<and>
      (\<exists>r \<in> set (db_jobs (sys_db s)). job_id r = i \<and> job_execution_token r = Some (?tok fl))) (sys_flights s)"
  have "distinct (map ?tok ?fs)" by (rule distinct_map_filter [OF system_ok_parts(4) [OF ok]])
  moreover have "?tok fl = ?tok fl'" if fl: "fl \<in> set ?fs" "fl' \<in> set ?fs" for fl fl'
  proof -
    from fl obtain r r' where "r \<in> set (db_jobs (sys_db s))" "job_id r = i" "job_execution_token r = Some (?tok fl)"
      "r' \<in> set (db_jobs (sys_db s))" "job_id r' = i" "job_execution_token r' = Some (?tok fl')" by auto
    then show ?thesis using job_row_unique [OF db_ok_keys [OF system_ok_parts(1) [OF ok]], of r r'] by simp
  qed
  ultimately show "length ?fs \<le> 1" by (rule distinct_constant)
qed (rule running_row_kept [OF assms(1) _ reachable_system_ok [OF assms]])

theorem at_most_one_live_execution_witness:
  "length (filter (\<lambda>fl. je_id (cl_job (fl_claim fl)) = 200 \<and>
      (\<exists>r \<in> set (db_jobs demo_db4). job_id r = 200 \<and> job_execution_token r = Some (cl_execution_token (fl_claim fl))))
    (sys_flights demo_s4)) \<le> 1 \<and>
   (\<exists>r' \<in> set (db_jobs demo_db5). job_id r' = 200 \<and> job_attempt_count r' = 1)"
proof -
  note all = at_most_one_live_execution [OF _ demo_reachable4, of 200]
  have "step demo_rt demo_lib demo_s4 (demo_s4\<lparr>sys_db := demo_db5\<rparr>)" using demo_step5 by (simp add: demo_s5_def)
  then have "\<exists>r' \<in> set (db_jobs demo_db5). job_id r' = job_id demo_running \<and> job_attempt_count r' = job_attempt_count demo_running"
    using all demo_codec_ok by (fastforce simp: demo_db4_running)
  then show ?thesis using all demo_codec_ok by (auto simp: demo_db4_running)
qed

text \<open>
  Recovery and completion race for the same execution, and the first one wins. Once a
  recovery has requeued the running job, completing it with the old token is refused and changes
  nothing; once it is completed, requeueing it with that token is refused and changes nothing.
\<close>

lemma first_finisher_wins:
  assumes "job_keys_ok db"
  shows "mark_completed i tok now' (snd (requeue_running i tok now er db)) = (False, snd (requeue_running i tok now er db)) \<and>
    requeue_running i tok now er (snd (mark_completed i tok now' db)) = (False, snd (mark_completed i tok now' db))"
  using recovery_wins.loser_changes_nothing [OF assms] completion_wins.loser_changes_nothing [OF assms] by blast

section \<open>Executing a job\<close>

text \<open>
  C9: what a delivery does to a job, by the state of its row. A job that is not \<^verbatim>\<open>queued\<close> is left
  alone; a queued job of an owner at the limit stays queued and has a dispatch event waiting; any
  other queued job becomes \<^verbatim>\<open>running\<close> under a new token with one more attempt counted and a lease
  of \<^verbatim>\<open>JOB_LEASE_SECONDS\<close>, and the claim returned names exactly that token and attempt.
\<close>

theorem claim_decision:
  assumes ok: "db_ok c db" and r: "r \<in> set (db_jobs db)" "job_id r = dm_job_id m" and commit: "commit_ok e 0"
  shows "\<exists>claim db' ns. claim_execution rt w e m db = (Inr claim, db', ns) \<and>
    (job_status r \<noteq> QUEUED \<longrightarrow> claim = None \<and> db' = db \<and> ns = []) \<and>
    (job_status r = QUEUED \<longrightarrow>
       (if count_running_for_owner (job_owner_id r) db \<ge> job_max_running_per_user (rt_settings rt)
        then claim = None \<and> db_jobs db' = db_jobs db \<and> (\<exists>ev \<in> set (db_outbox_events db'). awaits_dispatch (job_id r) ev)
        else (\<exists>cl r'. claim = Some cl \<and> cl_execution_token cl = uuid4 e 0 \<and> cl_attempt_number cl = job_attempt_count r + 1 \<and>
               r' \<in> set (db_jobs db') \<and> job_id r' = job_id r \<and> job_status r' = RUNNING \<and>
               job_attempt_count r' = job_attempt_count r + 1 \<and> job_execution_token r' = Some (uuid4 e 0) \<and>
               job_lease_expires_at r' = Some (clock_now e 0 + timedelta_seconds (job_lease_seconds (rt_settings rt))))))"
proof -
  note eq = claim_execution_eq [OF ok r, of rt w e]
  consider "job_status r \<noteq> QUEUED"
    | "job_status r = QUEUED" "count_running_for_owner (job_owner_id r) db \<ge> job_max_running_per_user (rt_settings rt)"
    | "job_status r = QUEUED" "\<not> count_running_for_owner (job_owner_id r) db \<ge> job_max_running_per_user (rt_settings rt)"
    by blast
  then show ?thesis
  proof cases
    case 2
    then show ?thesis using defer_db_awaits [of rt e "job_id r" db] by (simp add: eq settle_def commit)
  next
    case 3
    then show ?thesis using start_db_row [OF r(1) 3(1), of rt w e] by (simp add: eq settle_def commit claim_of_def Bex_def)
  qed (simp add: eq)
qed

theorem claim_decision_witness:
  "\<exists>cl db' ns. claim_execution demo_rt ''w'' (demo_env 4) demo_dispatch demo_db3 = (Inr (Some cl), db', ns) \<and>
    cl_execution_token cl = 400 \<and> cl_attempt_number cl = 1"
  using claim_decision [OF system_ok_parts(1) [OF demo_ok3], of demo_queued demo_dispatch "demo_env 4" demo_rt "''w''"]
  by (auto simp: demo_dispatch_def count_running_for_owner_def rowcount_def)

text \<open>
  C10: how an execution ends is recorded. A live execution whose handler returns leaves the job
  \<^verbatim>\<open>completed\<close>; one that stops on a cancellation leaves it \<^verbatim>\<open>cancelled\<close>; a failure in one of the
  first three attempts leaves it \<^verbatim>\<open>queued\<close> with the error text and a dispatch event that is due
  5, 15 or 30 seconds later (or was waiting already); a failure in the fourth leaves it \<^verbatim>\<open>failed\<close>.
\<close>

theorem execution_end_recorded:
  assumes keys: "job_keys_ok db" and live: "live_execution db cl r" and ok: "commit_ok e 0"
  shows "leaves (worker_mark_completed e cl db) (job_id r)
      (\<lambda>db' r'. job_status r' = COMPLETED \<and> job_finished_at r' = Some (clock_now e 0) \<and> job_last_error r' = None) \<and>
    leaves (worker_mark_cancelled e cl db) (job_id r)
      (\<lambda>db' r'. job_status r' = CANCELLED \<and> job_finished_at r' = Some (clock_now e 0)) \<and>
    leaves (finalize_failure rt e cl er db) (job_id r)
      (\<lambda>db' r'. job_last_error r' = Some (truncate_job_error er) \<and>
         (if cl_attempt_number cl < 4
          then job_status r' = QUEUED \<and> job_attempt_count r' = cl_attempt_number cl \<and>
               (\<exists>ev \<in> set (db_outbox_events db'). awaits_dispatch (job_id r) ev \<and>
                  (ev \<in> set (db_outbox_events db) \<or>
                   ev_available_at ev = clock_now e 0 + timedelta_seconds
                     (if cl_attempt_number cl = 1 then 5 else if cl_attempt_number cl = 2 then 15 else 30)))
          else job_status r' = FAILED \<and> job_finished_at r' = Some (clock_now e 0)))"
    (is "_ \<and> _ \<and> leaves _ _ ?P")
proof (intro conjI)
  have four: "max_total_attempts (cl_job cl) = 4"
    using live by (auto simp: live_execution_def intro: max_total_attempts_claim)
  show "leaves (finalize_failure rt e cl er db) (job_id r) ?P"
  proof (cases "cl_attempt_number cl < 4")
    case True
    then have "finalize_failure rt e cl er db = schedule_retry rt e cl er db" by (simp add: finalize_failure_def four)
    moreover have "leaves (schedule_retry rt e cl er db) (job_id r) ?P"
      by (rule leaves_mono [OF retried_outcome [OF keys live ok]]) (use True in \<open>auto simp: retry_delay_def\<close>)
    ultimately show ?thesis by simp
  next
    case False
    then have "finalize_failure rt e cl er db = worker_mark_failed e cl er db" by (simp add: finalize_failure_def four)
    moreover have "leaves (worker_mark_failed e cl er db) (job_id r) ?P"
      by (rule leaves_mono [OF failed_outcome [OF keys live ok]]) (use False in auto)
    ultimately show ?thesis by simp
  qed
qed (rule completed_outcome [OF assms] cancelled_outcome [OF assms])+

theorem execution_end_recorded_witness:
  "leaves (worker_mark_completed (demo_env 5) demo_claim demo_db4) 200
     (\<lambda>db' r'. job_status r' = COMPLETED \<and> job_finished_at r' = Some 5000000 \<and> job_last_error r' = None)"
  using execution_end_recorded [OF demo_keys4 demo_live, of "demo_env 5"] by simp

text \<open>
  The four attempts are the only ones. On a reachable database the worker never takes the
  branch for a queued job that exceeded its attempts, and the retry delay of a failed attempt is
  always found in the table: no \<^verbatim>\<open>KeyError\<close> escapes from scheduling a retry.
\<close>

lemma attempts_never_exhausted_in_queue:
  assumes "codec_ok (rt_codec rt)" and "reachable rt lib s"
  shows "(\<forall>r \<in> set (db_jobs (sys_db s)). job_status r = QUEUED \<longrightarrow>
      job_attempt_count r + 1 \<le> max_total_attempts (to_job_execution_dto r)) \<and>
    (\<forall>fl \<in> set (sys_flights s). cl_attempt_number (fl_claim fl) < max_total_attempts (cl_job (fl_claim fl)) \<longrightarrow>
      (\<exists>d. retry_backoff_seconds (cl_attempt_number (fl_claim fl)) = Inr d))"
proof (intro conjI ballI impI)
  note ok = reachable_system_ok [OF assms]
  fix r assume r: "r \<in> set (db_jobs (sys_db s))" "job_status r = QUEUED"
  then have "job_ok r" using db_ok_row [OF system_ok_parts(1) [OF ok]] by simp
  with r(2) show "job_attempt_count r + 1 \<le> max_total_attempts (to_job_execution_dto r)"
    by (simp add: max_total_attempts_row) (simp add: job_ok_def)
next
  fix fl assume fl: "fl \<in> set (sys_flights s)" and less: "cl_attempt_number (fl_claim fl) < max_total_attempts (cl_job (fl_claim fl))"
  have claim: "claim_ok (sys_db s) (fl_claim fl)" using system_ok_parts(5) [OF reachable_system_ok [OF assms] fl] .
  then show "\<exists>d. retry_backoff_seconds (cl_attempt_number (fl_claim fl)) = Inr d"
    using less by (intro retry_backoff_defined) (auto simp: max_total_attempts_claim [OF claim] claim_ok_def)
qed

section \<open>Dispatching and recovering\<close>

text \<open>
  C12: publishing a dispatch event of a waiting job is all or nothing, and at least once, for every
  answer of the broker and every outcome of the two COMMITs. When the broker confirms and the commit
  succeeds, one message that names the job is in the queue, the event is marked and the job is
  \<^verbatim>\<open>queued\<close>. When that commit fails, the message is out and the database as before, so the event will be
  published again. When the publish raises, whether the broker took the message or not, the jobs are
  untouched and the second transaction leaves the event unpublished with one more attempt counted
  and its next try delayed by the backoff; when that one fails too, the database is as before.
\<close>

theorem publish_outcome:
  assumes c: "codec_ok (rt_codec rt)" and ok: "db_ok (rt_codec rt) db"
    and ev: "ev \<in> set (db_outbox_events db)" "ev_published_at ev = None" "\<not> locked (ev_id ev)"
    and r: "r \<in> set (db_jobs db)" "job_id r = ev_aggregate_id ev" "job_status r \<in> {PENDING, QUEUED}"
  shows "\<exists>res db' ms. process_claimed_event_once rt e locked pr (ev_id ev) db = (res, db', ms) \<and>
    (\<forall>msg \<in> set ms. carries (rt_codec rt) (job_id r) msg) \<and>
    (case pr of
       Confirmed \<Rightarrow> length ms = 1 \<and>
         (if commit_ok e 0
          then res = Inr True \<and>
            (\<exists>ev' \<in> set (db_outbox_events db'). ev_id ev' = ev_id ev \<and> ev_published_at ev' = Some (clock_now e 1)) \<and>
            (\<exists>r' \<in> set (db_jobs db'). job_id r' = job_id r \<and> job_status r' = QUEUED)
          else res = Inl DatabaseError \<and> db' = db)
     | RaisedTaken x \<Rightarrow> length ms = 1 \<and> unpublished_again e ev db res db'
     | RaisedLost x \<Rightarrow> ms = [] \<and> unpublished_again e ev db res db')"
proof -
  have look: "get_by_id_for_update_unpublished locked (ev_id ev) db = Some ev"
    using ok ev by (simp add: get_by_id_for_update_unpublished_def scalar_where_key_and db_ok_def events_ok_def)
  obtain m where m: "model_validate (rt_codec rt) (ev_payload ev) = Inr m" "dm_job_id m = ev_aggregate_id ev"
    using ok ev(1) by (auto simp: db_ok_def events_ok_def event_ok_def)
  have car: "carries (rt_codec rt) (job_id r) (dispatch_amqp_message (rt_codec rt) ev m)"
    using model_validate_dump_json [OF c model_validate_kind [OF m(1)]] m(2) r(2)
    by (simp add: carries_def dispatch_amqp_message_def)
  have failed: "unpublished_again e ev db (Inr True) (publish_failure_db e ev er db)" if "commit_ok e 1" for er
    using failed_event [OF ev(1,2)] that by (simp add: unpublished_again_def publish_failure_db_def)
  have unrecorded: "unpublished_again e ev db (Inl DatabaseError) db" if "\<not> commit_ok e 1"
    using that by (simp add: unpublished_again_def)
  show ?thesis
    using car published_event [of ev "queued_db e r db" "clock_now e 1"] queued_row [OF r(1,3), of e] ev(1) failed unrecorded
    by (cases pr) (simp_all add: process_dispatch [OF db_ok_keys [OF ok] look r m(1)])
qed

theorem publish_outcome_witness:
  "\<exists>db' msg. process_claimed_event_once demo_rt (demo_env 3) (\<lambda>_. False) Confirmed 201 demo_db2 = (Inr True, db', [msg]) \<and>
    carries demo_codec 200 msg"
proof -
  have "system_ok demo_rt demo_s2"
    using step_ok [OF _ demo_step2] step_ok [OF _ demo_step1 initial_ok] demo_codec_ok by simp
  then have "db_ok demo_codec demo_db2" using system_ok_parts(1) by fastforce
  then show ?thesis
    using publish_outcome [of demo_rt demo_db2 demo_event "\<lambda>_. False" demo_row "demo_env 3" Confirmed] demo_codec_ok
    by (auto simp: length_Suc_conv)
qed

text \<open>
  An event of a job that is no longer dispatchable (it runs, or it has ended) is consumed
  without a message: nothing is published, no job changes, and the event is not processed again.
\<close>

lemma undispatchable_event_discarded:
  assumes ok: "db_ok c db" and ev: "ev \<in> set (db_outbox_events db)" "ev_published_at ev = None" "\<not> locked (ev_id ev)"
    and r: "r \<in> set (db_jobs db)" "job_id r = ev_aggregate_id ev" "job_status r \<notin> {PENDING, QUEUED}" and commit: "commit_ok e 0"
  shows "\<exists>db'. process_claimed_event_once rt e locked pr (ev_id ev) db = (Inr True, db', []) \<and> db_jobs db' = db_jobs db \<and>
    process_claimed_event_once rt e' locked pr' (ev_id ev) db' = (Inr False, db', [])"
proof -
  have ids: "distinct (map ev_id (db_outbox_events db))" using ok by (simp add: db_ok_def events_ok_def)
  have look: "get_by_id_for_update_unpublished locked (ev_id ev) db = Some ev"
    using ids ev by (simp add: get_by_id_for_update_unpublished_def scalar_where_key_and)
  have "scalar_where (\<lambda>x. job_id x = ev_aggregate_id ev) (db_jobs db) = Some r"
    using r by (simp add: job_lookup_iff db_ok_keys [OF ok])
  then have job: "get_by_id_for_update (ev_aggregate_id ev) db = Some (to_stored_job_dto r)"
    by (simp add: get_by_id_for_update_def)
  let ?d = "discard_non_dispatchable_event e ev (job_status r) db"
  have "get_by_id_for_update_unpublished locked (ev_id ev) ?d = None"
    by (auto simp: get_by_id_for_update_unpublished_def scalar_where_None_iff discard_non_dispatchable_event_def
        mark_published_def set_update_where)
  moreover have "process_claimed_event_once rt e locked pr (ev_id ev) db = (Inr True, ?d, [])"
    using process_discard [OF look job, of rt e pr] r(3) commit by simp
  moreover have "db_jobs ?d = db_jobs db" by (simp add: discard_non_dispatchable_event_def)
  ultimately show ?thesis using process_skip by blast
qed

lemma undispatchable_event_discarded_instance:
  "\<exists>db'. process_claimed_event_once demo_rt (demo_env 6) (\<lambda>_. False) Confirmed 201 demo_db_stale_event = (Inr True, db', [])"
  using undispatchable_event_discarded [OF demo_stale_event_ok, of demo_event "\<lambda>_. False" demo_running "demo_env 6" demo_rt Confirmed
      "demo_env 6" Confirmed]
  by (auto simp: demo_stale_event_sel)

text \<open>
  C14: recovery leaves no expired lease behind that it can lock. When the expired jobs whose rows no
  other transaction has locked fit into one batch, the batch recovers exactly those: each is \<^verbatim>\<open>queued\<close>
  with a dispatch event waiting if it has attempts left and \<^verbatim>\<open>failed\<close> otherwise, every other row is
  unchanged, locked ones included, and a lease that is still expired afterwards belongs to a locked
  row. When the commit fails, nothing has changed.
\<close>

theorem recovery_clears_expired:
  assumes ok: "db_ok c db"
    and fits: "length (filter (\<lambda>r. lease_expired (clock_now e 0) r \<and> \<not> locked (job_id r)) (db_jobs db))
      \<le> nat (recovery_batch_size (rt_settings rt))"
  shows "\<exists>res db' ns. recover_due_batch_once rt e locked db = (res, db', ns) \<and>
    (if \<not> commit_ok e 0 then db' = db \<and> ns = []
     else
       res = Inr (int (length (filter (\<lambda>r. lease_expired (clock_now e 0) r \<and> \<not> locked (job_id r)) (db_jobs db)))) \<and>
       (\<forall>r' \<in> set (db_jobs db'). lease_expired (clock_now e 0) r' \<longrightarrow> locked (job_id r')) \<and>
       (\<forall>r \<in> set (db_jobs db).
          if lease_expired (clock_now e 0) r \<and> \<not> locked (job_id r)
          then \<exists>r' \<in> set (db_jobs db'). job_id r' = job_id r \<and>
                 (if job_attempt_count r < 4
                  then job_status r' = QUEUED \<and> (\<exists>ev \<in> set (db_outbox_events db'). awaits_dispatch (job_id r) ev)
                  else job_status r' = FAILED)
          else r \<in> set (db_jobs db')))"
proof (cases "commit_ok e 0")
  case True
  let ?now = "clock_now e 0" and ?due = "\<lambda>r. lease_expired (clock_now e 0) r \<and> \<not> locked (job_id r)"
  let ?rs = "stale_rows locked ?now (recovery_batch_size (rt_settings rt)) db"
  let ?d = "recovered_all (rt_codec rt) e ?now 0 ?rs db"
  have rs: "set ?rs = {r \<in> set (db_jobs db). ?due r}" "length ?rs = length (filter ?due (db_jobs db))"
    using fits by (auto simp: stale_rows_def)
  have dist: "distinct (map job_id ?rs)" by (rule distinct_stale_rows [OF db_ok_keys [OF ok]])
  have jobs: "db_jobs ?d = update_where ?due (recover_row ?now) (db_jobs db)"
    unfolding recovered_all_jobs [OF dist] using rs(1) job_row_unique [OF db_ok_keys [OF ok]]
    by (intro update_where_pred_cong) (auto simp: image_iff)
  have left: "\<forall>r' \<in> set (db_jobs ?d). lease_expired ?now r' \<longrightarrow> locked (job_id r')"
    unfolding jobs by (auto elim!: in_update_whereE split: if_splits)
  have each: "if ?due r
       then \<exists>r' \<in> set (db_jobs ?d). job_id r' = job_id r \<and>
              (if job_attempt_count r < 4
               then job_status r' = QUEUED \<and> (\<exists>ev \<in> set (db_outbox_events ?d). awaits_dispatch (job_id r) ev)
               else job_status r' = FAILED)
       else r \<in> set (db_jobs ?d)" if "r \<in> set (db_jobs db)" for r
    using that rs(1) recovered_all_awaits [of r ?rs "rt_codec rt" e ?now 0 db] unfolding jobs set_update_where
    by (auto intro!: bexI [of _ "recover_row ?now r"])
  have "\<exists>ns. recover_due_batch_once rt e locked db = (Inr (int (length ?rs)), ?d, ns)"
    using recover_due_batch_once_eq [OF ok refl, of rt e locked] True by (cases "?rs = []") (auto simp: settle_def)
  then obtain ns where run: "recover_due_batch_once rt e locked db = (Inr (int (length ?rs)), ?d, ns)" ..
  show ?thesis
    by (rule exI, rule exI, rule exI, rule conjI, rule run) (simp only: True not_True_eq_False if_False rs(2), intro conjI ballI refl left each)
next
  case False
  then show ?thesis
    using recover_due_batch_once_eq [OF ok refl, of rt e locked] by (simp add: settle_def)
qed

theorem recovery_clears_expired_witness:
  "\<exists>db' ns. recover_due_batch_once demo_rt (demo_env 70) (\<lambda>i. i = 999) demo_db4 = (Inr 1, db', ns) \<and>
    (\<forall>r' \<in> set (db_jobs db'). lease_expired 70000000 r' \<longrightarrow> job_id r' = 999)"
  using recovery_clears_expired [OF system_ok_parts(1) [OF demo_ok4], of "demo_env 70" "\<lambda>i. i = 999" demo_rt]
  by (auto simp: demo_db4_running lease_expired_def)

section \<open>Creating, cancelling and listing jobs\<close>

text \<open>
  C15: creation is idempotent. After a request created a job, the same request of the same user
  with the same key answers with that job, marked as not created, and changes neither the
  database nor the rate limit and has no after-effects; a request with the same key whose
  content hashes differently is refused with \<^verbatim>\<open>IdempotencyConflictError\<close>, again without any effect.
\<close>

theorem create_is_idempotent:
  assumes first: "create_job rt lib rl e user key t payload seen db s = (Inr res, db', s', eff)" and new: "jcr_created res"
  shows "create_job rt lib rl' e' user key t payload db' db' s2 = (Inr \<lparr>jcr_job = jcr_job res, jcr_created = False\<rparr>, db', s2, []) \<and>
    (build_request_hash lib t' payload' \<noteq> build_request_hash lib t payload \<longrightarrow>
       create_job rt lib rl' e' user key t' payload' db' db' s2 = (Inl IdempotencyConflictError, db', s2, []))"
proof -
  from created_result [OF first new] obtain r where r: "jobs_insert_violation r db = None" "db' = created_db rt e r db"
      "job_owner_id r = cu_id user" "job_idempotency_key r = key" "job_request_hash r = build_request_hash lib t payload"
      "jcr_job res = to_job_public_dto (to_stored_job_dto r)"
    by blast
  from created_lookup [OF r(1), of rt e] r(2-4)
  have "get_by_idempotency_key (cu_id user) key db' = Some (to_stored_job_dto r)" by simp
  then show ?thesis by (simp add: create_job_existing replay_def validate_existing_job_def r(5,6))
qed

theorem create_is_idempotent_witness:
  "\<exists>res. create_job demo_rt demo_lib demo_limiter (demo_env 9) demo_user ''key-1'' SUCCESS [] demo_db2 demo_db2 demo_counters =
    (Inr res, demo_db2, demo_counters, []) \<and> \<not> jcr_created res"
proof -
  obtain res eff where "create_job demo_rt demo_lib demo_limiter (demo_env 2) demo_user ''key-1'' SUCCESS [] demo_db1 demo_db1 Map.empty =
      (Inr res, demo_db2, demo_counters, eff)" "jcr_created res"
    using demo_create by blast
  from create_is_idempotent [OF this, of demo_limiter "demo_env 9" demo_counters] show ?thesis by auto
qed

text \<open>
  C16: two requests with the same key that race create one job. A request that did not see the
  other's job when it looked, but meets it when it inserts, creates nothing, gives its rate limit
  reservation back and answers with the job that won (or the conflict, when that job's content
  hashes differently). This rests on the unique constraint and on recognising its violation from
  what the driver reports.
\<close>

theorem racing_creates_make_one_job:
  assumes driver: "driver_reports_unique (rt_driver rt)" and retries: "job_max_retries_setting (rt_settings rt) = 3"
    and unseen: "get_by_idempotency_key (cu_id user) key seen = None"
    and reserved: "reserve rl (cu_id user) s = (Inr res, s1)"
    and won: "get_by_idempotency_key (cu_id user) key db = Some winner" and fresh: "\<not> job_exists db (uuid4 e 0)"
  shows "create_job rt lib rl e user key t payload seen db s =
    (if sj_request_hash winner = build_request_hash lib t payload
     then Inr \<lparr>jcr_job = to_job_public_dto winner, jcr_created = False\<rparr> else Inl IdempotencyConflictError,
     db, released rl res s1, [])"
proof -
  let ?r = "pending_row e (cu_id user) t payload key (build_request_hash lib t payload) (job_max_retries_setting (rt_settings rt))"
  have "\<exists>r' \<in> set (db_jobs db). job_owner_id r' = cu_id user \<and> job_idempotency_key r' = key"
    using won by (auto simp: get_by_idempotency_key_def dest: scalar_where_SomeD)
  then have "jobs_insert_violation ?r db = Some (UniqueViolation ''uq_jobs_owner_id_idempotency_key'')"
    using fresh retries by (auto simp: jobs_insert_violation_def job_exists_def)
  moreover have "\<not> jobs_data_error ?r" using retries by (simp add: jobs_data_error_def in_smallint_def pending_row_def)
  ultimately show ?thesis
    unfolding create_job_insert [OF unseen reserved refl] using duplicate_key_recognised [OF driver] won
    by (simp add: load_existing_job_def validate_existing_job_def replay_def)
qed

theorem racing_creates_make_one_job_witness:
  "\<exists>res s. create_job demo_rt demo_lib demo_limiter (demo_env 9) demo_user ''key-1'' SUCCESS [] demo_db1 demo_db2 Map.empty =
    (Inr res, demo_db2, s, []) \<and> jcr_job res = to_job_public_dto (to_stored_job_dto demo_row) \<and> \<not> jcr_created res"
proof -
  obtain r where r: "reserve demo_limiter (cu_id demo_user) Map.empty = (Inr (Some r), demo_counters)"
    using demo_reserve by auto
  have unseen: "get_by_idempotency_key (cu_id demo_user) ''key-1'' demo_db1 = None"
    by (simp add: get_by_idempotency_key_def demo_db1_def scalar_where_def)
  have won: "get_by_idempotency_key (cu_id demo_user) ''key-1'' demo_db2 = Some (to_stored_job_dto demo_row)"
    by (simp add: get_by_idempotency_key_def scalar_where_def)
  have "\<not> job_exists demo_db2 (uuid4 (demo_env 9) 0)" by (simp add: job_exists_def)
  from racing_creates_make_one_job [OF _ _ unseen r won this, of demo_rt demo_lib SUCCESS "[]"] demo_driver_ok
  show ?thesis by simp
qed

text \<open>
  C17: what a creation costs that creates nothing. When \<^verbatim>\<open>create_job\<close> ends without a new job, the
  database is as before and there are no after-effects. When Redis answers its calls, a request that the
  limiter refuses counts against its window like any other; in all other cases (replay, conflict,
  lost race, constraint violation, failed commit) every rate limit counter is as before, seen from the
  time at which the reservation was given back, however much later than the reservation that is.
\<close>

theorem uncreated_job_costs_nothing:
  assumes window: "1 \<le> create_job_rate_window_seconds cfg"
    and redis: "io_reserve io = Replied" "io_release io = Replied" "io_reserve_time io \<le> io_release_time io"
    and call: "create_job rt lib (RedisCreateJobRateLimiter str_uuid cfg io) e user key jt payload seen db s =
      (res, db', s', eff)"
    and uncreated: "\<And>result. res = Inr result \<Longrightarrow> \<not> jcr_created result"
  shows "db' = db \<and> eff = [] \<and>
    (if \<exists>a b c. res = Inl (RateLimitExceededError a b c)
     then usage_at (io_reserve_time io) (fst (build_window_key str_uuid cfg (cu_id user) (io_now io))) s' =
       Suc (usage_at (io_reserve_time io) (fst (build_window_key str_uuid cfg (cu_id user) (io_now io))) s)
     else \<forall>k. usage_at (io_release_time io) k s' = usage_at (io_release_time io) k s)"
proof -
  let ?rl = "RedisCreateJobRateLimiter str_uuid cfg io"
  obtain now t d where io: "io = answering now t d" using answering_all [OF redis] by blast
  show ?thesis
  proof (cases "get_by_idempotency_key (cu_id user) key seen = None \<and> isl (fst (reserve ?rl (cu_id user) s))")
    case True
    then obtain x s1 where none: "get_by_idempotency_key (cu_id user) key seen = None"
      and x: "reserve ?rl (cu_id user) s = (Inl x, s1)" by (metis isl_def prod.collapse)
    have "res = Inl x" "db' = db" "s' = s1" "eff = []" using call create_job_limited [OF none x, of rt lib e jt payload db] by simp_all
    with limiter_refusal [OF x] limiter_refused_counts [OF window x redis(1)] show ?thesis by auto
  next
    case False
    have admitted: "\<not> (\<exists>x s1. get_by_idempotency_key (cu_id user) key seen = None \<and> reserve ?rl (cu_id user) s = (Inl x, s1))"
      using False by auto
    have "\<not> (\<exists>result. res = Inr result \<and> jcr_created result)" using uncreated by blast
    note free = redis_limiter.uncreated_is_free [OF call [unfolded io] admitted [unfolded io] this]
    have "\<nexists>a b c. res = Inl (RateLimitExceededError a b c)"
    proof
      assume "\<exists>a b c. res = Inl (RateLimitExceededError a b c)"
      then obtain a b c where r: "res = Inl (RateLimitExceededError a b c)" by blast
      show False using create_job_refused [OF call [unfolded r]] admitted by blast
    qed
    then show ?thesis using free by (simp add: io answering_def)
  qed
qed

theorem uncreated_job_costs_nothing_witness:
  "\<exists>res db' s' eff. create_job demo_rt demo_lib demo_limiter (demo_env 9) demo_user ''key-1'' SUCCESS [] demo_db2 demo_db2 demo_counters =
      (Inr res, db', s', eff) \<and>
    (\<forall>k. usage_at 0 k s' = usage_at 0 k demo_counters) \<and> db' = demo_db2 \<and> eff = []"
proof -
  obtain res db' s' eff where call: "create_job demo_rt demo_lib demo_limiter (demo_env 9) demo_user ''key-1'' SUCCESS [] demo_db2 demo_db2 demo_counters =
      (Inr res, db', s', eff)" and "\<not> jcr_created res"
    using demo_replayed by blast
  then show ?thesis
    using uncreated_job_costs_nothing [OF _ _ _ _ call [unfolded demo_limiter_def]]
    by (auto simp: demo_settings_def demo_io_def answering_def)
qed



text \<open>
  C19: cancelling. For a caller with access, a \<^verbatim>\<open>pending\<close> or \<^verbatim>\<open>queued\<close> job becomes \<^verbatim>\<open>cancelled\<close> at
  once; a \<^verbatim>\<open>running\<close> one keeps running with the request recorded, and the worker's next poll sees
  it; cancelling again, or a cancelled job, changes nothing; a \<^verbatim>\<open>completed\<close> or \<^verbatim>\<open>failed\<close> job is
  refused with \<^verbatim>\<open>JobNotCancellableError\<close>. When the commit fails nothing has changed. The answer is what a
  second transaction reads of the job afterwards: the row just written when nobody commits in
  between, and an error, with the cancellation in place, when that read fails.
\<close>

theorem cancel_outcome:
  assumes ok: "db_ok c db" and r: "r \<in> set (db_jobs db)" "job_id r = i" and acc: "may_access user r"
  shows "\<exists>res db' eff. cancel_job e user i reread db = (res, db', eff) \<and>
    (job_status r \<in> {COMPLETED, FAILED} \<longrightarrow> res = Inl JobNotCancellableError \<and> db' = db) \<and>
    (job_status r = CANCELLED \<or> job_status r = RUNNING \<and> job_cancel_requested_at r \<noteq> None \<longrightarrow>
       res = Inr (to_job_public_dto (to_stored_job_dto r)) \<and> db' = db) \<and>
    (job_status r \<in> {PENDING, QUEUED} \<or> job_status r = RUNNING \<and> job_cancel_requested_at r = None \<longrightarrow>
       (if commit_ok e 0
        then \<exists>r' \<in> set (db_jobs db'). job_id r' = i \<and> res = read_back reread i db' \<and>
               (reread db' = Inr db' \<longrightarrow> res = Inr (to_job_public_dto (to_stored_job_dto r'))) \<and>
               (if job_status r = RUNNING
                then job_status r' = RUNNING \<and> job_cancel_requested_at r' = Some (clock_now e 0) \<and>
                     job_execution_token r' = job_execution_token r
                else job_status r' = CANCELLED \<and> job_finished_at r' = Some (clock_now e 0))
        else res = Inl DatabaseError \<and> db' = db))"
proof (cases "cancel_row (clock_now e 0) r")
  case None
  then have "job_status r \<notin> {PENDING, QUEUED}" "job_status r = RUNNING \<Longrightarrow> job_cancel_requested_at r \<noteq> None"
    by (auto simp: cancel_row_def split: if_splits)
  then show ?thesis by (cases "job_status r") (auto simp: cancel_job_idle [OF db_ok_keys [OF ok] r acc None])
next
  case (Some r')
  then have row: "job_id r' = i" "job_status r \<in> {PENDING, QUEUED, RUNNING}"
      "job_status r = RUNNING \<Longrightarrow> job_cancel_requested_at r = None \<and> job_status r' = RUNNING \<and>
         job_cancel_requested_at r' = Some (clock_now e 0) \<and> job_execution_token r' = job_execution_token r"
      "job_status r \<noteq> RUNNING \<Longrightarrow> job_status r' = CANCELLED \<and> job_finished_at r' = Some (clock_now e 0)"
    using r(2) by (auto simp: cancel_row_def split: if_splits)
  have mem: "r' \<in> set (db_jobs (cancelled_db e r r' db))"
    using r row(1) by (auto simp: put_row_def set_update_where)
  have own: "read_back reread i (cancelled_db e r r' db) = Inr (to_job_public_dto (to_stored_job_dto r'))"
    if "reread (cancelled_db e r r' db) = Inr (cancelled_db e r r' db)"
    using read_back_own [OF db_ok_keys [OF ok] r(1), of r' reread e] that row(1) r(2) by simp
  show ?thesis
    unfolding cancel_job_changes [OF db_ok_keys [OF ok] r acc Some]
    using mem row own by (cases "commit_ok e 0"; cases "job_status r = RUNNING") (auto intro!: bexI [of _ r'])
qed

theorem cancel_outcome_witness:
  "\<exists>db' eff r'. cancel_job (demo_env 5) demo_user 200 Inr demo_db4 = (Inr (to_job_public_dto (to_stored_job_dto r')), db', eff) \<and>
    job_status r' = RUNNING \<and> job_cancel_requested_at r' = Some 5000000"
  using cancel_outcome [OF system_ok_parts(1) [OF demo_ok4], of demo_running 200 demo_user "demo_env 5" Inr]
  by (auto simp: demo_db4_running may_access_def)

text \<open>
  C20: nobody learns of other users' jobs. For a caller who is neither the owner nor an
  administrator, reading a job, reading its logs and cancelling it answer exactly as for a job that
  does not exist, and change nothing.
\<close>

theorem foreign_job_is_invisible:
  assumes ok: "db_ok c db" and r: "r \<in> set (db_jobs db)" "job_id r = i" and foreign: "cu_role user \<noteq> ADMIN" "job_owner_id r \<noteq> cu_id user"
    and missing: "\<not> job_exists db j"
  shows "get_job_detail user i db = get_job_detail user j db \<and> list_job_logs user i db = list_job_logs user j db \<and>
    cancel_job e user i reread db = cancel_job e user j reread db \<and>
    get_job_detail user i db = Inl (ResourceNotFoundError ''Job not found'') \<and>
    cancel_job e user i reread db = (Inl (ResourceNotFoundError ''Job not found''), db, [])"
proof -
  have "\<not> may_access user r" using foreign by (simp add: may_access_def)
  then have "load_authorized_job_for_update lock user i db = Inl (ResourceNotFoundError ''Job not found'')" for lock
    using load_authorized_eq [OF db_ok_keys [OF ok] r] by simp
  then show ?thesis
    using load_authorized_missing [OF missing]
    by (simp add: get_job_detail_def list_job_logs_def load_authorized_job_def cancel_job_denied)
qed

theorem foreign_job_is_invisible_witness:
  "get_job_detail (demo_user\<lparr>cu_id := 7\<rparr>) 200 demo_db4 = get_job_detail (demo_user\<lparr>cu_id := 7\<rparr>) 8 demo_db4"
  using foreign_job_is_invisible [OF system_ok_parts(1) [OF demo_ok4], of demo_running 200 "demo_user\<lparr>cu_id := 7\<rparr>" 8]
  by (simp add: demo_db4_running job_exists_def)

text \<open>
  C21: paging is complete and exact. Following the cursors from the first page with a limit
  between 1 and 100 yields every job the caller may see, each once, newest first, with no other job;
  one more call than there are jobs is always enough.
\<close>

theorem pages_enumerate_jobs:
  assumes "text_lib_ok lib" and "job_keys_ok db" and "1 \<le> n" and "n \<le> 100" and "length (visible_jobs user db) < fuel"
  shows "walk_pages lib user n db fuel None = map (\<lambda>r. to_job_public_dto (to_stored_job_dto r)) (visible_jobs user db) \<and>
    set (visible_jobs user db) = {r \<in> set (db_jobs db). may_access user r} \<and> distinct (map job_id (visible_jobs user db)) \<and>
    sorted_wrt (\<lambda>r r'. row_cursor r' < row_cursor r) (visible_jobs user db)"
proof (intro conjI)
  show "walk_pages lib user n db fuel None = map (\<lambda>r. to_job_public_dto (to_stored_job_dto r)) (visible_jobs user db)"
    using walk_pages_at [OF assms(1-4), of 0 user fuel] assms(5) by (simp add: cursor_at_def)
  show "set (visible_jobs user db) = {r \<in> set (db_jobs db). may_access user r}"
    by (auto simp: visible_jobs_def ordered_jobs_def)
  show "distinct (map job_id (visible_jobs user db))"
    using assms(2) by (auto simp: visible_jobs_def ordered_jobs_def job_keys_ok_def distinct_map rev_map [symmetric] inj_on_def)
  show "sorted_wrt (\<lambda>r r'. row_cursor r' < row_cursor r) (visible_jobs user db)"
    unfolding visible_jobs_def by (rule ordered_jobs_strict [OF assms(2)])
qed

theorem pages_enumerate_jobs_witness:
  "walk_pages demo_lib demo_user 1 demo_db4 2 None = [to_job_public_dto (to_stored_job_dto demo_running)]"
proof -
  have "visible_jobs demo_user demo_db4 = [demo_running]"
    by (simp add: visible_jobs_def ordered_jobs_def demo_db4_running may_access_def)
  then show ?thesis using pages_enumerate_jobs [OF demo_lib_ok demo_keys4, of 1 demo_user 2] by simp
qed

text \<open>
  C22: the request hash identifies the content of a request. Reordering the entries of the payload
  does not change it, and when SHA-256 does not collide on the two canonical texts, two requests
  have the same hash only if they have the same type and the same payload up to the order of keys.
\<close>

theorem request_hash_identifies_content:
  assumes "inj_on (tl_sha256 lib) {dumps (JObj [(''type'', JStr (JobType_value t)), (''payload'', JObj p)]),
      dumps (JObj [(''type'', JStr (JobType_value t')), (''payload'', JObj p')])}"
  shows "(build_request_hash lib t p = build_request_hash lib t' p' \<longleftrightarrow> t = t' \<and> sort_keys (JObj p) = sort_keys (JObj p')) \<and>
    (distinct (map fst p) \<and> mset q = mset p \<longrightarrow> build_request_hash lib t q = build_request_hash lib t p)"
proof (intro conjI impI)
  let ?a = "dumps (JObj [(''type'', JStr (JobType_value t)), (''payload'', JObj p)])"
  let ?b = "dumps (JObj [(''type'', JStr (JobType_value t')), (''payload'', JObj p')])"
  have "build_request_hash lib t p = build_request_hash lib t' p' \<longleftrightarrow> ?a = ?b"
    unfolding build_request_hash_def by (rule inj_on_eq_iff [OF assms]) simp_all
  also have "\<dots> \<longleftrightarrow> t = t' \<and> sort_keys (JObj p) = sort_keys (JObj p')"
    unfolding dumps_eq_iff request_object by (cases t; cases t') (auto simp del: sort_keys.simps)
  finally show "build_request_hash lib t p = build_request_hash lib t' p' \<longleftrightarrow> t = t' \<and> sort_keys (JObj p) = sort_keys (JObj p')" .
  show "build_request_hash lib t q = build_request_hash lib t p" if "distinct (map fst p) \<and> mset q = mset p"
    using dumps_entry_order [of p q] that unfolding build_request_hash_def dumps_def request_object by simp
qed

theorem request_hash_identifies_content_witness:
  "build_request_hash demo_lib SLEEP [(''duration_seconds'', JInt 1)] \<noteq> build_request_hash demo_lib SLEEP [(''duration_seconds'', JInt 2)]"
  using request_hash_identifies_content [of demo_lib SLEEP "[(''duration_seconds'', JInt 1)]" SLEEP "[(''duration_seconds'', JInt 2)]"]
  by (simp add: demo_lib_def)

section \<open>Locks and settings\<close>

text \<open>
  C23: claiming and recovering can deadlock. A worker that claims a job locks the owner's row and
  then the job's row; recovery locks the expired job's row first and the owner's row afterwards. For
  the same job (its message was redelivered while its lease ran out) both transactions can end up
  waiting for each other.
\<close>

theorem claim_and_recovery_can_deadlock:
  "\<exists>ts. lock_step\<^sup>*\<^sup>* [start_transaction (claim_locks owner i), start_transaction (recovery_locks [(i, owner)] [])] ts \<and> deadlocked ts"
proof -
  let ?t0 = "[start_transaction (claim_locks owner i), start_transaction (recovery_locks [(i, owner)] [])]"
  let ?t1 = "[start_transaction (claim_locks owner i), \<lparr>tx_held = [JobRow i], tx_todo = Wait (OwnerRow owner) Finished\<rparr>]"
  let ?t2 = "[\<lparr>tx_held = [OwnerRow owner], tx_todo = Wait (JobRow i) Finished\<rparr>,
    \<lparr>tx_held = [JobRow i], tx_todo = Wait (OwnerRow owner) Finished\<rparr>]"
  have free: "\<not> held_by_other ?t1 0 (OwnerRow owner)"
    by (auto simp: held_by_other_def start_transaction_def nth_Cons')
  have "\<not> held_by_other ?t0 1 (JobRow i)" by (auto simp: held_by_other_def start_transaction_def nth_Cons')
  then have "lock_step ?t0 ?t1"
    using lock_step.skip_acquire [of 1 ?t0 "JobRow i" "Wait (OwnerRow owner) Finished" Finished]
    by (simp add: start_transaction_def)
  moreover have "lock_step ?t1 ?t2"
    using lock_step.acquire [of 0 ?t1 "OwnerRow owner" "Wait (JobRow i) Finished"] free
    by (simp add: start_transaction_def claim_locks_def)
  moreover have "blocked ?t2 0" "blocked ?t2 (Suc 0)"
    by (auto simp: blocked_def held_by_other_def intro: exI [of _ "Suc 0"] exI [of _ 0])
  then have "deadlocked ?t2" by (auto simp: deadlocked_def less_Suc_eq)
  ultimately show ?thesis by (meson converse_rtranclp_into_rtranclp rtranclp.rtrancl_refl)
qed

text \<open>
  C24: the other transactions that lock rows never deadlock. Any number of claims, finished executions, cancellation polls,
  cancellations and publications, in any interleaving, never wait for each other in a circle:
  they take the owner's or the event's row before the job's row.
\<close>

theorem other_transactions_never_deadlock:
  assumes "\<forall>p \<in> set ps. \<exists>o' i ev. p = claim_locks o' i \<or> p = finish_locks i \<or> p = cancel_locks i \<or> p = publish_locks ev i"
    and "lock_step\<^sup>*\<^sup>* (map start_transaction ps) ts"
  shows "\<not> deadlocked ts"
proof -
  define rank :: "resource \<Rightarrow> nat" where "rank x = (case x of JobRow _ \<Rightarrow> 1 | _ \<Rightarrow> 0)" for x
  have "all_ascending rank (map start_transaction ps)"
    using assms(1)
    by (fastforce simp: all_ascending_def start_transaction_def rank_def claim_locks_def finish_locks_def
        cancel_locks_def publish_locks_def)
  with assms(2) have "all_ascending rank ts"
    by (induction rule: rtranclp_induct) (auto intro: lock_step_ascending)
  then show ?thesis by (rule ascending_not_deadlocked)
qed

theorem other_transactions_never_deadlock_witness:
  "\<not> deadlocked (map start_transaction [claim_locks 1 2, publish_locks 3 2])"
  by (rule other_transactions_never_deadlock [of "[claim_locks 1 2, publish_locks 3 2]"]) auto

text \<open>
  C25: only one value of \<^verbatim>\<open>JOB_MAX_RETRIES\<close> works. The settings accept every value from 0 on, but the
  table only admits 3: with any other value every request that would create a job fails, up to 32767
  with the violation of the check constraint, above with the error of a value that a \<^verbatim>\<open>SMALLINT\<close>
  column cannot hold. Either is reported as an internal error; the job is not created and
  the rate limit reservation is given back.
\<close>

theorem other_max_retries_break_creation:
  assumes "job_max_retries_setting (rt_settings rt) \<noteq> 3" and "get_by_idempotency_key (cu_id user) key seen = None"
    and "reserve rl (cu_id user) s = (Inr res, s1)"
    and "oe_sqlstate (rt_driver rt (CheckViolation ''ck_jobs_jobs_max_retries_fixed'')) = Some ''23514''"
  shows "create_job rt lib rl e user key t payload seen db s =
    (Inl (if - 32768 \<le> job_max_retries_setting (rt_settings rt) \<and> job_max_retries_setting (rt_settings rt) \<le> 32767
          then IntegrityError (CheckViolation ''ck_jobs_jobs_max_retries_fixed'') else DataError),
     db, released rl res s1, [])"
proof -
  let ?r = "pending_row e (cu_id user) t payload key (build_request_hash lib t payload) (job_max_retries_setting (rt_settings rt))"
  have "jobs_insert_violation ?r db = Some (CheckViolation ''ck_jobs_jobs_max_retries_fixed'')"
    using assms(1) by (simp add: jobs_insert_violation_def)
  moreover have "jobs_data_error ?r \<longleftrightarrow>
      \<not> (- 32768 \<le> job_max_retries_setting (rt_settings rt) \<and> job_max_retries_setting (rt_settings rt) \<le> 32767)"
    by (auto simp: jobs_data_error_def in_smallint_def)
  moreover have "\<not> is_duplicate_job_idempotency_key_error (rt_driver rt (CheckViolation ''ck_jobs_jobs_max_retries_fixed''))"
    using assms(4) by (simp add: is_duplicate_job_idempotency_key_error_def str_or_def)
  ultimately show ?thesis unfolding create_job_insert [OF assms(2,3) refl] by simp
qed

theorem other_max_retries_break_creation_witness:
  "\<exists>s' s''. create_job (demo_rt\<lparr>rt_settings := demo_settings\<lparr>job_max_retries_setting := 5\<rparr>\<rparr>) demo_lib demo_limiter (demo_env 2)
     demo_user ''key-1'' SUCCESS [] demo_db1 demo_db1 Map.empty =
    (Inl (IntegrityError (CheckViolation ''ck_jobs_jobs_max_retries_fixed'')), demo_db1, s', []) \<and>
   create_job (demo_rt\<lparr>rt_settings := demo_settings\<lparr>job_max_retries_setting := 40000\<rparr>\<rparr>) demo_lib demo_limiter (demo_env 2)
     demo_user ''key-1'' SUCCESS [] demo_db1 demo_db1 Map.empty = (Inl DataError, demo_db1, s'', [])"
proof -
  let ?rt = "\<lambda>n. demo_rt\<lparr>rt_settings := demo_settings\<lparr>job_max_retries_setting := n\<rparr>\<rparr>"
  obtain r where r: "reserve demo_limiter (cu_id demo_user) Map.empty = (Inr (Some r), demo_counters)"
    using demo_reserve by auto
  have "get_by_idempotency_key (cu_id demo_user) ''key-1'' demo_db1 = None"
    by (simp add: get_by_idempotency_key_def demo_db1_def scalar_where_def)
  from other_max_retries_break_creation [OF _ this r, of "?rt 5"] other_max_retries_break_creation [OF _ this r, of "?rt 40000"]
  show ?thesis by simp
qed

section \<open>Progress and refinement\<close>

text \<open>
  C38: an unfinished job without a request to cancel can always still be brought to its end by the
  background processes alone. From every reachable state, however often the job has been retried,
  deferred or recovered, whether it waits or a worker has taken it and disappeared, and even if all
  the running jobs its owner may have are taken, there is a continuation (recovery of a running job,
  dispatch from the outbox unless a message is already in the queue, delivery, the checks for
  cancellation, retries; no request, no message from elsewhere) that ends as the job does: a success
  or sleep job is \<^verbatim>\<open>completed\<close>, a failure job \<^verbatim>\<open>failed\<close>, and so is a job that was lost in its fourth
  attempt. This is for settings within their bounds, as long as a recovery batch and 13 more identifiers are unused.
\<close>

theorem unfinished_job_can_end:
  assumes "codec_ok (rt_codec rt)" and "settings_bounds (rt_settings rt)" and "rt_registry rt = build_job_handler_registry"
    and "reachable rt lib s"
    and "r \<in> set (db_jobs (sys_db s))" and "\<not> is_terminal_status (job_status r)" and "job_cancel_requested_at r = None"
    and "job_type r \<in> {SUCCESS, FAILURE} \<or> (\<exists>d. job_type r = SLEEP \<and> job_payload r = [(''duration_seconds'', JInt (int d))])"
    and "card (used_uuids s) + (nat (recovery_batch_size (rt_settings rt)) + 13) \<le> 2 ^ 128"
  shows "\<exists>s' r'. (service_step rt)\<^sup>*\<^sup>* s s' \<and> r' \<in> set (db_jobs (sys_db s')) \<and> job_id r' = job_id r \<and>
    job_status r' = (if job_type r = FAILURE \<or> job_status r = RUNNING \<and> job_attempt_count r = 4 then FAILED else COMPLETED)"
proof -
  have "job_type r = FAILURE \<or> returning_job r \<noteq> None" using assms(8) by (auto simp: returning_job_def)
  then show ?thesis
    using unfinished_job_ends [OF assms(1) reachable_system_ok [OF assms(1,4)] assms(2,3,5,6,7) _ spare_card [OF assms(9)]] by blast
qed

theorem unfinished_job_can_end_witness:
  "\<exists>s' r'. (service_step demo_rt)\<^sup>*\<^sup>* demo_s4 s' \<and> r' \<in> set (db_jobs (sys_db s')) \<and> job_id r' = 200 \<and> job_status r' = COMPLETED"
proof -
  have "used_uuids demo_s4 = {201, 400}"
    by (auto simp: used_uuids_def demo_db4_running demo_s4_def) (simp_all add: demo_db4_def start_db_def mark_running_def)
  then have "card (used_uuids demo_s4) + (50 + 13) \<le> 2 ^ 128" by simp
  moreover have "job_type demo_running = SUCCESS" by (simp add: demo_running_def)
  ultimately show ?thesis
    using unfinished_job_can_end [OF _ _ _ demo_reachable4, of demo_running] demo_codec_ok demo_settings_ok by (simp add: demo_db4_running)
qed

text \<open>
  C39: the system refines the job board. Seen through the job table alone, every run from a
  reachable state is a run of the abstract board, in which a job waits, is worked on at most
  four times and only while its owner has room, returns to waiting or is finished for good;
  outbox, queue, tokens, leases, crashes and recovery add no behaviour.
\<close>

theorem system_refines_board:
  assumes "codec_ok (rt_codec rt)" and "reachable rt lib s" and "(step rt lib)\<^sup>*\<^sup>* s s'"
  shows "(board_step (job_max_running_per_user (rt_settings rt)))\<^sup>*\<^sup>* (board_of (sys_db s)) (board_of (sys_db s'))"
  using board.run_simulated [OF assms(3)] assms(1) reachable_system_ok [OF assms(1,2)] by simp

theorem system_refines_board_witness:
  "(board_step 3)\<^sup>*\<^sup>* [200 \<mapsto> (100, Open 0)] [200 \<mapsto> (100, Open 1)]"
proof -
  have "(step demo_rt demo_lib)\<^sup>*\<^sup>* demo_s3 demo_s5"
    by (rule rtranclp.rtrancl_into_rtrancl [OF r_into_rtranclp [of "step demo_rt demo_lib", OF demo_step4] demo_step5])
  from system_refines_board [OF _ demo_reachable3 this] demo_codec_ok show ?thesis
    by (simp add: board_of_def rows_board_def entry_def demo_s5_def demo_db5_jobs recover_row_def)
qed

end
